theory Spec2Isabelle
  imports Main "HOL-Library.AList"
begin

section \<open>Shared data model\<close>

text \<open>
  The orchestration core of the clone platform, embedded from the TypeScript sources:
  the in-memory job store (\<^verbatim>\<open>lib/jobStore.ts\<close>), the in-memory clone store
  (\<^verbatim>\<open>lib/cloneStore.ts\<close>), the worker manager (\<^verbatim>\<open>lib/workerManager.ts\<close>), the
  Supabase repositories (\<^verbatim>\<open>lib/repositories\<close>), the training route
  (\<^verbatim>\<open>app/api/training/route.ts\<close>) and the integration store
  (\<^verbatim>\<open>lib/integrationStore.ts\<close>).

  Conventions. An optional field \<^verbatim>\<open>f?: T\<close> is a \<open>T option\<close> (\<open>None\<close> is
  \<^verbatim>\<open>undefined\<close>; for a database column it is \<^verbatim>\<open>null\<close>). \<^verbatim>\<open>Date.now()\<close> is a parameter
  \<open>now\<close> of the operation that reads it. A JavaScript \<^verbatim>\<open>Map\<close> is an association list in
  insertion order: \<^verbatim>\<open>set\<close> overwrites an existing key in place and appends a new
  one (\<^const>\<open>AList.update\<close>), \<^verbatim>\<open>delete\<close> removes the key (\<^const>\<open>AList.delete\<close>),
  \<^verbatim>\<open>get\<close> is \<^const>\<open>map_of\<close>, and iteration follows the list. Objects held in a map are
  mutated in place by the source; the model rewrites the entry at its position.
\<close>

datatype JobStatus = JQueued | JRunning | JSucceeded | JFailed

datatype CloneStatus = CTraining | CReady | CFailed

datatype WorkerStatus = WStarting | WRunning | WStopped | WError

record KnowledgeSource =
  ks_source :: string
  ks_chunks :: nat
  ks_displayName :: "string option"
  ks_size :: "nat option"

text \<open>JavaScript truthiness of an optional string: defined and not empty.\<close>

definition truthy :: "string option \<Rightarrow> bool" where
  "truthy s = (case s of None \<Rightarrow> False | Some x \<Rightarrow> x \<noteq> [])"

text \<open>\<^verbatim>\<open>a || b\<close> on an optional string with a string default.\<close>

definition or_else :: "string option \<Rightarrow> string \<Rightarrow> string" where
  "or_else s d = (if truthy s then the s else d)"

text \<open>\<^verbatim>\<open>x || undefined\<close>, \<^verbatim>\<open>x || null\<close>: a falsy string becomes absent.\<close>

definition or_undefined :: "string option \<Rightarrow> string option" where
  "or_undefined s = (if truthy s then s else None)"

text \<open>Decimal rendering of an integer, as a template literal prints a number.\<close>

fun string_of_nat :: "nat \<Rightarrow> string" where
  "string_of_nat n =
     (if n < 10 then [''0123456789'' ! n]
      else string_of_nat (n div 10) @ [''0123456789'' ! (n mod 10)])"

declare string_of_nat.simps [simp del]

definition string_of_int :: "int \<Rightarrow> string" where
  "string_of_int i = (if i < 0 then CHR ''-'' # string_of_nat (nat (- i)) else string_of_nat (nat i))"

text \<open>
  A JSON record file on disk: absent, unreadable (the read or the parse throws), or an
  object whose entries \<^verbatim>\<open>Object.entries\<close> lists.
\<close>

datatype 'a disk_file = Missing | Unreadable | Content "(string \<times> 'a) list"

section \<open>The in-memory job store (jobStore.ts)\<close>

record TrainingJob =
  job_id :: string
  job_modelId :: string
  job_datasetPath :: string
  job_systemPrompt :: string
  job_persona :: "string option"
  job_cloneId :: "string option"
  job_cloneName :: "string option"
  job_adapterDir :: "string option"
  job_processedDir :: "string option"
  job_knowledgeFile :: "string option"
  job_ragIndexDir :: "string option"
  job_knowledgeCount :: "nat option"
  job_knowledgeSources :: "KnowledgeSource list option"
  job_createdAt :: int
  job_updatedAt :: int
  job_status :: JobStatus
  job_logs :: "string list"
  job_error :: "string option"

type_synonym job_map = "(string \<times> TrainingJob) list"

text \<open>The loop body of \<^verbatim>\<open>loadJobsFromDisk\<close>: a running job is reset, then stored.\<close>

fun load_jobs_loop :: "(string \<times> TrainingJob) list \<Rightarrow> job_map \<Rightarrow> job_map" where
  "load_jobs_loop [] m = m"
| "load_jobs_loop ((key, job) # rest) m =
     load_jobs_loop rest
       (AList.update key
          (if job_status job = JRunning
           then job\<lparr>job_status := JFailed,
                    job_error := Some ''Training interrupted by server restart''\<rparr>
           else job) m)"

definition loadJobsFromDisk :: "TrainingJob disk_file \<Rightarrow> job_map" where
  "loadJobsFromDisk file =
     (case file of
        Missing \<Rightarrow> []
      | Unreadable \<Rightarrow> []
      | Content parsed \<Rightarrow> load_jobs_loop parsed [])"

record job_params =
  jp_modelId :: string
  jp_datasetPath :: string
  jp_systemPrompt :: string
  jp_persona :: "string option"
  jp_cloneId :: "string option"
  jp_cloneName :: "string option"
  jp_adapterDir :: "string option"

text \<open>\<^verbatim>\<open>createJob\<close>; \<open>uuid\<close> is the value of \<^verbatim>\<open>randomUUID()\<close>.\<close>

definition new_job :: "job_params \<Rightarrow> string \<Rightarrow> int \<Rightarrow> TrainingJob" where
  "new_job params uuid now =
     \<lparr>job_id = uuid, job_modelId = jp_modelId params, job_datasetPath = jp_datasetPath params,
      job_systemPrompt = jp_systemPrompt params, job_persona = jp_persona params,
      job_cloneId = jp_cloneId params, job_cloneName = jp_cloneName params,
      job_adapterDir = jp_adapterDir params, job_processedDir = None,
      job_knowledgeFile = None, job_ragIndexDir = None, job_knowledgeCount = None,
      job_knowledgeSources = None, job_createdAt = now, job_updatedAt = now,
      job_status = JQueued, job_logs = [], job_error = None\<rparr>"

definition createJob :: "job_map \<Rightarrow> job_params \<Rightarrow> string \<Rightarrow> int \<Rightarrow> job_map \<times> TrainingJob" where
  "createJob jobs params uuid now =
     (let job = new_job params uuid now in (AList.update uuid job jobs, job))"

text \<open>The \<^verbatim>\<open>data\<close> argument of \<^verbatim>\<open>updateJob\<close>: every field optional.\<close>

record job_data =
  jd_status :: "JobStatus option"
  jd_logs :: "string list option"
  jd_error :: "string option"
  jd_updatedAt :: "int option"
  jd_adapterDir :: "string option"
  jd_processedDir :: "string option"
  jd_knowledgeFile :: "string option"
  jd_ragIndexDir :: "string option"
  jd_knowledgeCount :: "nat option"
  jd_knowledgeSources :: "KnowledgeSource list option"

definition apply_job_data :: "TrainingJob \<Rightarrow> job_data \<Rightarrow> int \<Rightarrow> TrainingJob" where
  "apply_job_data job data now =
     (let j1 = (case jd_status data of Some s \<Rightarrow> job\<lparr>job_status := s\<rparr> | None \<Rightarrow> job);
          j2 = (case jd_logs data of Some l \<Rightarrow> j1\<lparr>job_logs := l\<rparr> | None \<Rightarrow> j1);
          j3 = (if truthy (jd_error data) then j2\<lparr>job_error := jd_error data\<rparr> else j2);
          j4 = (if truthy (jd_adapterDir data) then j3\<lparr>job_adapterDir := jd_adapterDir data\<rparr> else j3);
          j5 = (if truthy (jd_processedDir data) then j4\<lparr>job_processedDir := jd_processedDir data\<rparr> else j4);
          j6 = (if jd_knowledgeFile data \<noteq> None then j5\<lparr>job_knowledgeFile := jd_knowledgeFile data\<rparr> else j5);
          j7 = (if jd_ragIndexDir data \<noteq> None then j6\<lparr>job_ragIndexDir := jd_ragIndexDir data\<rparr> else j6);
          j8 = (if jd_knowledgeCount data \<noteq> None then j7\<lparr>job_knowledgeCount := jd_knowledgeCount data\<rparr> else j7);
          j9 = (if jd_knowledgeSources data \<noteq> None then j8\<lparr>job_knowledgeSources := jd_knowledgeSources data\<rparr> else j8)
      in j9\<lparr>job_updatedAt := (case jd_updatedAt data of Some t \<Rightarrow> t | None \<Rightarrow> now)\<rparr>)"

definition updateJob :: "job_map \<Rightarrow> string \<Rightarrow> job_data \<Rightarrow> int \<Rightarrow> job_map \<times> TrainingJob option" where
  "updateJob jobs key data now =
     (case map_of jobs key of
        None \<Rightarrow> (jobs, None)
      | Some job \<Rightarrow>
          (let job' = apply_job_data job data now in (AList.update key job' jobs, Some job')))"

definition getJob :: "job_map \<Rightarrow> string \<Rightarrow> TrainingJob option" where
  "getJob jobs key = map_of jobs key"

definition appendLog :: "job_map \<Rightarrow> string \<Rightarrow> string \<Rightarrow> int \<Rightarrow> job_map" where
  "appendLog jobs key line now =
     (case map_of jobs key of
        None \<Rightarrow> jobs
      | Some job \<Rightarrow>
          AList.update key (job\<lparr>job_logs := job_logs job @ [line], job_updatedAt := now\<rparr>) jobs)"

text \<open>\<^verbatim>\<open>Array.from(jobs.values())\<close>: the values in the map's insertion order.\<close>

definition listJobs :: "job_map \<Rightarrow> TrainingJob list" where
  "listJobs jobs = map snd jobs"

section \<open>The in-memory clone store (cloneStore.ts)\<close>

record CloneRecord =
  clone_id :: string
  clone_name :: string
  clone_modelId :: string
  clone_jobId :: string
  clone_status :: CloneStatus
  clone_datasetCount :: "nat option"
  clone_datasetId :: "string option"
  clone_messengers :: "string list option"
  clone_apiKey :: "string option"
  clone_isRunning :: "bool option"
  clone_startedAt :: "int option"
  clone_createdAt :: int
  clone_updatedAt :: int
  clone_knowledgeCount :: "nat option"
  clone_knowledgeSources :: "KnowledgeSource list option"
  clone_knowledgeFile :: "string option"
  clone_ragIndexDir :: "string option"

type_synonym clone_map = "(string \<times> CloneRecord) list"

definition demo_clone :: "int \<Rightarrow> CloneRecord" where
  "demo_clone now =
     \<lparr>clone_id = ''demo-clones'', clone_name = ''CyberClone Alpha'',
      clone_modelId = ''llama-3-8b-instruct'', clone_jobId = ''job-888'',
      clone_status = CReady, clone_datasetCount = Some 12,
      clone_datasetId = Some ''demo-dataset'',
      clone_messengers = Some [''telegram'', ''whatsapp'', ''discord''],
      clone_apiKey = Some ''sk-live-demo-key-12345'', clone_isRunning = Some False,
      clone_startedAt = Some now, clone_createdAt = now, clone_updatedAt = now,
      clone_knowledgeCount = Some 2,
      clone_knowledgeSources = Some
        [\<lparr>ks_source = ''demo/knowledge/about_product.md'', ks_chunks = 1,
          ks_displayName = None, ks_size = None\<rparr>,
         \<lparr>ks_source = ''demo/knowledge/faq.md'', ks_chunks = 1,
          ks_displayName = None, ks_size = None\<rparr>],
      clone_knowledgeFile = Some ''uploads/jobs/job-888/processed_dataset/knowledge.jsonl'',
      clone_ragIndexDir = Some ''uploads/jobs/job-888/rag_index''\<rparr>"

fun load_clones_loop :: "(string \<times> CloneRecord) list \<Rightarrow> clone_map \<Rightarrow> clone_map" where
  "load_clones_loop [] m = m"
| "load_clones_loop ((key, clone) # rest) m =
     load_clones_loop rest (AList.update key (clone\<lparr>clone_isRunning := Some False\<rparr>) m)"

definition loadClonesFromDisk :: "int \<Rightarrow> CloneRecord disk_file \<Rightarrow> clone_map" where
  "loadClonesFromDisk now file =
     (case file of
        Missing \<Rightarrow> [(''demo-clones'', demo_clone now)]
      | Unreadable \<Rightarrow> []
      | Content parsed \<Rightarrow> load_clones_loop parsed [])"

record clone_params =
  cp_name :: string
  cp_modelId :: string
  cp_jobId :: string
  cp_status :: "CloneStatus option"
  cp_datasetCount :: "nat option"
  cp_datasetId :: "string option"
  cp_startedAt :: "int option"
  cp_knowledgeCount :: "nat option"
  cp_knowledgeSources :: "KnowledgeSource list option"
  cp_knowledgeFile :: "string option"
  cp_ragIndexDir :: "string option"

text \<open>\<^verbatim>\<open>createClone\<close>; \<open>uuid\<close> and \<open>apikey\<close> are the two \<^verbatim>\<open>randomUUID()\<close> values.\<close>

definition new_clone :: "clone_params \<Rightarrow> string \<Rightarrow> string \<Rightarrow> int \<Rightarrow> CloneRecord" where
  "new_clone params uuid apikey now =
     \<lparr>clone_id = uuid, clone_name = cp_name params, clone_modelId = cp_modelId params,
      clone_jobId = cp_jobId params,
      clone_status = (case cp_status params of Some s \<Rightarrow> s | None \<Rightarrow> CTraining),
      clone_datasetCount = cp_datasetCount params, clone_datasetId = cp_datasetId params,
      clone_messengers = Some [], clone_apiKey = Some apikey, clone_isRunning = Some False,
      clone_startedAt = Some (case cp_startedAt params of Some t \<Rightarrow> t | None \<Rightarrow> now),
      clone_createdAt = now, clone_updatedAt = now,
      clone_knowledgeCount = cp_knowledgeCount params,
      clone_knowledgeSources = cp_knowledgeSources params,
      clone_knowledgeFile = cp_knowledgeFile params,
      clone_ragIndexDir = cp_ragIndexDir params\<rparr>"

definition createClone ::
  "clone_map \<Rightarrow> clone_params \<Rightarrow> string \<Rightarrow> string \<Rightarrow> int \<Rightarrow> clone_map \<times> CloneRecord" where
  "createClone clones params uuid apikey now =
     (let clone = new_clone params uuid apikey now in (AList.update uuid clone clones, clone))"

text \<open>The \<^verbatim>\<open>data\<close> argument of \<^verbatim>\<open>updateClone\<close>.\<close>

record clone_data =
  cd_status :: "CloneStatus option"
  cd_updatedAt :: "int option"
  cd_name :: "string option"
  cd_isRunning :: "bool option"
  cd_messengers :: "string list option"
  cd_datasetCount :: "nat option"
  cd_datasetId :: "string option"
  cd_knowledgeCount :: "nat option"
  cd_knowledgeSources :: "KnowledgeSource list option"
  cd_knowledgeFile :: "string option"
  cd_ragIndexDir :: "string option"

definition no_clone_data :: clone_data where
  "no_clone_data =
     \<lparr>cd_status = None, cd_updatedAt = None, cd_name = None, cd_isRunning = None,
      cd_messengers = None, cd_datasetCount = None, cd_datasetId = None,
      cd_knowledgeCount = None, cd_knowledgeSources = None, cd_knowledgeFile = None,
      cd_ragIndexDir = None\<rparr>"

definition apply_clone_data :: "CloneRecord \<Rightarrow> clone_data \<Rightarrow> int \<Rightarrow> CloneRecord" where
  "apply_clone_data clone data now =
     (let c1 = (case cd_status data of Some s \<Rightarrow> clone\<lparr>clone_status := s\<rparr> | None \<Rightarrow> clone);
          c2 = (if truthy (cd_name data) then c1\<lparr>clone_name := the (cd_name data)\<rparr> else c1);
          c3 = (if cd_isRunning data \<noteq> None then c2\<lparr>clone_isRunning := cd_isRunning data\<rparr> else c2);
          c4 = (if cd_messengers data \<noteq> None then c3\<lparr>clone_messengers := cd_messengers data\<rparr> else c3);
          c5 = (if cd_datasetCount data \<noteq> None then c4\<lparr>clone_datasetCount := cd_datasetCount data\<rparr> else c4);
          c6 = (if truthy (cd_datasetId data) then c5\<lparr>clone_datasetId := cd_datasetId data\<rparr> else c5);
          c7 = (if cd_knowledgeCount data \<noteq> None then c6\<lparr>clone_knowledgeCount := cd_knowledgeCount data\<rparr> else c6);
          c8 = (if cd_knowledgeSources data \<noteq> None then c7\<lparr>clone_knowledgeSources := cd_knowledgeSources data\<rparr> else c7);
          c9 = (if cd_knowledgeFile data \<noteq> None then c8\<lparr>clone_knowledgeFile := cd_knowledgeFile data\<rparr> else c8);
          c10 = (if cd_ragIndexDir data \<noteq> None then c9\<lparr>clone_ragIndexDir := cd_ragIndexDir data\<rparr> else c9)
      in c10\<lparr>clone_updatedAt := (case cd_updatedAt data of Some t \<Rightarrow> t | None \<Rightarrow> now)\<rparr>)"

definition updateClone ::
  "clone_map \<Rightarrow> string \<Rightarrow> clone_data \<Rightarrow> int \<Rightarrow> clone_map \<times> CloneRecord option" where
  "updateClone clones key data now =
     (case map_of clones key of
        None \<Rightarrow> (clones, None)
      | Some clone \<Rightarrow>
          (let clone' = apply_clone_data clone data now
           in (AList.update key clone' clones, Some clone')))"

definition listClones :: "clone_map \<Rightarrow> CloneRecord list" where
  "listClones clones = map snd clones"

definition getClone :: "clone_map \<Rightarrow> string \<Rightarrow> CloneRecord option" where
  "getClone clones key = map_of clones key"

section \<open>The integration store (integrationStore.ts)\<close>

datatype IntegrationPlatform = Telegram | Whatsapp | Google | Slack

record IntegrationConfig =
  ic_platform :: IntegrationPlatform
  ic_active :: bool
  ic_token :: "string option"
  ic_updatedAt :: int

record CloneIntegrations =
  ci_cloneId :: string
  ci_integrations :: "IntegrationConfig list"

text \<open>
  The parsed \<^verbatim>\<open>integrations.json\<close>: an object from clone id to its integrations, kept as an
  association list (\<^verbatim>\<open>store[cloneId] = record\<close> is \<^const>\<open>AList.update\<close>).
\<close>

type_synonym integration_store = "(string \<times> CloneIntegrations) list"

definition loadStore :: "CloneIntegrations disk_file \<Rightarrow> integration_store" where
  "loadStore file = (case file of Content parsed \<Rightarrow> parsed | Missing \<Rightarrow> [] | Unreadable \<Rightarrow> [])"

text \<open>The body of \<^verbatim>\<open>getIntegrations\<close> between acquiring and releasing the lock.\<close>

definition getIntegrations_body :: "CloneIntegrations disk_file \<Rightarrow> string \<Rightarrow> IntegrationConfig list" where
  "getIntegrations_body file cloneId =
     (case map_of (loadStore file) cloneId of
        None \<Rightarrow> []
      | Some existing \<Rightarrow> ci_integrations existing)"

record integration_data =
  id_active :: "bool option"
  id_token :: "string option"

text \<open>
  The branch of \<^verbatim>\<open>upsertIntegration\<close> on \<^verbatim>\<open>record.integrations.find(...)\<close>: the first entry
  of the platform is updated in place, and a new entry is pushed when there is none.
\<close>

fun upsert_entry ::
  "IntegrationConfig list \<Rightarrow> IntegrationPlatform \<Rightarrow> integration_data \<Rightarrow> int \<Rightarrow> IntegrationConfig list" where
  "upsert_entry [] platform data now =
     [\<lparr>ic_platform = platform,
       ic_active = (case id_active data of Some a \<Rightarrow> a | None \<Rightarrow> False),
       ic_token = id_token data, ic_updatedAt = now\<rparr>]"
| "upsert_entry (current # rest) platform data now =
     (if ic_platform current = platform
      then (let c1 = (case id_active data of Some a \<Rightarrow> current\<lparr>ic_active := a\<rparr> | None \<Rightarrow> current);
                c2 = (if id_token data \<noteq> None then c1\<lparr>ic_token := id_token data\<rparr> else c1)
            in c2\<lparr>ic_updatedAt := now\<rparr>) # rest
      else current # upsert_entry rest platform data now)"

text \<open>
  The body of \<^verbatim>\<open>upsertIntegration\<close> between acquiring and releasing the lock, on a
  successful write: the new file content and the returned list.
\<close>

definition upsertIntegration_body ::
  "CloneIntegrations disk_file \<Rightarrow> string \<Rightarrow> IntegrationPlatform \<Rightarrow> integration_data \<Rightarrow> int
   \<Rightarrow> CloneIntegrations disk_file \<times> IntegrationConfig list" where
  "upsertIntegration_body file cloneId platform data now =
     (let store = loadStore file;
          record = (case map_of store cloneId of
                      Some r \<Rightarrow> r
                    | None \<Rightarrow> \<lparr>ci_cloneId = cloneId, ci_integrations = []\<rparr>);
          record' = record\<lparr>ci_integrations := upsert_entry (ci_integrations record) platform data now\<rparr>
      in (Content (AList.update cloneId record' store), ci_integrations record'))"

definition setIntegrations_body ::
  "CloneIntegrations disk_file \<Rightarrow> string \<Rightarrow> IntegrationConfig list \<Rightarrow> int
   \<Rightarrow> CloneIntegrations disk_file \<times> IntegrationConfig list" where
  "setIntegrations_body file cloneId integrations now =
     (let store = loadStore file;
          record = \<lparr>ci_cloneId = cloneId,
                    ci_integrations = map (\<lambda>i. i\<lparr>ic_updatedAt := now\<rparr>) integrations\<rparr>
      in (Content (AList.update cloneId record store), ci_integrations record))"

subsection \<open>The lock of the integration store\<close>

text \<open>
  The three exported operations, the two ways an \<^verbatim>\<open>async\<close> operation ends, and where a call
  stands: not made; awaiting \<^verbatim>\<open>mutex.acquire()\<close>; holding the lock before \<^verbatim>\<open>loadStore\<close> has
  answered; holding it with the new file content and the result computed, before
  \<^verbatim>\<open>saveStore\<close> has answered; holding it at the \<^verbatim>\<open>finally\<close>; and returned.
\<close>

datatype operation =
    GetIntegrations string
  | UpsertIntegration string IntegrationPlatform integration_data
  | SetIntegrations string "IntegrationConfig list"

datatype outcome = Returned "IntegrationConfig list" | Threw

datatype phase =
    Idle
  | Waiting
  | Granted
  | Computed "CloneIntegrations disk_file" "IntegrationConfig list"
  | Leaving outcome
  | Finished outcome

text \<open>
  \<^verbatim>\<open>SimpleMutex\<close> (\<open>mx_locked\<close>, \<open>mx_queue\<close>: the queued \<^verbatim>\<open>tryAcquire\<close> closures, each known by
  its call), the calls, the file, and a record of what has happened: the calls in the
  order they asked for the lock and in the order they got it, the time each read after
  loading, the calls past their write with that time, and whether a write has failed.
\<close>

record lock_sys =
  mx_locked :: bool
  mx_queue :: "nat list"
  ls_phase :: "nat \<Rightarrow> phase"
  ls_file :: "CloneIntegrations disk_file"
  ls_arrivals :: "nat list"
  ls_grants :: "nat list"
  ls_time :: "nat \<Rightarrow> int"
  ls_served :: "(nat \<times> int) list"
  ls_failed :: bool

definition ls_init :: "CloneIntegrations disk_file \<Rightarrow> lock_sys" where
  "ls_init file =
     \<lparr>mx_locked = False, mx_queue = [], ls_phase = (\<lambda>t. Idle), ls_file = file,
      ls_arrivals = [], ls_grants = [], ls_time = (\<lambda>t. 0), ls_served = [], ls_failed = False\<rparr>"

text \<open>
  \<^verbatim>\<open>tryAcquire\<close> of call \<open>t\<close>: take the free lock and resolve the promise, or queue.
\<close>

definition tryAcquire :: "lock_sys \<Rightarrow> nat \<Rightarrow> lock_sys" where
  "tryAcquire s t =
     (if \<not> mx_locked s
      then s\<lparr>mx_locked := True, ls_phase := (ls_phase s)(t := Granted),
              ls_grants := ls_grants s @ [t]\<rparr>
      else s\<lparr>mx_queue := mx_queue s @ [t]\<rparr>)"

definition acquire :: "lock_sys \<Rightarrow> nat \<Rightarrow> lock_sys" where
  "acquire s t =
     tryAcquire (s\<lparr>ls_phase := (ls_phase s)(t := Waiting), ls_arrivals := ls_arrivals s @ [t]\<rparr>) t"

definition release :: "lock_sys \<Rightarrow> lock_sys" where
  "release s =
     (let s1 = s\<lparr>mx_locked := False\<rparr>
      in case mx_queue s1 of
           [] \<Rightarrow> s1
         | next # rest \<Rightarrow> tryAcquire (s1\<lparr>mx_queue := rest\<rparr>) next)"

text \<open>
  An operation from \<^verbatim>\<open>loadStore\<close> to the point where it writes or returns: \<open>now\<close> is the
  \<^verbatim>\<open>Date.now()\<close> it reads after loading.
\<close>

fun run_body :: "operation \<Rightarrow> CloneIntegrations disk_file \<Rightarrow> int \<Rightarrow> phase" where
  "run_body (GetIntegrations cloneId) file now =
     Leaving (Returned (getIntegrations_body file cloneId))"
| "run_body (UpsertIntegration cloneId platform data) file now =
     Computed (fst (upsertIntegration_body file cloneId platform data now))
              (snd (upsertIntegration_body file cloneId platform data now))"
| "run_body (SetIntegrations cloneId integrations) file now =
     Computed (fst (setIntegrations_body file cloneId integrations now))
              (snd (setIntegrations_body file cloneId integrations now))"

text \<open>
  What the scheduler can run next: call \<open>t\<close> is made; its \<^verbatim>\<open>loadStore\<close> answers at time
  \<open>now\<close>; its \<^verbatim>\<open>saveStore\<close> succeeds, or throws leaving some content in the file; its
  \<^verbatim>\<open>finally\<close> releases the lock. An event that does not fit where the call stands changes
  nothing.
\<close>

datatype ls_event =
    Call nat
  | Load nat int
  | SaveOk nat
  | SaveFails nat "CloneIntegrations disk_file"
  | Release nat

fun ls_step :: "(nat \<Rightarrow> operation) \<Rightarrow> lock_sys \<Rightarrow> ls_event \<Rightarrow> lock_sys" where
  "ls_step ops s (Call t) = (if ls_phase s t = Idle then acquire s t else s)"
| "ls_step ops s (Load t now) =
     (if ls_phase s t = Granted
      then (case run_body (ops t) (ls_file s) now of
              Leaving out \<Rightarrow>
                s\<lparr>ls_phase := (ls_phase s)(t := Leaving out), ls_time := (ls_time s)(t := now),
                   ls_served := ls_served s @ [(t, now)]\<rparr>
            | ph \<Rightarrow> s\<lparr>ls_phase := (ls_phase s)(t := ph), ls_time := (ls_time s)(t := now)\<rparr>)
      else s)"
| "ls_step ops s (SaveOk t) =
     (case ls_phase s t of
        Computed file result \<Rightarrow>
          s\<lparr>ls_file := file, ls_phase := (ls_phase s)(t := Leaving (Returned result)),
             ls_served := ls_served s @ [(t, ls_time s t)]\<rparr>
      | ph \<Rightarrow> s)"
| "ls_step ops s (SaveFails t broken) =
     (case ls_phase s t of
        Computed file result \<Rightarrow>
          s\<lparr>ls_file := broken, ls_phase := (ls_phase s)(t := Leaving Threw),
             ls_served := ls_served s @ [(t, ls_time s t)], ls_failed := True\<rparr>
      | ph \<Rightarrow> s)"
| "ls_step ops s (Release t) =
     (case ls_phase s t of
        Leaving out \<Rightarrow> release (s\<lparr>ls_phase := (ls_phase s)(t := Finished out)\<rparr>)
      | ph \<Rightarrow> s)"

text \<open>A call is in its critical section, is still computing there, or has returned.\<close>

fun in_cs :: "phase \<Rightarrow> bool" where
  "in_cs Granted = True"
| "in_cs (Computed file result) = True"
| "in_cs (Leaving out) = True"
| "in_cs ph = False"

fun computing :: "phase \<Rightarrow> bool" where
  "computing Granted = True"
| "computing (Computed file result) = True"
| "computing ph = False"

fun finished :: "phase \<Rightarrow> bool" where
  "finished (Finished out) = True"
| "finished ph = False"

text \<open>The effect of an operation on the file when it runs alone at time \<open>now\<close>.\<close>

definition apply_op :: "operation \<Rightarrow> CloneIntegrations disk_file \<Rightarrow> int \<Rightarrow> CloneIntegrations disk_file" where
  "apply_op op file now = (case run_body op file now of Computed file' result \<Rightarrow> file' | ph \<Rightarrow> file)"

definition serial ::
  "(nat \<Rightarrow> operation) \<Rightarrow> CloneIntegrations disk_file \<Rightarrow> (nat \<times> int) list \<Rightarrow> CloneIntegrations disk_file" where
  "serial ops file0 calls = foldl (\<lambda>file (t, now). apply_op (ops t) file now) file0 calls"

text \<open>What holds of every state the scheduler can reach.\<close>

definition lock_inv :: "(nat \<Rightarrow> operation) \<Rightarrow> CloneIntegrations disk_file \<Rightarrow> lock_sys \<Rightarrow> bool" where
  "lock_inv ops file0 s =
     (ls_arrivals s = ls_grants s @ mx_queue s
      \<and> distinct (ls_arrivals s)
      \<and> (\<forall>t. (ls_phase s t = Idle) = (t \<notin> set (ls_arrivals s)))
      \<and> (\<forall>t. (ls_phase s t = Waiting) = (t \<in> set (mx_queue s)))
      \<and> (\<forall>t. in_cs (ls_phase s t) = (mx_locked s \<and> ls_grants s \<noteq> [] \<and> t = last (ls_grants s)))
      \<and> (mx_queue s \<noteq> [] \<longrightarrow> mx_locked s)
      \<and> (mx_locked s \<longrightarrow> ls_grants s \<noteq> [])
      \<and> (\<forall>t file result. ls_phase s t = Computed file result \<longrightarrow>
             run_body (ops t) (ls_file s) (ls_time s t) = Computed file result)
      \<and> map fst (ls_served s) =
          (if mx_locked s \<and> computing (ls_phase s (last (ls_grants s)))
           then butlast (ls_grants s) else ls_grants s)
      \<and> (\<not> ls_failed s \<longrightarrow> ls_file s = serial ops file0 (ls_served s)))"

text \<open>The state after a schedule, from a free lock and a given file.\<close>

definition run_calls ::
  "(nat \<Rightarrow> operation) \<Rightarrow> CloneIntegrations disk_file \<Rightarrow> ls_event list \<Rightarrow> lock_sys" where
  "run_calls ops file0 evs = foldl (ls_step ops) (ls_init file0) evs"

text \<open>
  Two calls of \<^verbatim>\<open>upsertIntegration\<close> for one clone and platform: the first switches the
  integration on, the second sets its token. In the schedule both are made before either
  gets an answer from the file system.
\<close>

definition two_upserts :: "nat \<Rightarrow> operation" where
  "two_upserts t =
     (if t = 0 then UpsertIntegration ''c1'' Telegram \<lparr>id_active = Some True, id_token = None\<rparr>
      else UpsertIntegration ''c1'' Telegram \<lparr>id_active = None, id_token = Some ''tok''\<rparr>)"

definition overlapping_schedule :: "ls_event list" where
  "overlapping_schedule =
     [Call 0, Call 1, Load 0 10, SaveOk 0, Release 0, Load 1 20, SaveOk 1, Release 1]"

section \<open>The worker manager (workerManager.ts)\<close>

text \<open>
  A \<^verbatim>\<open>WorkerRecord\<close>. The \<^verbatim>\<open>ChildProcess\<close> handle is a token that the environment hands
  out at \<^verbatim>\<open>fork\<close>, different for every fork.
\<close>

record WorkerRecord =
  wr_child :: nat
  wr_status :: WorkerStatus
  wr_lastHeartbeat :: int
  wr_pid :: nat

datatype signal = SIGTERM | SIGKILL

record worker_env =
  env_CLONE_ID :: string
  env_MODEL_ID :: string
  env_ADAPTER_DIR :: string
  env_RAG_INDEX_DIR :: string
  env_SYSTEM_PROMPT :: string
  env_INTEGRATIONS :: "IntegrationConfig list"
  env_CLONE_API_URL :: string

text \<open>
  The state the manager reads and writes: its \<^verbatim>\<open>workers\<close> map, the two in-memory stores,
  the integration file, the breadcrumb files under \<^verbatim>\<open>uploads/pids\<close> (clone id to the
  process id written there), the processes the operating system reports alive
  (\<^verbatim>\<open>process.kill(pid, 0)\<close> succeeds), and what the manager has done to the outside:
  the signals sent, the pending three-second escalations of \<^verbatim>\<open>killProcess\<close>, the
  processes forked, and whether the monitoring interval is installed.
\<close>

record manager =
  wm_workers :: "(string \<times> WorkerRecord) list"
  wm_clones :: clone_map
  wm_jobs :: job_map
  wm_integrations :: "CloneIntegrations disk_file"
  wm_pidfiles :: "(string \<times> nat) list"
  wm_alive :: "nat set"
  wm_signals :: "(nat \<times> signal) list"
  wm_kill_timers :: "nat list"
  wm_forked :: "(nat \<times> worker_env) list"
  wm_monitoring :: bool

definition HEARTBEAT_TIMEOUT_MS :: int where
  "HEARTBEAT_TIMEOUT_MS = 20000"

definition savePidFile :: "manager \<Rightarrow> string \<Rightarrow> nat \<Rightarrow> manager" where
  "savePidFile st cloneId pid = st\<lparr>wm_pidfiles := AList.update cloneId pid (wm_pidfiles st)\<rparr>"

definition removePidFile :: "manager \<Rightarrow> string \<Rightarrow> manager" where
  "removePidFile st cloneId = st\<lparr>wm_pidfiles := AList.delete cloneId (wm_pidfiles st)\<rparr>"

definition readPidFile :: "manager \<Rightarrow> string \<Rightarrow> nat option" where
  "readPidFile st cloneId = map_of (wm_pidfiles st) cloneId"

definition isProcessRunning :: "manager \<Rightarrow> nat \<Rightarrow> bool" where
  "isProcessRunning st pid = (pid \<in> wm_alive st)"

text \<open>
  \<^verbatim>\<open>killProcess\<close>: \<^verbatim>\<open>process.kill(pid, "SIGTERM")\<close> throws for a dead process, which the
  function swallows; otherwise the escalation timer is armed.
\<close>

definition killProcess :: "manager \<Rightarrow> nat \<Rightarrow> manager" where
  "killProcess st pid =
     (if pid \<in> wm_alive st
      then st\<lparr>wm_signals := wm_signals st @ [(pid, SIGTERM)],
              wm_kill_timers := wm_kill_timers st @ [pid]\<rparr>
      else st)"

text \<open>The timer body of \<^verbatim>\<open>killProcess\<close>, three seconds later.\<close>

definition kill_timer_fires :: "manager \<Rightarrow> nat \<Rightarrow> manager" where
  "kill_timer_fires st pid =
     (let st' = st\<lparr>wm_kill_timers := remove1 pid (wm_kill_timers st)\<rparr>
      in if isProcessRunning st' pid
         then st'\<lparr>wm_signals := wm_signals st' @ [(pid, SIGKILL)]\<rparr>
         else st')"

text \<open>\<^verbatim>\<open>updateClone\<close> of the clone store, on the manager's state.\<close>

definition wm_updateClone :: "manager \<Rightarrow> string \<Rightarrow> clone_data \<Rightarrow> int \<Rightarrow> manager" where
  "wm_updateClone st cloneId data now =
     st\<lparr>wm_clones := fst (updateClone (wm_clones st) cloneId data now)\<rparr>"

text \<open>
  The interval callback of \<^verbatim>\<open>startHeartbeatMonitoring\<close>: one pass over the \<^verbatim>\<open>workers\<close>
  map. \<open>monitor_loop\<close> takes the entries still to visit and returns them as visited.
\<close>

fun monitor_loop ::
  "(string \<times> WorkerRecord) list \<Rightarrow> clone_map \<Rightarrow> int \<Rightarrow> (string \<times> WorkerRecord) list \<times> clone_map" where
  "monitor_loop [] clones now = ([], clones)"
| "monitor_loop ((cloneId, record) # rest) clones now =
     (if wr_status record = WRunning \<and> now - wr_lastHeartbeat record > HEARTBEAT_TIMEOUT_MS
      then (let (rest', clones') =
                  monitor_loop rest
                    (fst (updateClone clones cloneId
                       (no_clone_data\<lparr>cd_status := Some CFailed, cd_isRunning := Some False\<rparr>) now))
                    now
            in ((cloneId, record\<lparr>wr_status := WError\<rparr>) # rest', clones'))
      else (let (rest', clones') = monitor_loop rest clones now
            in ((cloneId, record) # rest', clones')))"

text \<open>The monitor's mark on a clone: stored, failed and not running.\<close>

definition marked_failed :: "clone_map \<Rightarrow> string \<Rightarrow> bool" where
  "marked_failed cl k =
     (case map_of cl k of None \<Rightarrow> False
      | Some c \<Rightarrow> clone_status c = CFailed \<and> clone_isRunning c = Some False)"

definition monitor_tick :: "manager \<Rightarrow> int \<Rightarrow> manager" where
  "monitor_tick st now =
     (let (workers', clones') = monitor_loop (wm_workers st) (wm_clones st) now
      in st\<lparr>wm_workers := workers', wm_clones := clones'\<rparr>)"

definition startHeartbeatMonitoring :: "manager \<Rightarrow> manager" where
  "startHeartbeatMonitoring st = (if wm_monitoring st then st else st\<lparr>wm_monitoring := True\<rparr>)"

text \<open>
  \<^verbatim>\<open>startCloneWorker\<close> is an \<^verbatim>\<open>async\<close> function with two awaits: the one-second wait after it
  has killed an orphan of the clone, and \<^verbatim>\<open>await getIntegrations(cloneId)\<close>. While a call
  stands at an await the process runs its other handlers, other calls of
  \<^verbatim>\<open>startCloneWorker\<close> among them. The function is therefore given in the three parts that
  run without interruption.

  \<open>start_guard\<close>, from the call to the orphan check: \<open>Inl error\<close> is the rejection, \<open>Inr True\<close>
  says that an orphan was killed and the call now waits, \<open>Inr False\<close> that it goes on at
  once.
\<close>

definition start_guard :: "manager \<Rightarrow> string \<Rightarrow> (string + bool) \<times> manager" where
  "start_guard st cloneId =
     (if map_of (wm_workers st) cloneId \<noteq> None
      then (Inl ''Worker already running'', st)
      else case readPidFile st cloneId of
             None \<Rightarrow> (Inr False, st)
           | Some existingPid \<Rightarrow>
               if existingPid \<noteq> 0 \<and> isProcessRunning st existingPid
               then (Inr True, removePidFile (killProcess st existingPid) cloneId)
               else (Inr False, st))"

text \<open>
  \<open>start_lookup\<close>, from \<^verbatim>\<open>getClone\<close> to the call of \<^verbatim>\<open>getIntegrations\<close>: the rejection, or the
  clone and the job that the call holds in its local variables while it awaits.
\<close>

definition start_lookup :: "manager \<Rightarrow> string \<Rightarrow> string + (CloneRecord \<times> TrainingJob option)" where
  "start_lookup st cloneId =
     (case getClone (wm_clones st) cloneId of
        None \<Rightarrow> Inl ''Clone not found''
      | Some clone \<Rightarrow> Inr (clone, getJob (wm_jobs st) (clone_jobId clone)))"

text \<open>
  \<open>start_spawn\<close>, from \<^verbatim>\<open>fork\<close> to the return of \<^verbatim>\<open>{ ok: true, pid }\<close>, on the state in which
  \<^verbatim>\<open>getIntegrations\<close> has answered. \<open>child\<close> and \<open>pid\<close> are what \<^verbatim>\<open>fork\<close> returns and \<open>api_url\<close>
  is \<^verbatim>\<open>process.env.CLONE_API_URL\<close>. \<^verbatim>\<open>workers.set\<close> does not look at what the map holds.
\<close>

definition start_spawn ::
  "manager \<Rightarrow> string \<Rightarrow> CloneRecord \<Rightarrow> TrainingJob option \<Rightarrow> IntegrationConfig list
   \<Rightarrow> int \<Rightarrow> nat \<Rightarrow> nat \<Rightarrow> string option \<Rightarrow> manager" where
  "start_spawn st cloneId clone job integrations now child pid api_url =
     (let env = \<lparr>env_CLONE_ID = cloneId,
                 env_MODEL_ID = clone_modelId clone,
                 env_ADAPTER_DIR =
                   (case job of None \<Rightarrow> [] | Some j \<Rightarrow> or_else (job_adapterDir j) []),
                 env_RAG_INDEX_DIR =
                   (case job of None \<Rightarrow> [] | Some j \<Rightarrow> or_else (job_ragIndexDir j) []),
                 env_SYSTEM_PROMPT =
                   (case job of None \<Rightarrow> [] | Some j \<Rightarrow> job_systemPrompt j),
                 env_INTEGRATIONS = integrations,
                 env_CLONE_API_URL = or_else api_url ''http://localhost:3000''\<rparr>;
          st2 = st\<lparr>wm_forked := wm_forked st @ [(pid, env)]\<rparr>;
          st3 = savePidFile st2 cloneId pid;
          record = \<lparr>wr_child = child, wr_status = WStarting,
                    wr_lastHeartbeat = now, wr_pid = pid\<rparr>;
          st4 = st3\<lparr>wm_workers := AList.update cloneId record (wm_workers st3)\<rparr>;
          st5 = wm_updateClone st4 cloneId
                  (no_clone_data\<lparr>cd_isRunning := Some True, cd_status := Some CReady\<rparr>) now
      in startHeartbeatMonitoring st5)"

text \<open>
  \<^verbatim>\<open>startCloneWorker\<close> when nothing else runs during its awaits: the three parts one after
  the other. The result is \<open>Inl error\<close> for \<^verbatim>\<open>{ ok: false, error }\<close> and \<open>Inr pid\<close> for
  \<^verbatim>\<open>{ ok: true, pid }\<close>.
\<close>

definition startCloneWorker ::
  "manager \<Rightarrow> string \<Rightarrow> int \<Rightarrow> nat \<Rightarrow> nat \<Rightarrow> string option \<Rightarrow> (string + nat) \<times> manager" where
  "startCloneWorker st cloneId now child pid api_url =
     (case start_guard st cloneId of
        (Inl e, st1) \<Rightarrow> (Inl e, st1)
      | (Inr waited, st1) \<Rightarrow>
          (case start_lookup st1 cloneId of
             Inl e \<Rightarrow> (Inl e, st1)
           | Inr (clone, job) \<Rightarrow>
               (Inr pid,
                start_spawn st1 cloneId clone job
                  (getIntegrations_body (wm_integrations st1) cloneId) now child pid api_url)))"

text \<open>
  The handlers that \<^verbatim>\<open>startCloneWorker\<close> installs on the child. Each closes over the
  \<^verbatim>\<open>record\<close> object and the \<^verbatim>\<open>cloneId\<close> of its own start. The object is the one in the map
  exactly when the map's entry for \<^verbatim>\<open>cloneId\<close> holds the same child; a write to a record
  that has left the map is not visible to the manager.
\<close>

datatype worker_msg = MsgHeartbeat | MsgReady | MsgError | MsgOther

definition write_record ::
  "manager \<Rightarrow> nat \<Rightarrow> string \<Rightarrow> (WorkerRecord \<Rightarrow> WorkerRecord) \<Rightarrow> manager" where
  "write_record st child cloneId f =
     (case map_of (wm_workers st) cloneId of
        None \<Rightarrow> st
      | Some record \<Rightarrow>
          if wr_child record = child
          then st\<lparr>wm_workers := AList.update cloneId (f record) (wm_workers st)\<rparr>
          else st)"

definition on_message :: "manager \<Rightarrow> nat \<Rightarrow> string \<Rightarrow> worker_msg \<Rightarrow> int \<Rightarrow> manager" where
  "on_message st child cloneId msg now =
     (let st1 = (if msg = MsgHeartbeat
                 then write_record st child cloneId
                        (\<lambda>r. r\<lparr>wr_status := WRunning, wr_lastHeartbeat := now\<rparr>)
                 else st);
          st2 = (if msg = MsgReady
                 then write_record st1 child cloneId (\<lambda>r. r\<lparr>wr_status := WRunning\<rparr>)
                 else st1)
      in if msg = MsgError
         then wm_updateClone (write_record st2 child cloneId (\<lambda>r. r\<lparr>wr_status := WError\<rparr>)) cloneId
                (no_clone_data\<lparr>cd_status := Some CFailed, cd_isRunning := Some False\<rparr>) now
         else st2)"

definition on_exit :: "manager \<Rightarrow> string \<Rightarrow> int \<Rightarrow> manager" where
  "on_exit st cloneId now =
     (let st1 = st\<lparr>wm_workers := AList.delete cloneId (wm_workers st)\<rparr>;
          st2 = removePidFile st1 cloneId
      in wm_updateClone st2 cloneId (no_clone_data\<lparr>cd_isRunning := Some False\<rparr>) now)"

definition on_error :: "manager \<Rightarrow> nat \<Rightarrow> string \<Rightarrow> int \<Rightarrow> manager" where
  "on_error st child cloneId now =
     wm_updateClone (write_record st child cloneId (\<lambda>r. r\<lparr>wr_status := WError\<rparr>)) cloneId
       (no_clone_data\<lparr>cd_status := Some CFailed, cd_isRunning := Some False\<rparr>) now"

text \<open>
  \<^verbatim>\<open>stopCloneWorker\<close>: \<open>Inr wasOrphaned\<close> for \<^verbatim>\<open>{ ok: true }\<close>, \<open>Inl error\<close> otherwise.
  \<^verbatim>\<open>rec.child.kill("SIGTERM")\<close> is recorded as a signal to the record's process.
\<close>

definition stopCloneWorker :: "manager \<Rightarrow> string \<Rightarrow> int \<Rightarrow> (string + bool) \<times> manager" where
  "stopCloneWorker st cloneId now =
     (case map_of (wm_workers st) cloneId of
        None \<Rightarrow>
          (case readPidFile st cloneId of
             None \<Rightarrow> (Inl ''Worker not running'', st)
           | Some pid \<Rightarrow>
               if pid \<noteq> 0 \<and> isProcessRunning st pid
               then (Inr True,
                     wm_updateClone (removePidFile (killProcess st pid) cloneId) cloneId
                       (no_clone_data\<lparr>cd_isRunning := Some False\<rparr>) now)
               else (Inl ''Worker not running'', st))
      | Some rec \<Rightarrow>
          (let st1 = st\<lparr>wm_signals := wm_signals st @ [(wr_pid rec, SIGTERM)]\<rparr>;
               st2 = st1\<lparr>wm_workers := AList.delete cloneId (wm_workers st1)\<rparr>;
               st3 = removePidFile st2 cloneId
           in (Inr False,
               wm_updateClone st3 cloneId (no_clone_data\<lparr>cd_isRunning := Some False\<rparr>) now)))"

text \<open>
  The handlers that run to their end without an await, as one event type: a stop request,
  a message, the exit or an error of a child, a tick of the monitor, and the escalation
  timer of \<^verbatim>\<open>killProcess\<close>.
\<close>

datatype wm_event =
    Stop string int
  | Message nat string worker_msg int
  | Exit string int
  | ChildError nat string int
  | Tick int
  | KillTimer nat

fun wm_step :: "manager \<Rightarrow> wm_event \<Rightarrow> manager" where
  "wm_step st (Stop cloneId now) = snd (stopCloneWorker st cloneId now)"
| "wm_step st (Message child cloneId msg now) = on_message st child cloneId msg now"
| "wm_step st (Exit cloneId now) = on_exit st cloneId now"
| "wm_step st (ChildError child cloneId now) = on_error st child cloneId now"
| "wm_step st (Tick now) = monitor_tick st now"
| "wm_step st (KillTimer pid) = kill_timer_fires st pid"

subsection \<open>Calls of startCloneWorker that overlap\<close>

text \<open>
  Where a call of \<^verbatim>\<open>startCloneWorker\<close> stands: not made; waiting the second after the orphan
  was killed; awaiting \<^verbatim>\<open>getIntegrations\<close>, with the clone id, clone and job that it holds;
  returned, with its result. The server is the manager together with the calls, each
  known by the number of its request.
\<close>

datatype start_phase =
    NotCalled
  | Cleaning string
  | Loading string CloneRecord "TrainingJob option"
  | Replied "string + nat"

record server =
  sv_manager :: manager
  sv_phase :: "nat \<Rightarrow> start_phase"

definition sv_init :: "manager \<Rightarrow> server" where
  "sv_init st = \<lparr>sv_manager = st, sv_phase = (\<lambda>r. NotCalled)\<rparr>"

text \<open>Call \<open>r\<close> runs \<^const>\<open>start_lookup\<close> and returns or goes on to await.\<close>

definition start_look :: "server \<Rightarrow> nat \<Rightarrow> string \<Rightarrow> server" where
  "start_look s r cloneId =
     (case start_lookup (sv_manager s) cloneId of
        Inl e \<Rightarrow> s\<lparr>sv_phase := (sv_phase s)(r := Replied (Inl e))\<rparr>
      | Inr (clone, job) \<Rightarrow> s\<lparr>sv_phase := (sv_phase s)(r := Loading cloneId clone job)\<rparr>)"

text \<open>
  What the event loop can run next: request \<open>r\<close> calls \<^verbatim>\<open>startCloneWorker(cloneId)\<close>; the
  one-second wait of call \<open>r\<close> ends; \<^verbatim>\<open>getIntegrations\<close> answers call \<open>r\<close>, which then forks
  (with the clock and what \<^verbatim>\<open>fork\<close> returns); or one of the handlers above runs. The manager
  does not write the integration file, so the answer of \<^verbatim>\<open>getIntegrations\<close> is what the file
  holds. An event that does not fit where the call stands changes nothing.
\<close>

datatype sv_event =
    StartCalled nat string
  | CleanupWaited nat
  | IntegrationsRead nat int nat nat "string option"
  | Handler wm_event

fun sv_step :: "server \<Rightarrow> sv_event \<Rightarrow> server" where
  "sv_step s (StartCalled r cloneId) =
     (if sv_phase s r \<noteq> NotCalled then s
      else case start_guard (sv_manager s) cloneId of
             (Inl e, st1) \<Rightarrow>
               s\<lparr>sv_manager := st1, sv_phase := (sv_phase s)(r := Replied (Inl e))\<rparr>
           | (Inr waited, st1) \<Rightarrow>
               if waited
               then s\<lparr>sv_manager := st1, sv_phase := (sv_phase s)(r := Cleaning cloneId)\<rparr>
               else start_look (s\<lparr>sv_manager := st1\<rparr>) r cloneId)"
| "sv_step s (CleanupWaited r) =
     (case sv_phase s r of
        Cleaning cloneId \<Rightarrow> start_look s r cloneId
      | ph \<Rightarrow> s)"
| "sv_step s (IntegrationsRead r now child pid api_url) =
     (case sv_phase s r of
        Loading cloneId clone job \<Rightarrow>
          s\<lparr>sv_manager :=
               start_spawn (sv_manager s) cloneId clone job
                 (getIntegrations_body (wm_integrations (sv_manager s)) cloneId)
                 now child pid api_url,
             sv_phase := (sv_phase s)(r := Replied (Inr pid))\<rparr>
      | ph \<Rightarrow> s)"
| "sv_step s (Handler ev) = s\<lparr>sv_manager := wm_step (sv_manager s) ev\<rparr>"

definition sv_run :: "manager \<Rightarrow> sv_event list \<Rightarrow> server" where
  "sv_run st evs = foldl sv_step (sv_init st) evs"

section \<open>The Supabase repositories (repositories/jobRepository.ts, cloneRepository.ts)\<close>

text \<open>
  The two tables, one row per primary key. A query that matches no row makes \<^verbatim>\<open>.single()\<close>
  report an error, on which the repository functions return \<^verbatim>\<open>null\<close> and write nothing. The
  database generates the key of an inserted row; the model takes it as an argument and
  lets the insert fail on a key that exists. Columns that an insert leaves out take the
  table's default, modelled as \<^verbatim>\<open>null\<close>, zero or the empty list. Other failures of the
  service are outside the model.
\<close>

record SupabaseJob =
  sj_id :: string
  sj_user_id :: string
  sj_model_id :: string
  sj_dataset_path :: string
  sj_system_prompt :: string
  sj_persona :: "string option"
  sj_clone_id :: "string option"
  sj_clone_name :: "string option"
  sj_adapter_dir :: "string option"
  sj_processed_dir :: "string option"
  sj_knowledge_file :: "string option"
  sj_rag_index_dir :: "string option"
  sj_knowledge_count :: nat
  sj_knowledge_sources :: "KnowledgeSource list option"
  sj_status :: JobStatus
  sj_logs :: "string list"
  sj_error :: "string option"
  sj_created_at :: int
  sj_updated_at :: int

record SupabaseClone =
  sc_id :: string
  sc_user_id :: string
  sc_name :: string
  sc_model_id :: string
  sc_job_id :: "string option"
  sc_status :: CloneStatus
  sc_dataset_count :: nat
  sc_dataset_id :: "string option"
  sc_messengers :: "string list option"
  sc_api_key :: "string option"
  sc_is_running :: bool
  sc_started_at :: "int option"
  sc_created_at :: int
  sc_updated_at :: int
  sc_knowledge_count :: nat
  sc_knowledge_sources :: "KnowledgeSource list option"
  sc_knowledge_file :: "string option"
  sc_rag_index_dir :: "string option"

record database =
  training_jobs :: "string \<rightharpoonup> SupabaseJob"
  clones_table :: "string \<rightharpoonup> SupabaseClone"

definition mapToJobRecord :: "SupabaseJob \<Rightarrow> TrainingJob" where
  "mapToJobRecord row =
     \<lparr>job_id = sj_id row, job_modelId = sj_model_id row, job_datasetPath = sj_dataset_path row,
      job_systemPrompt = sj_system_prompt row, job_persona = or_undefined (sj_persona row),
      job_cloneId = or_undefined (sj_clone_id row),
      job_cloneName = or_undefined (sj_clone_name row),
      job_adapterDir = or_undefined (sj_adapter_dir row),
      job_processedDir = or_undefined (sj_processed_dir row),
      job_knowledgeFile = or_undefined (sj_knowledge_file row),
      job_ragIndexDir = or_undefined (sj_rag_index_dir row),
      job_knowledgeCount = Some (sj_knowledge_count row),
      job_knowledgeSources = sj_knowledge_sources row,
      job_createdAt = sj_created_at row, job_updatedAt = sj_updated_at row,
      job_status = sj_status row, job_logs = sj_logs row,
      job_error = or_undefined (sj_error row)\<rparr>"

text \<open>\<^verbatim>\<open>getJob\<close> of the job repository.\<close>

definition getJob_repo :: "database \<Rightarrow> string \<Rightarrow> TrainingJob option" where
  "getJob_repo db key = map_option mapToJobRecord (training_jobs db key)"

text \<open>
  \<^verbatim>\<open>createJobRepo\<close>, with the row \<^verbatim>\<open>newJob\<close> that it inserts. \<open>user\<close> is the session's user,
  \<open>new_key\<close> the key the database gives the row. \<open>Inl\<close> is the thrown
  \<^verbatim>\<open>Error("Unauthorized")\<close>; \<open>Inr None\<close> is the \<^verbatim>\<open>null\<close> of a failed insert.
\<close>

definition newJob :: "string \<Rightarrow> job_params \<Rightarrow> string \<Rightarrow> int \<Rightarrow> SupabaseJob" where
  "newJob uid params new_key now =
     \<lparr>sj_id = new_key, sj_user_id = uid, sj_model_id = jp_modelId params,
      sj_dataset_path = jp_datasetPath params,
      sj_system_prompt = jp_systemPrompt params,
      sj_persona = or_undefined (jp_persona params),
      sj_clone_id = or_undefined (jp_cloneId params),
      sj_clone_name = or_undefined (jp_cloneName params),
      sj_adapter_dir = or_undefined (jp_adapterDir params),
      sj_processed_dir = None, sj_knowledge_file = None, sj_rag_index_dir = None,
      sj_knowledge_count = 0, sj_knowledge_sources = None,
      sj_status = JQueued, sj_logs = [], sj_error = None,
      sj_created_at = now, sj_updated_at = now\<rparr>"

definition createJobRepo ::
  "database \<Rightarrow> string option \<Rightarrow> job_params \<Rightarrow> string \<Rightarrow> int
   \<Rightarrow> string + (database \<times> TrainingJob option)" where
  "createJobRepo db user params new_key now =
     (case user of
        None \<Rightarrow> Inl ''Unauthorized''
      | Some uid \<Rightarrow>
          if training_jobs db new_key \<noteq> None then Inr (db, None)
          else Inr (db\<lparr>training_jobs := (training_jobs db)(new_key \<mapsto> newJob uid params new_key now)\<rparr>,
                    Some (mapToJobRecord (newJob uid params new_key now))))"

text \<open>
  The \<^verbatim>\<open>updates: Partial<TrainingJob>\<close> of \<^verbatim>\<open>updateJobRepo\<close>: the fields of \<^typ>\<open>job_data\<close>,
  and the two further fields that a caller passes.
\<close>

record job_updates = job_data +
  ju_cloneId :: "string option"
  ju_cloneName :: "string option"

definition no_job_updates :: job_updates where
  "no_job_updates =
     \<lparr>jd_status = None, jd_logs = None, jd_error = None, jd_updatedAt = None,
      jd_adapterDir = None, jd_processedDir = None, jd_knowledgeFile = None,
      jd_ragIndexDir = None, jd_knowledgeCount = None, jd_knowledgeSources = None,
      ju_cloneId = None, ju_cloneName = None\<rparr>"

text \<open>The \<^verbatim>\<open>mappedUpdates\<close> object of \<^verbatim>\<open>updateJobRepo\<close>, applied to the matching row.\<close>

definition mapped_job_updates :: "SupabaseJob \<Rightarrow> job_updates \<Rightarrow> int \<Rightarrow> SupabaseJob" where
  "mapped_job_updates row updates now =
     (let r0 = row\<lparr>sj_updated_at := now\<rparr>;
          r1 = (case jd_status updates of Some s \<Rightarrow> r0\<lparr>sj_status := s\<rparr> | None \<Rightarrow> r0);
          r2 = (case jd_logs updates of Some l \<Rightarrow> r1\<lparr>sj_logs := l\<rparr> | None \<Rightarrow> r1);
          r3 = (if truthy (jd_error updates) then r2\<lparr>sj_error := jd_error updates\<rparr> else r2);
          r4 = (if truthy (jd_adapterDir updates) then r3\<lparr>sj_adapter_dir := jd_adapterDir updates\<rparr> else r3);
          r5 = (if truthy (jd_processedDir updates) then r4\<lparr>sj_processed_dir := jd_processedDir updates\<rparr> else r4);
          r6 = (if truthy (jd_knowledgeFile updates) then r5\<lparr>sj_knowledge_file := jd_knowledgeFile updates\<rparr> else r5);
          r7 = (if truthy (jd_ragIndexDir updates) then r6\<lparr>sj_rag_index_dir := jd_ragIndexDir updates\<rparr> else r6);
          r8 = (case jd_knowledgeCount updates of Some n \<Rightarrow> r7\<lparr>sj_knowledge_count := n\<rparr> | None \<Rightarrow> r7)
      in (if jd_knowledgeSources updates \<noteq> None
          then r8\<lparr>sj_knowledge_sources := jd_knowledgeSources updates\<rparr> else r8))"

definition updateJobRepo ::
  "database \<Rightarrow> string \<Rightarrow> job_updates \<Rightarrow> int \<Rightarrow> database \<times> TrainingJob option" where
  "updateJobRepo db key updates now =
     (case training_jobs db key of
        None \<Rightarrow> (db, None)
      | Some row \<Rightarrow>
          (let row' = mapped_job_updates row updates now
           in (db\<lparr>training_jobs := (training_jobs db)(key \<mapsto> row')\<rparr>,
               Some (mapToJobRecord row'))))"

text \<open>
  \<^verbatim>\<open>appendLogRepo\<close> sends two requests: a select of the job's \<^verbatim>\<open>logs\<close>, after which it returns
  if there is no such job, and an update that writes the selected logs with the line
  appended. \<open>appendLogRepo\<close> itself is the call when the database serves nothing else
  between the two.
\<close>

definition select_logs :: "database \<Rightarrow> string \<Rightarrow> string list option" where
  "select_logs db key = map_option sj_logs (training_jobs db key)"

definition update_logs :: "database \<Rightarrow> string \<Rightarrow> string list \<Rightarrow> int \<Rightarrow> database" where
  "update_logs db key newLogs now =
     (case training_jobs db key of
        None \<Rightarrow> db
      | Some job \<Rightarrow>
          db\<lparr>training_jobs :=
               (training_jobs db)(key \<mapsto> job\<lparr>sj_logs := newLogs, sj_updated_at := now\<rparr>)\<rparr>)"

definition appendLogRepo :: "database \<Rightarrow> string \<Rightarrow> string \<Rightarrow> int \<Rightarrow> database" where
  "appendLogRepo db key line now =
     (case select_logs db key of
        None \<Rightarrow> db
      | Some logs \<Rightarrow> update_logs db key (logs @ [line]) now)"

definition mapToCloneRecord :: "SupabaseClone \<Rightarrow> CloneRecord" where
  "mapToCloneRecord row =
     \<lparr>clone_id = sc_id row, clone_name = sc_name row, clone_modelId = sc_model_id row,
      clone_jobId = or_else (sc_job_id row) [], clone_status = sc_status row,
      clone_datasetCount = Some (sc_dataset_count row),
      clone_datasetId = or_undefined (sc_dataset_id row),
      clone_messengers = Some (case sc_messengers row of Some m \<Rightarrow> m | None \<Rightarrow> []),
      clone_apiKey = or_undefined (sc_api_key row),
      clone_isRunning = Some (sc_is_running row),
      clone_startedAt = (case sc_started_at row of
                           Some t \<Rightarrow> if t = 0 then None else Some t | None \<Rightarrow> None),
      clone_createdAt = sc_created_at row, clone_updatedAt = sc_updated_at row,
      clone_knowledgeCount = Some (sc_knowledge_count row),
      clone_knowledgeSources = sc_knowledge_sources row,
      clone_knowledgeFile = or_undefined (sc_knowledge_file row),
      clone_ragIndexDir = or_undefined (sc_rag_index_dir row)\<rparr>"

definition getClone_repo :: "database \<Rightarrow> string \<Rightarrow> CloneRecord option" where
  "getClone_repo db key = map_option mapToCloneRecord (clones_table db key)"

text \<open>
  \<^verbatim>\<open>createCloneRepo\<close>; its parameter object has the first seven fields of \<^typ>\<open>clone_params\<close>.
\<close>

definition newClone ::
  "string \<Rightarrow> clone_params \<Rightarrow> string \<Rightarrow> string \<Rightarrow> int \<Rightarrow> SupabaseClone" where
  "newClone uid params new_key apikey now =
     \<lparr>sc_id = new_key, sc_user_id = uid, sc_name = cp_name params,
      sc_model_id = cp_modelId params, sc_job_id = Some (cp_jobId params),
      sc_status = (case cp_status params of Some s \<Rightarrow> s | None \<Rightarrow> CTraining),
      sc_dataset_count = (case cp_datasetCount params of Some n \<Rightarrow> n | None \<Rightarrow> 0),
      sc_dataset_id = or_undefined (cp_datasetId params),
      sc_messengers = None, sc_api_key = Some apikey, sc_is_running = False,
      sc_started_at = Some (case cp_startedAt params of
                              Some t \<Rightarrow> if t = 0 then now else t | None \<Rightarrow> now),
      sc_created_at = now, sc_updated_at = now, sc_knowledge_count = 0,
      sc_knowledge_sources = None, sc_knowledge_file = None,
      sc_rag_index_dir = None\<rparr>"

definition createCloneRepo ::
  "database \<Rightarrow> string option \<Rightarrow> clone_params \<Rightarrow> string \<Rightarrow> string \<Rightarrow> int
   \<Rightarrow> string + (database \<times> CloneRecord option)" where
  "createCloneRepo db user params new_key apikey now =
     (case user of
        None \<Rightarrow> Inl ''Unauthorized''
      | Some uid \<Rightarrow>
          if clones_table db new_key \<noteq> None then Inr (db, None)
          else Inr (db\<lparr>clones_table :=
                          (clones_table db)(new_key \<mapsto> newClone uid params new_key apikey now)\<rparr>,
                    Some (mapToCloneRecord (newClone uid params new_key apikey now))))"

text \<open>
  The \<^verbatim>\<open>mappedUpdates\<close> object of \<^verbatim>\<open>updateCloneRepo\<close>; its \<^verbatim>\<open>updates: Partial<CloneRecord>\<close> is
  read at the fields of \<^typ>\<open>clone_data\<close>.
\<close>

definition mapped_clone_updates :: "SupabaseClone \<Rightarrow> clone_data \<Rightarrow> int \<Rightarrow> SupabaseClone" where
  "mapped_clone_updates row updates now =
     (let r0 = row\<lparr>sc_updated_at := now\<rparr>;
          r1 = (case cd_status updates of Some s \<Rightarrow> r0\<lparr>sc_status := s\<rparr> | None \<Rightarrow> r0);
          r2 = (if truthy (cd_name updates) then r1\<lparr>sc_name := the (cd_name updates)\<rparr> else r1);
          r3 = (case cd_isRunning updates of Some b \<Rightarrow> r2\<lparr>sc_is_running := b\<rparr> | None \<Rightarrow> r2);
          r4 = (if cd_messengers updates \<noteq> None then r3\<lparr>sc_messengers := cd_messengers updates\<rparr> else r3);
          r5 = (case cd_datasetCount updates of Some n \<Rightarrow> r4\<lparr>sc_dataset_count := n\<rparr> | None \<Rightarrow> r4);
          r6 = (if truthy (cd_datasetId updates) then r5\<lparr>sc_dataset_id := cd_datasetId updates\<rparr> else r5);
          r7 = (case cd_knowledgeCount updates of Some n \<Rightarrow> r6\<lparr>sc_knowledge_count := n\<rparr> | None \<Rightarrow> r6);
          r8 = (if cd_knowledgeSources updates \<noteq> None
                then r7\<lparr>sc_knowledge_sources := cd_knowledgeSources updates\<rparr> else r7);
          r9 = (if truthy (cd_knowledgeFile updates)
                then r8\<lparr>sc_knowledge_file := cd_knowledgeFile updates\<rparr> else r8)
      in (if truthy (cd_ragIndexDir updates)
          then r9\<lparr>sc_rag_index_dir := cd_ragIndexDir updates\<rparr> else r9))"

definition updateCloneRepo ::
  "database \<Rightarrow> string \<Rightarrow> clone_data \<Rightarrow> int \<Rightarrow> database \<times> CloneRecord option" where
  "updateCloneRepo db key updates now =
     (case clones_table db key of
        None \<Rightarrow> (db, None)
      | Some row \<Rightarrow>
          (let row' = mapped_clone_updates row updates now
           in (db\<lparr>clones_table := (clones_table db)(key \<mapsto> row')\<rparr>,
               Some (mapToCloneRecord row'))))"

text \<open>
  \<^verbatim>\<open>listJobs\<close> and \<^verbatim>\<open>listClones\<close> of the repositories, which the routes call:
  \<^verbatim>\<open>select("*").order("created_at", { ascending: false })\<close>, each row mapped to a record.
  \<open>rows\<close> is what the table holds for the session's user, in the order the database keeps
  it; rows of one \<^verbatim>\<open>created_at\<close>, whose order the query leaves open, come out in that order.
\<close>

definition listJobs_repo :: "SupabaseJob list \<Rightarrow> TrainingJob list" where
  "listJobs_repo rows = map mapToJobRecord (sort_key (\<lambda>r. - sj_created_at r) rows)"

definition listClones_repo :: "SupabaseClone list \<Rightarrow> CloneRecord list" where
  "listClones_repo rows = map mapToCloneRecord (sort_key (\<lambda>r. - sc_created_at r) rows)"

section \<open>The training route (app/api/training/route.ts)\<close>

text \<open>
  What the route meets outside the process. An external stage is known by what it writes
  to its output streams and by its exit code (\<open>None\<close> is the \<^verbatim>\<open>null\<close> code of a process that
  a signal ended) and by how long it runs. The knowledge file, when it can be read, is a
  list of non-empty lines, each of which is skipped or yields a \<^verbatim>\<open>source\<close> field that is a
  string or is falsy.
\<close>

record stage_run =
  sr_output :: "string list"
  sr_code :: "int option"
  sr_duration :: int

datatype knowledge_line = BadJson | Entry "string option"

record world =
  w_process :: "string \<Rightarrow> stage_run"
  w_knowledge_file :: "knowledge_line list option"
  w_read_error :: string
  w_file_size :: "string \<Rightarrow> nat option"
  w_dataset_exists :: "string \<Rightarrow> bool"
  w_dataset_files :: "string \<Rightarrow> nat"
  w_enable_real_training :: bool
  w_new_job_id :: string
  w_new_clone_id :: string
  w_new_api_key :: string
  w_REPO_ROOT :: string
  w_DATASETS_DIR :: string
  w_OUTPUTS_DIR :: string

text \<open>
  The state a request runs on: the database, the clock that \<^verbatim>\<open>Date.now()\<close> reads, the
  processes spawned so far (label, then command and arguments), and the successive
  contents of the database, one entry per write, kept to state properties of the order of
  writes.

  The handlers of a stage's output call \<^verbatim>\<open>appendLogRepo\<close> and do not await it, so that the
  two requests of such a call reach the database while the pipeline goes on and while
  other such calls are under way. \<open>ps_inflight\<close> holds the calls that have not finished:
  \<open>Reading jobId line\<close> before the select has been answered, \<open>Writing jobId newLogs now\<close>
  after it, with the log to write and the \<^verbatim>\<open>Date.now()\<close> of the update. The order in which
  the database answers is the environment's: \<open>ps_answers k n\<close> lists, for the \<open>k\<close>-th await
  of the orchestrator with \<open>n\<close> calls in flight, the positions in \<open>ps_inflight\<close> of the calls
  whose pending request is answered during that await, one after the other; \<open>ps_awaits\<close>
  counts the awaits passed.
\<close>

datatype log_request = Reading string string | Writing string "string list" int

record pstate =
  ps_db :: database
  ps_now :: int
  ps_spawned :: "(string \<times> string list) list"
  ps_history :: "database list"
  ps_inflight :: "log_request list"
  ps_answers :: "nat \<Rightarrow> nat \<Rightarrow> nat list"
  ps_awaits :: nat

definition commit :: "pstate \<Rightarrow> database \<Rightarrow> pstate" where
  "commit st db = st\<lparr>ps_db := db, ps_history := ps_history st @ [db]\<rparr>"

text \<open>
  The database answers the pending request of the call at position \<open>i\<close>: a select finds the
  job's logs, or no job, on which the call returns; an update is written, and the call has
  finished.
\<close>

definition answer :: "pstate \<Rightarrow> nat \<Rightarrow> pstate" where
  "answer st i =
     (if i < length (ps_inflight st)
      then (case ps_inflight st ! i of
              Reading key line \<Rightarrow>
                (case select_logs (ps_db st) key of
                   None \<Rightarrow>
                     st\<lparr>ps_inflight := take i (ps_inflight st) @ drop (Suc i) (ps_inflight st)\<rparr>
                 | Some logs \<Rightarrow>
                     st\<lparr>ps_inflight :=
                          (ps_inflight st)[i := Writing key (logs @ [line]) (ps_now st)]\<rparr>)
            | Writing key newLogs now \<Rightarrow>
                commit
                  (st\<lparr>ps_inflight := take i (ps_inflight st) @ drop (Suc i) (ps_inflight st)\<rparr>)
                  (update_logs (ps_db st) key newLogs now))
      else st)"

text \<open>One await of the orchestrator: the answers that the database gives during it.\<close>

definition settle :: "pstate \<Rightarrow> pstate" where
  "settle st =
     foldl answer (st\<lparr>ps_awaits := ps_awaits st + 1\<rparr>)
       (ps_answers st (ps_awaits st) (length (ps_inflight st)))"

text \<open>
  The awaited calls of the repositories. Each request of such a call is answered after
  whatever the database answers in the meantime.
\<close>

definition do_updateJob :: "pstate \<Rightarrow> string \<Rightarrow> job_updates \<Rightarrow> pstate" where
  "do_updateJob st key updates =
     (let st1 = settle st
      in commit st1 (fst (updateJobRepo (ps_db st1) key updates (ps_now st1))))"

definition do_appendLog :: "pstate \<Rightarrow> string \<Rightarrow> string \<Rightarrow> pstate" where
  "do_appendLog st key line =
     (let st1 = settle st
      in case select_logs (ps_db st1) key of
           None \<Rightarrow> st1
         | Some logs \<Rightarrow>
             (let st2 = settle st1
              in commit st2 (update_logs (ps_db st2) key (logs @ [line]) (ps_now st1))))"

definition do_updateClone :: "pstate \<Rightarrow> string \<Rightarrow> clone_data \<Rightarrow> pstate" where
  "do_updateClone st key updates =
     (let st1 = settle st
      in commit st1 (fst (updateCloneRepo (ps_db st1) key updates (ps_now st1))))"

text \<open>A call of \<^verbatim>\<open>appendLogRepo\<close> that is not awaited.\<close>

definition send_appendLog :: "pstate \<Rightarrow> string \<Rightarrow> string \<Rightarrow> pstate" where
  "send_appendLog st key line = st\<lparr>ps_inflight := ps_inflight st @ [Reading key line]\<rparr>"

text \<open>\<^verbatim>\<open>path.join\<close> of two segments, without the normalisation of dots and double slashes.\<close>

definition path_join :: "string \<Rightarrow> string \<Rightarrow> string" where
  "path_join a b = a @ ''/'' @ b"

text \<open>\<^verbatim>\<open>path.basename\<close>: the part after the last slash, trailing slashes dropped.\<close>

definition basename :: "string \<Rightarrow> string" where
  "basename p =
     (let q = rev (dropWhile (\<lambda>c. c = CHR ''/'') (rev p))
      in rev (takeWhile (\<lambda>c. c \<noteq> CHR ''/'') (rev q)))"

text \<open>
  \<^verbatim>\<open>String.prototype.trim\<close>. A \<^typ>\<open>string\<close> is a list of the code units U+0000 to U+00FF;
  among them the white space and line terminators that \<^verbatim>\<open>trim\<close> strips are the tab, the
  line feed, the vertical tab, the form feed, the carriage return, the space and the
  no-break space U+00A0. (The others, from U+1680 on, are not characters of the model.)
\<close>

definition is_space :: "char \<Rightarrow> bool" where
  "is_space c =
     (c \<in> set [CHR 0x09, CHR 0x0A, CHR 0x0B, CHR 0x0C, CHR 0x0D, CHR 0x20, CHR 0xA0])"

definition trim :: "string \<Rightarrow> string" where
  "trim s = rev (dropWhile is_space (rev (dropWhile is_space s)))"

record TrainPayload =
  tp_modelId :: string
  tp_datasetId :: string
  tp_systemPrompt :: string
  tp_persona :: "string option"
  tp_cloneName :: "string option"

text \<open>How \<^verbatim>\<open>${code}\<close> prints an exit code.\<close>

definition show_code :: "int option \<Rightarrow> string" where
  "show_code code = (case code of None \<Rightarrow> ''null'' | Some c \<Rightarrow> string_of_int c)"

text \<open>
  \<^verbatim>\<open>runLoggedProcess\<close>: \<open>Inl message\<close> is the rejection \<^verbatim>\<open>Error(`${label} exited with code ${code}`)\<close>.
  Each chunk of output arrives on a turn of its own of the event loop, where its handler
  calls \<^verbatim>\<open>appendLogRepo\<close> without awaiting it; the \<^verbatim>\<open>close\<close> event settles the promise on a later
  turn. Calls of \<^verbatim>\<open>appendLogRepo\<close> can still be in flight when the function returns.
\<close>

definition runLoggedProcess ::
  "world \<Rightarrow> pstate \<Rightarrow> string \<Rightarrow> string \<Rightarrow> string \<Rightarrow> string list \<Rightarrow> (string + unit) \<times> pstate" where
  "runLoggedProcess w st jobId label command args =
     (let proc = w_process w label;
          st1 = st\<lparr>ps_spawned := ps_spawned st @ [(label, command # args)]\<rparr>;
          st2 = foldl (\<lambda>s data. send_appendLog (settle s) jobId data) st1 (sr_output proc);
          st3 = settle (st2\<lparr>ps_now := ps_now st2 + sr_duration proc\<rparr>)
      in if sr_code proc \<noteq> Some 0
         then (Inl (label @ '' exited with code '' @ show_code (sr_code proc)), st3)
         else (Inr (), st3))"

text \<open>
  The \<^verbatim>\<open>counters\<close> object of \<^verbatim>\<open>readKnowledgeStats\<close> is a plain object
  (\<^verbatim>\<open>const counters: Record<...> = {}\<close>): its own properties are kept in insertion order, and
  a read \<^verbatim>\<open>counters[source]\<close> of a name that is not an own property finds what
  \<^verbatim>\<open>Object.prototype\<close> has under that name. For the twelve names below that is a function
  (for \<^verbatim>\<open>__proto__\<close> the prototype itself), which is truthy: the guard \<^verbatim>\<open>!counters[source]\<close>
  fails, no own property is made, and \<^verbatim>\<open>counters[source].chunks += 1\<close> writes to the inherited
  value. Such a source is never counted.
\<close>

definition Object_prototype_members :: "string list" where
  "Object_prototype_members =
     [''constructor'', ''__defineGetter__'', ''__defineSetter__'', ''hasOwnProperty'',
      ''__lookupGetter__'', ''__lookupSetter__'', ''isPrototypeOf'', ''propertyIsEnumerable'',
      ''toString'', ''valueOf'', ''__proto__'', ''toLocaleString'']"

text \<open>
  \<^verbatim>\<open>Object.values\<close> lists the own properties whose names are array indices (canonical
  decimal numerals below \<open>2\<^sup>3\<^sup>2 - 1\<close>) first, in ascending numeric order, and then the
  others in insertion order.
\<close>

definition nat_of_decimal :: "string \<Rightarrow> nat" where
  "nat_of_decimal s = foldl (\<lambda>n c. 10 * n + (of_char c - 48)) 0 s"

definition is_array_index :: "string \<Rightarrow> bool" where
  "is_array_index s =
     (s \<noteq> [] \<and> list_all (\<lambda>c. c \<in> set ''0123456789'') s
      \<and> (length s = 1 \<or> hd s \<noteq> CHR ''0'') \<and> nat_of_decimal s < 4294967295)"

definition Object_values :: "(string \<times> 'a) list \<Rightarrow> 'a list" where
  "Object_values props =
     map snd (sort_key (\<lambda>p. nat_of_decimal (fst p)) (filter (\<lambda>p. is_array_index (fst p)) props))
     @ map snd (filter (\<lambda>p. \<not> is_array_index (fst p)) props)"

text \<open>
  The loop of \<^verbatim>\<open>readKnowledgeStats\<close> over the lines, on the own properties of \<^verbatim>\<open>counters\<close>.
  A line is skipped (\<open>BadJson\<close>) when \<^verbatim>\<open>JSON.parse\<close> throws or when its \<^verbatim>\<open>source\<close> is truthy
  and not a string, on which \<^verbatim>\<open>path.basename\<close> throws.
\<close>

fun bump_counter :: "(string \<times> KnowledgeSource) list \<Rightarrow> string \<Rightarrow> (string \<times> KnowledgeSource) list" where
  "bump_counter [] source = []"
| "bump_counter ((k, c) # rest) source =
     (if k = source then (k, c\<lparr>ks_chunks := ks_chunks c + 1\<rparr>) # rest
      else (k, c) # bump_counter rest source)"

fun count_lines ::
  "world \<Rightarrow> knowledge_line list \<Rightarrow> (string \<times> KnowledgeSource) list \<Rightarrow> (string \<times> KnowledgeSource) list" where
  "count_lines w [] counters = counters"
| "count_lines w (BadJson # rest) counters = count_lines w rest counters"
| "count_lines w (Entry src # rest) counters =
     (let source = or_else src ''unknown'';
          displayName = basename source
      in if map_of counters source = None \<and> source \<in> set Object_prototype_members
         then count_lines w rest counters
         else
           let counters1 =
                 (if map_of counters source = None
                  then counters @ [(source, \<lparr>ks_source = source, ks_chunks = 0,
                                            ks_displayName = Some displayName,
                                            ks_size = w_file_size w source\<rparr>)]
                  else counters)
           in count_lines w rest (bump_counter counters1 source))"

definition readKnowledgeStats ::
  "world \<Rightarrow> pstate \<Rightarrow> string \<Rightarrow> string \<Rightarrow> (nat \<times> KnowledgeSource list) \<times> pstate" where
  "readKnowledgeStats w st jobId knowledgeFile =
     (case w_knowledge_file w of
        None \<Rightarrow>
          ((0, []),
           do_appendLog st jobId
             (''Failed to read knowledge file '' @ knowledgeFile @ '': '' @ w_read_error w))
      | Some lines \<Rightarrow>
          (let sources = Object_values (count_lines w lines [])
           in ((sum_list (map ks_chunks sources), sources), st)))"

text \<open>\<^verbatim>\<open>args.filter(Boolean)\<close>: the empty strings are dropped.\<close>

definition filter_Boolean :: "string list \<Rightarrow> string list" where
  "filter_Boolean args = filter (\<lambda>a. a \<noteq> []) args"

definition runRagIndex ::
  "world \<Rightarrow> pstate \<Rightarrow> string \<Rightarrow> string \<Rightarrow> string \<Rightarrow> (string + unit) \<times> pstate" where
  "runRagIndex w st jobId knowledgeFile ragIndexDir =
     (let args = [''-m'', ''rag.index_builder'', ''--knowledge-file'', knowledgeFile,
                  ''--output-dir'', ragIndexDir];
          st1 = do_appendLog st jobId (''Building RAG index from '' @ knowledgeFile)
      in case runLoggedProcess w st1 jobId ''rag_index'' ''python3'' (filter_Boolean args) of
           (Inl e, st2) \<Rightarrow> (Inl e, st2)
         | (Inr u, st2) \<Rightarrow> (Inr (), do_appendLog st2 jobId (''RAG index saved to '' @ ragIndexDir)))"

text \<open>
  The update of the clone that a job names, as \<^verbatim>\<open>runPipeline\<close> and \<^verbatim>\<open>simulateJob\<close> write it:
  \<^verbatim>\<open>const job = await getJob(jobId); if (job?.cloneId) await updateCloneRepo(job.cloneId, ...)\<close>.
\<close>

definition update_linked_clone :: "pstate \<Rightarrow> string \<Rightarrow> clone_data \<Rightarrow> pstate" where
  "update_linked_clone st jobId updates =
     (let st1 = settle st
      in case getJob_repo (ps_db st1) jobId of
           None \<Rightarrow> st1
         | Some job \<Rightarrow>
             if truthy (job_cloneId job) then do_updateClone st1 (the (job_cloneId job)) updates
             else st1)"

text \<open>The paths and argument lists that \<^verbatim>\<open>runPipeline\<close> computes before its first write.\<close>

definition jobOutput :: "world \<Rightarrow> string \<Rightarrow> string" where
  "jobOutput w jobId = path_join (w_OUTPUTS_DIR w) jobId"

definition cliPath :: "world \<Rightarrow> string" where
  "cliPath w = path_join (path_join (w_REPO_ROOT w) ''dataset_pipeline'') ''cli.py''"

definition trainPath :: "world \<Rightarrow> string" where
  "trainPath w = path_join (w_REPO_ROOT w) ''train_qlora.py''"

definition processedDir :: "world \<Rightarrow> string \<Rightarrow> string" where
  "processedDir w jobId = path_join (jobOutput w jobId) ''processed_dataset''"

definition trainFile :: "world \<Rightarrow> string \<Rightarrow> string" where
  "trainFile w jobId = path_join (processedDir w jobId) ''train.jsonl''"

definition evalFile :: "world \<Rightarrow> string \<Rightarrow> string" where
  "evalFile w jobId = path_join (processedDir w jobId) ''eval.jsonl''"

definition knowledgeFile :: "world \<Rightarrow> string \<Rightarrow> string" where
  "knowledgeFile w jobId = path_join (processedDir w jobId) ''knowledge.jsonl''"

definition ragIndexDir :: "world \<Rightarrow> string \<Rightarrow> string" where
  "ragIndexDir w jobId = path_join (jobOutput w jobId) ''rag_index''"

definition outputDir :: "world \<Rightarrow> string \<Rightarrow> string" where
  "outputDir w jobId = path_join (jobOutput w jobId) ''outputs''"

definition adapterDir :: "world \<Rightarrow> string \<Rightarrow> string" where
  "adapterDir w jobId = path_join (outputDir w jobId) ''lora_adapter''"

definition cliArgs :: "world \<Rightarrow> string \<Rightarrow> TrainPayload \<Rightarrow> string list" where
  "cliArgs w jobId payload =
     [cliPath w, ''--inputs'',
      (if tp_datasetId payload \<noteq> [] then path_join (w_DATASETS_DIR w) (tp_datasetId payload)
       else []),
      ''--output-dir'', processedDir w jobId,
      ''--persona'', or_else (map_option trim (tp_persona payload)) ''user_persona'',
      ''--format'', ''huggingface'', ''--eval-split'', ''0.1'']"

definition trainArgs :: "world \<Rightarrow> string \<Rightarrow> TrainPayload \<Rightarrow> string list" where
  "trainArgs w jobId payload =
     [trainPath w, ''--train-file'', trainFile w jobId, ''--eval-file'', evalFile w jobId,
      ''--model-id'', tp_modelId payload, ''--system-prompt'', tp_systemPrompt payload,
      ''--output-dir'', outputDir w jobId, ''--adapter-dir'', adapterDir w jobId]"

text \<open>
  The \<^verbatim>\<open>try\<close> block of \<^verbatim>\<open>runPipeline\<close>, in the three parts that its stages make: a part
  returns \<open>Inl message\<close> when an error reaches the \<^verbatim>\<open>catch\<close>.
\<close>

definition pipeline_stage1 ::
  "world \<Rightarrow> pstate \<Rightarrow> string \<Rightarrow> TrainPayload \<Rightarrow> (string + nat) \<times> pstate" where
  "pipeline_stage1 w st jobId payload =
     (case runLoggedProcess w st jobId ''dataset_pipeline'' ''python3''
             (filter_Boolean (cliArgs w jobId payload)) of
        (Inl e, st1) \<Rightarrow> (Inl e, st1)
      | (Inr u, st1) \<Rightarrow>
          (case readKnowledgeStats w st1 jobId (knowledgeFile w jobId) of
             ((totalChunks, sources), st2) \<Rightarrow>
               (let st3 = do_updateJob st2 jobId
                            (no_job_updates\<lparr>jd_knowledgeCount := Some totalChunks,
                                            jd_knowledgeSources := Some sources\<rparr>);
                    st4 = update_linked_clone st3 jobId
                            (no_clone_data\<lparr>cd_knowledgeCount := Some totalChunks,
                                           cd_knowledgeSources := Some sources,
                                           cd_knowledgeFile := Some (knowledgeFile w jobId),
                                           cd_ragIndexDir := Some (ragIndexDir w jobId)\<rparr>)
                in (Inr totalChunks, st4))))"

definition pipeline_stage2 :: "world \<Rightarrow> pstate \<Rightarrow> string \<Rightarrow> nat \<Rightarrow> pstate" where
  "pipeline_stage2 w st jobId totalChunks =
     (if totalChunks > 0
      then (case runRagIndex w st jobId (knowledgeFile w jobId) (ragIndexDir w jobId) of
              (Inl ragErr, st1) \<Rightarrow>
                do_appendLog st1 jobId
                  (''RAG index build failed (will continue without RAG): '' @ ragErr)
            | (Inr u, st1) \<Rightarrow> st1)
      else do_appendLog st jobId ''No knowledge chunks found, skipping RAG index build.'')"

definition pipeline_stage3 ::
  "world \<Rightarrow> pstate \<Rightarrow> string \<Rightarrow> TrainPayload \<Rightarrow> (string + unit) \<times> pstate" where
  "pipeline_stage3 w st jobId payload =
     (case runLoggedProcess w st jobId ''train_qlora'' ''python3''
             (filter_Boolean (trainArgs w jobId payload)) of
        (Inl e, st1) \<Rightarrow> (Inl e, st1)
      | (Inr u, st1) \<Rightarrow>
          (let st2 = do_updateJob st1 jobId (no_job_updates\<lparr>jd_status := Some JSucceeded\<rparr>);
               st3 = update_linked_clone st2 jobId (no_clone_data\<lparr>cd_status := Some CReady\<rparr>)
           in (Inr (), st3)))"

definition pipeline_try ::
  "world \<Rightarrow> pstate \<Rightarrow> string \<Rightarrow> TrainPayload \<Rightarrow> (string + unit) \<times> pstate" where
  "pipeline_try w st jobId payload =
     (case pipeline_stage1 w st jobId payload of
        (Inl e, st1) \<Rightarrow> (Inl e, st1)
      | (Inr totalChunks, st1) \<Rightarrow>
          pipeline_stage3 w (pipeline_stage2 w st1 jobId totalChunks) jobId payload)"

definition runPipeline :: "world \<Rightarrow> pstate \<Rightarrow> string \<Rightarrow> TrainPayload \<Rightarrow> pstate" where
  "runPipeline w st jobId payload =
     (let st1 = do_updateJob st jobId
                  (no_job_updates\<lparr>jd_status := Some JRunning,
                                  jd_adapterDir := Some (adapterDir w jobId),
                                  jd_processedDir := Some (processedDir w jobId),
                                  jd_knowledgeFile := Some (knowledgeFile w jobId),
                                  jd_ragIndexDir := Some (ragIndexDir w jobId)\<rparr>)
      in case pipeline_try w st1 jobId payload of
           (Inr u, st2) \<Rightarrow> st2
         | (Inl message, st2) \<Rightarrow>
             (let st3 = do_updateJob st2 jobId
                          (no_job_updates\<lparr>jd_status := Some JFailed, jd_error := Some message\<rparr>)
              in update_linked_clone st3 jobId (no_clone_data\<lparr>cd_status := Some CFailed\<rparr>)))"

text \<open>\<^verbatim>\<open>simulateJob\<close>, with the body of its five-second timer.\<close>

definition simulateJob :: "pstate \<Rightarrow> string \<Rightarrow> pstate" where
  "simulateJob st jobId =
     (let st1 = do_updateJob st jobId (no_job_updates\<lparr>jd_status := Some JRunning\<rparr>);
          st2 = do_appendLog st1 jobId ''Simulated training started.'';
          st3 = st2\<lparr>ps_now := ps_now st2 + 5000\<rparr>;
          st4 = do_appendLog st3 jobId ''Simulated training finished.'';
          st5 = do_updateJob st4 jobId (no_job_updates\<lparr>jd_status := Some JSucceeded\<rparr>)
      in update_linked_clone st5 jobId (no_clone_data\<lparr>cd_status := Some CReady\<rparr>))"

text \<open>
  The \<^verbatim>\<open>POST\<close> handler. A request is its session user and the outcome of parsing and
  validating its body. The state returned is the one reached when the pipeline that the
  handler fires has run to its end and one more await has passed, in which calls of
  \<^verbatim>\<open>appendLogRepo\<close> that were still in flight can be answered.
\<close>

datatype body = InvalidJson | ValidationFailed | Valid TrainPayload

record request =
  rq_user :: "string option"
  rq_body :: body

datatype response =
    Status401 string
  | Status400 string
  | Status500 string
  | Queued string string bool

definition POST :: "world \<Rightarrow> pstate \<Rightarrow> request \<Rightarrow> response \<times> pstate" where
  "POST w st req =
     (case rq_user req of
        None \<Rightarrow> (Status401 ''Unauthorized'', st)
      | Some uid \<Rightarrow>
     (case rq_body req of
        InvalidJson \<Rightarrow> (Status400 ''Invalid JSON body'', st)
      | ValidationFailed \<Rightarrow> (Status400 ''Validation failed'', st)
      | Valid payload \<Rightarrow>
     (let datasetPath = path_join (w_DATASETS_DIR w) (tp_datasetId payload)
      in if \<not> w_dataset_exists w datasetPath then (Status400 ''Dataset not found'', st)
         else
     (let st0 = settle st
      in case createJobRepo (ps_db st0) (rq_user req)
             \<lparr>jp_modelId = tp_modelId payload, jp_datasetPath = datasetPath,
              jp_systemPrompt = tp_systemPrompt payload, jp_persona = tp_persona payload,
              jp_cloneId = None, jp_cloneName = None,
              jp_adapterDir = Some (path_join (w_OUTPUTS_DIR w) ''pending'')\<rparr>
             (w_new_job_id w) (ps_now st0) of
        Inl e \<Rightarrow> (Status500 e, st0)
      | Inr (db1, None) \<Rightarrow> (Status500 ''Failed to create job'', st0)
      | Inr (db1, Some job) \<Rightarrow>
     (let st1 = settle (commit st0 db1)
      in case createCloneRepo (ps_db st1) (rq_user req)
                \<lparr>cp_name = or_else (map_option trim (tp_cloneName payload)) ''New Clone'',
                 cp_modelId = tp_modelId payload, cp_jobId = job_id job,
                 cp_status = Some CTraining,
                 cp_datasetCount = Some (w_dataset_files w datasetPath),
                 cp_datasetId = None, cp_startedAt = Some (job_createdAt job),
                 cp_knowledgeCount = None, cp_knowledgeSources = None,
                 cp_knowledgeFile = None, cp_ragIndexDir = None\<rparr>
                (w_new_clone_id w) (w_new_api_key w) (ps_now st1) of
           Inl e \<Rightarrow> (Status500 e, st1)
         | Inr (db2, None) \<Rightarrow> (Status500 ''Failed to create clone'', st1)
         | Inr (db2, Some clone) \<Rightarrow>
     (let st2 = commit st1 db2;
          st3 = do_updateJob st2 (job_id job)
                  (no_job_updates\<lparr>ju_cloneId := Some (clone_id clone),
                                  ju_cloneName := Some (clone_name clone)\<rparr>)
      in if \<not> w_enable_real_training w
         then (Queued (job_id job) (clone_id clone) True, settle (simulateJob st3 (job_id job)))
         else (Queued (job_id job) (clone_id clone) False,
               settle (runPipeline w st3 (job_id job) payload))))))))"

section \<open>The order of status writes\<close>

text \<open>
  One step of a job's status along \<^verbatim>\<open>queued \<rightarrow> running \<rightarrow> {succeeded, failed}\<close>, or no
  change.
\<close>

definition status_edge :: "JobStatus \<Rightarrow> JobStatus \<Rightarrow> bool" where
  "status_edge s s' =
     (s = s' \<or> (s = JQueued \<and> s' = JRunning)
      \<or> (s = JRunning \<and> (s' = JSucceeded \<or> s' = JFailed)))"

text \<open>
  Between two contents of the jobs table: no job disappears and every job's status makes
  one step or none.
\<close>

definition db_forward :: "database \<Rightarrow> database \<Rightarrow> bool" where
  "db_forward a b =
     (\<forall>k. case training_jobs a k of
            None \<Rightarrow> True
          | Some r \<Rightarrow> (case training_jobs b k of
                         None \<Rightarrow> False
                       | Some r' \<Rightarrow> status_edge (sj_status r) (sj_status r')))"

text \<open>
  The recorded history ends in the current database and each write in it is a forward
  step for every job.
\<close>

definition history_ok :: "pstate \<Rightarrow> bool" where
  "history_ok st =
     (ps_history st \<noteq> [] \<and> last (ps_history st) = ps_db st
      \<and> successively db_forward (ps_history st))"

text \<open>A job is stored with a given status and a given \<^verbatim>\<open>clone_id\<close>, on a sound history.\<close>

definition job_at :: "string \<Rightarrow> JobStatus \<Rightarrow> string option \<Rightarrow> pstate \<Rightarrow> bool" where
  "job_at j s c st =
     (history_ok st
      \<and> (case training_jobs (ps_db st) j of
            None \<Rightarrow> False
          | Some r \<Rightarrow> sj_status r = s \<and> sj_clone_id r = c))"

text \<open>A line is in the stored log of a job.\<close>

definition has_log :: "pstate \<Rightarrow> string \<Rightarrow> string \<Rightarrow> bool" where
  "has_log st j line =
     (case training_jobs (ps_db st) j of None \<Rightarrow> False | Some r \<Rightarrow> line \<in> set (sj_logs r))"

text \<open>
  The database answers at once: at every await it answers both requests of every call in
  flight, in the order of the calls. A state is tidy when the database answers at once
  and no call is in flight.
\<close>

definition orderly :: "pstate \<Rightarrow> bool" where
  "orderly st = (\<forall>k n. ps_answers st k n = replicate (2 * n) 0)"

definition tidy :: "pstate \<Rightarrow> bool" where
  "tidy st = (orderly st \<and> ps_inflight st = [])"

text \<open>
  The database answers at once, and at most one call is in flight, whose select has not
  been answered.
\<close>

definition short :: "pstate \<Rightarrow> bool" where
  "short st =
     (orderly st \<and> (ps_inflight st = [] \<or> (\<exists>key line. ps_inflight st = [Reading key line])))"

text \<open>
  Two relations between a state and a later one. \<open>calm\<close>: the clones table is the same, and
  from a tidy state the later state is tidy and has lost no log line. \<open>quiet\<close>: moreover
  every job keeps its status and \<^verbatim>\<open>clone_id\<close>.
\<close>

definition calm :: "pstate \<Rightarrow> pstate \<Rightarrow> bool" where
  "calm st st' =
     (clones_table (ps_db st') = clones_table (ps_db st)
      \<and> (tidy st \<longrightarrow> tidy st' \<and> (\<forall>j line. has_log st j line \<longrightarrow> has_log st' j line)))"

definition quiet :: "pstate \<Rightarrow> pstate \<Rightarrow> bool" where
  "quiet st st' = (calm st st' \<and> (\<forall>j s c. job_at j s c st \<longrightarrow> job_at j s c st'))"

text \<open>
  What \<^const>\<open>readKnowledgeStats\<close> returns, and the messages with which the three stages
  reject, as functions of the world.
\<close>

definition knowledge_stats :: "world \<Rightarrow> nat \<times> KnowledgeSource list" where
  "knowledge_stats w =
     (case w_knowledge_file w of
        None \<Rightarrow> (0, [])
      | Some lines \<Rightarrow>
          (sum_list (map ks_chunks (Object_values (count_lines w lines []))),
           Object_values (count_lines w lines [])))"

definition exit_message :: "world \<Rightarrow> string \<Rightarrow> string" where
  "exit_message w label = label @ '' exited with code '' @ show_code (sr_code (w_process w label))"

definition stage_ok :: "world \<Rightarrow> string \<Rightarrow> bool" where
  "stage_ok w label = (sr_code (w_process w label) = Some 0)"

text \<open>The labels of the stages that a run of the pipeline spawns, in order.\<close>

definition stages_run :: "world \<Rightarrow> string list" where
  "stages_run w =
     (if \<not> stage_ok w ''dataset_pipeline'' then [''dataset_pipeline'']
      else if fst (knowledge_stats w) > 0 then [''dataset_pipeline'', ''rag_index'', ''train_qlora'']
      else [''dataset_pipeline'', ''train_qlora''])"

text \<open>The outcome of the \<^verbatim>\<open>try\<close> block, and the status in which a run leaves its job.\<close>

definition try_result :: "world \<Rightarrow> string + unit" where
  "try_result w =
     (if \<not> stage_ok w ''dataset_pipeline'' then Inl (exit_message w ''dataset_pipeline'')
      else if \<not> stage_ok w ''train_qlora'' then Inl (exit_message w ''train_qlora'')
      else Inr ())"

definition final_status :: "world \<Rightarrow> JobStatus" where
  "final_status w = (case try_result w of Inl e \<Rightarrow> JFailed | Inr u \<Rightarrow> JSucceeded)"

text \<open>The line that stage 2 leaves in the log when it fails.\<close>

definition rag_failure_line :: "world \<Rightarrow> string" where
  "rag_failure_line w =
     ''RAG index build failed (will continue without RAG): '' @ exit_message w ''rag_index''"

text \<open>
  What the orchestrator does to the database: it serves a training request, or appends a
  line to a job's log.
\<close>

datatype orchestrator_op = Train world request | Log string string

fun orchestrate :: "pstate \<Rightarrow> orchestrator_op \<Rightarrow> pstate" where
  "orchestrate st (Train w req) = snd (POST w st req)"
| "orchestrate st (Log jobId line) = do_appendLog st jobId line"

section \<open>Concrete records and states\<close>

text \<open>Small records and manager states on which the results below are instantiated.\<close>

definition sample_job :: TrainingJob where
  "sample_job =
     new_job \<lparr>jp_modelId = ''m'', jp_datasetPath = ''d'', jp_systemPrompt = ''s'',
              jp_persona = None, jp_cloneId = None, jp_cloneName = None,
              jp_adapterDir = None\<rparr> ''j1'' 1"

definition two_jobs_params :: job_params where
  "two_jobs_params =
     \<lparr>jp_modelId = ''m'', jp_datasetPath = ''d'', jp_systemPrompt = ''s'',
      jp_persona = None, jp_cloneId = None, jp_cloneName = None, jp_adapterDir = None\<rparr>"

definition sample_clone_params :: clone_params where
  "sample_clone_params =
     \<lparr>cp_name = ''n'', cp_modelId = ''m'', cp_jobId = ''j1'', cp_status = None,
      cp_datasetCount = None, cp_datasetId = None, cp_startedAt = None,
      cp_knowledgeCount = None, cp_knowledgeSources = None, cp_knowledgeFile = None,
      cp_ragIndexDir = None\<rparr>"

definition sample_clone :: CloneRecord where
  "sample_clone = new_clone sample_clone_params ''c1'' ''k'' 1"

text \<open>A manager with no worker and one clone whose training has failed.\<close>

definition idle_manager :: manager where
  "idle_manager =
     \<lparr>wm_workers = [], wm_clones = [(''c1'', sample_clone\<lparr>clone_status := CFailed\<rparr>)],
      wm_jobs = [], wm_integrations = Missing, wm_pidfiles = [], wm_alive = {},
      wm_signals = [], wm_kill_timers = [], wm_forked = [], wm_monitoring = False\<rparr>"

text \<open>A manager whose one worker is running and last sent a heartbeat at time 0.\<close>

definition silent_worker :: WorkerRecord where
  "silent_worker = \<lparr>wr_child = 1, wr_status = WRunning, wr_lastHeartbeat = 0, wr_pid = 100\<rparr>"

definition busy_manager :: manager where
  "busy_manager =
     \<lparr>wm_workers = [(''c1'', silent_worker)],
      wm_clones = [(''c1'', sample_clone\<lparr>clone_status := CReady, clone_isRunning := Some True\<rparr>)],
      wm_jobs = [], wm_integrations = Missing, wm_pidfiles = [(''c1'', 100)], wm_alive = {100},
      wm_signals = [], wm_kill_timers = [], wm_forked = [], wm_monitoring = True\<rparr>"

text \<open>
  Two requests to start the worker of one clone, the second made before
  \<^verbatim>\<open>getIntegrations\<close> has answered the first.
\<close>

definition overlapping_starts :: "sv_event list" where
  "overlapping_starts =
     [StartCalled 1 ''c1'', StartCalled 2 ''c1'',
      IntegrationsRead 1 5 1 100 None, IntegrationsRead 2 6 2 200 None]"

text \<open>
  The reading of ``recency order'' for a list of timestamps: most recent first.
\<close>

definition recency_order :: "int list \<Rightarrow> bool" where
  "recency_order ts = sorted_wrt (\<lambda>a b. a \<ge> b) ts"

text \<open>
  A world in which the dataset has three files and one knowledge chunk, and real training
  is enabled; the stages are given separately. An empty database that answers every
  request at once, and a valid request.
\<close>

definition failing_stage :: stage_run where
  "failing_stage = \<lparr>sr_output = [''boom''], sr_code = Some 1, sr_duration = 10\<rparr>"

definition passing_stage :: stage_run where
  "passing_stage = \<lparr>sr_output = [''ok''], sr_code = Some 0, sr_duration = 10\<rparr>"

definition sample_world :: "(string \<Rightarrow> stage_run) \<Rightarrow> world" where
  "sample_world procs =
     \<lparr>w_process = procs, w_knowledge_file = Some [Entry (Some ''a.md'')],
      w_read_error = ''ENOENT'', w_file_size = (\<lambda>p. None), w_dataset_exists = (\<lambda>p. True),
      w_dataset_files = (\<lambda>p. 3), w_enable_real_training = True,
      w_new_job_id = ''job-1'', w_new_clone_id = ''clone-1'', w_new_api_key = ''key'',
      w_REPO_ROOT = ''/repo'', w_DATASETS_DIR = ''/data'', w_OUTPUTS_DIR = ''/out''\<rparr>"

definition empty_database :: database where
  "empty_database = \<lparr>training_jobs = Map.empty, clones_table = Map.empty\<rparr>"

text \<open>
  The database that answers at once: during every await, both requests of each of the \<open>n\<close>
  calls in flight, the oldest call first.
\<close>

definition at_once :: "nat \<Rightarrow> nat \<Rightarrow> nat list" where
  "at_once k n = replicate (2 * n) 0"

definition fresh_state :: pstate where
  "fresh_state = \<lparr>ps_db = empty_database, ps_now = 1000, ps_spawned = [],
                   ps_history = [empty_database], ps_inflight = [], ps_answers = at_once,
                   ps_awaits = 0\<rparr>"

definition sample_request :: request where
  "sample_request =
     \<lparr>rq_user = Some ''u1'',
      rq_body = Valid \<lparr>tp_modelId = ''m'',
                        tp_datasetId = ''123e4567-e89b-42d3-a456-426614174000'',
                        tp_systemPrompt = ''hi'',
                        tp_persona = None, tp_cloneName = None\<rparr>\<rparr>"

text \<open>The world of a later request: the database hands out the next keys.\<close>

definition later_world :: "(string \<Rightarrow> stage_run) \<Rightarrow> world" where
  "later_world procs = (sample_world procs)\<lparr>w_new_job_id := ''job-2'', w_new_clone_id := ''clone-2''\<rparr>"

text \<open>Stage 1 fails; stage 2 fails and the others pass.\<close>

definition parsing_fails :: "string \<Rightarrow> stage_run" where
  "parsing_fails label = (if label = ''dataset_pipeline'' then failing_stage else passing_stage)"

definition indexing_fails :: "string \<Rightarrow> stage_run" where
  "indexing_fails label = (if label = ''rag_index'' then failing_stage else passing_stage)"

text \<open>
  A state whose history has two entries: a succeeded job, then the same job with one more
  log line.
\<close>

definition settled_database :: database where
  "settled_database =
     \<lparr>training_jobs =
        [''job-0'' \<mapsto> (newJob ''u1''
            \<lparr>jp_modelId = ''m'', jp_datasetPath = ''d'', jp_systemPrompt = ''s'',
             jp_persona = None, jp_cloneId = None, jp_cloneName = None,
             jp_adapterDir = None\<rparr> ''job-0'' 1)\<lparr>sj_status := JSucceeded\<rparr>],
      clones_table = Map.empty\<rparr>"

definition settled_state :: pstate where
  "settled_state =
     \<lparr>ps_db = appendLogRepo settled_database ''job-0'' ''done'' 2, ps_now = 1000,
      ps_spawned = [],
      ps_history = [settled_database, appendLogRepo settled_database ''job-0'' ''done'' 2],
      ps_inflight = [], ps_answers = at_once, ps_awaits = 0\<rparr>"

text \<open>
  The same state under a database that is late: during the first await it answers the
  request of the one call in flight, during the second nothing, and during the third the
  next request of that call.
\<close>

definition late_answers :: "nat \<Rightarrow> nat \<Rightarrow> nat list" where
  "late_answers k n = (if k = 0 \<or> k = 2 then [0] else [])"

definition late_state :: pstate where
  "late_state = settled_state\<lparr>ps_answers := late_answers\<rparr>"

section \<open>The in-memory stores\<close>

subsection \<open>Restart sanitisation\<close>

lemma load_jobs_loop_snoc:
  "load_jobs_loop (es @ [(k, j)]) m =
     AList.update k (if job_status j = JRunning
           then j\<lparr>job_status := JFailed,
                    job_error := Some ''Training interrupted by server restart''\<rparr>
           else j) (load_jobs_loop es m)"
  by (induction es arbitrary: m) auto

lemma load_jobs_loop_lookup:
  "distinct (map fst es) \<Longrightarrow> (k, j) \<in> set es \<Longrightarrow>
   map_of (load_jobs_loop es m) k =
     Some (if job_status j = JRunning
           then j\<lparr>job_status := JFailed,
                    job_error := Some ''Training interrupted by server restart''\<rparr>
           else j)"
proof (induction es rule: rev_induct)
  case Nil
  then show ?case by simp
next
  case (snoc e es)
  obtain k' j' where e: "e = (k', j')" by (cases e)
  show ?case
  proof (cases "(k, j) \<in> set es")
    case True
    with snoc.prems e have "k \<noteq> k'" by (auto simp: image_iff)
    moreover from snoc.prems have "distinct (map fst es)" by simp
    ultimately show ?thesis using snoc.IH True e
      by (simp add: load_jobs_loop_snoc update_conv')
  next
    case False
    with snoc.prems e have "k = k'" "j = j'" by auto
    then show ?thesis using e by (simp add: load_jobs_loop_snoc update_conv')
  qed
qed

lemma load_jobs_loop_not_running:
  "\<forall>(k, j) \<in> set m. job_status j \<noteq> JRunning \<Longrightarrow>
   \<forall>(k, j) \<in> set (load_jobs_loop es m). job_status j \<noteq> JRunning"
proof (induction es arbitrary: m)
  case Nil
  then show ?case by simp
next
  case (Cons e es)
  obtain k j where e: "e = (k, j)" by (cases e)
  have upd: "\<And>v. job_status v \<noteq> JRunning \<Longrightarrow> \<forall>(k, j) \<in> set (AList.update k v m). job_status j \<noteq> JRunning"
    using Cons.prems by (induction m) (auto split: if_splits)
  show ?case unfolding e load_jobs_loop.simps
    by (rule Cons.IH, rule upd) simp
qed

lemma load_clones_loop_stopped:
  "\<forall>(k, c) \<in> set m. clone_isRunning c = Some False \<Longrightarrow>
   \<forall>(k, c) \<in> set (load_clones_loop es m). clone_isRunning c = Some False"
proof (induction es arbitrary: m)
  case Nil
  then show ?case by simp
next
  case (Cons e es)
  obtain k j where e: "e = (k, j)" by (cases e)
  have upd: "\<And>v. clone_isRunning v = Some False \<Longrightarrow> \<forall>(k, c) \<in> set (AList.update k v m). clone_isRunning c = Some False"
    using Cons.prems by (induction m) (auto split: if_splits)
  show ?case unfolding e load_clones_loop.simps
    by (rule Cons.IH, rule upd) simp
qed

lemma load_clones_loop_snoc:
  "load_clones_loop (es @ [(k, c)]) m =
     AList.update k (c\<lparr>clone_isRunning := Some False\<rparr>) (load_clones_loop es m)"
  by (induction es arbitrary: m) auto

lemma load_clones_loop_lookup:
  "distinct (map fst es) \<Longrightarrow> (k, c) \<in> set es \<Longrightarrow>
   map_of (load_clones_loop es m) k = Some (c\<lparr>clone_isRunning := Some False\<rparr>)"
proof (induction es rule: rev_induct)
  case Nil
  then show ?case by simp
next
  case (snoc e es)
  obtain k' c' where e: "e = (k', c')" by (cases e)
  show ?case
  proof (cases "(k, c) \<in> set es")
    case True
    with snoc.prems e have "k \<noteq> k'" by (auto simp: image_iff)
    moreover from snoc.prems have "distinct (map fst es)" by simp
    ultimately show ?thesis using snoc.IH True e
      by (simp add: load_clones_loop_snoc update_conv')
  next
    case False
    with snoc.prems e have "k = k'" "c = c'" by auto
    then show ?thesis using e by (simp add: load_clones_loop_snoc update_conv')
  qed
qed

text \<open>
  Claim C3. On process start, every job read from \<^verbatim>\<open>jobs.json\<close> whose persisted status is
  running is loaded as failed with the error ``Training interrupted by server restart'',
  every other persisted job is loaded as it was persisted, and no loaded job is running
  whatever the file holds; every clone read from \<^verbatim>\<open>clones.json\<close> is loaded under its key as
  the persisted record with \<^verbatim>\<open>isRunning = false\<close>, whatever value was persisted, and every
  clone in the loaded clone store has \<^verbatim>\<open>isRunning = false\<close> (also the demo clone of a missing
  file). The entries of a parsed JSON object have distinct keys.
\<close>

theorem C3_restart_sanitization:
  assumes "distinct (map fst parsed)" and "distinct (map fst cparsed)"
  shows "(\<forall>(k, job) \<in> set parsed. job_status job = JRunning \<longrightarrow>
            getJob (loadJobsFromDisk (Content parsed)) k =
              Some (job\<lparr>job_status := JFailed,
                        job_error := Some ''Training interrupted by server restart''\<rparr>))
       \<and> (\<forall>(k, job) \<in> set parsed. job_status job \<noteq> JRunning \<longrightarrow>
            getJob (loadJobsFromDisk (Content parsed)) k = Some job)
       \<and> (\<forall>(k, job) \<in> set (loadJobsFromDisk jfile). job_status job \<noteq> JRunning)
       \<and> (\<forall>(k, clone) \<in> set cparsed.
            getClone (loadClonesFromDisk now (Content cparsed)) k =
              Some (clone\<lparr>clone_isRunning := Some False\<rparr>))
       \<and> (\<forall>(k, clone) \<in> set (loadClonesFromDisk now cfile). clone_isRunning clone = Some False)"
proof (intro conjI)
  show "\<forall>(k, job) \<in> set parsed. job_status job = JRunning \<longrightarrow>
            getJob (loadJobsFromDisk (Content parsed)) k =
              Some (job\<lparr>job_status := JFailed,
                        job_error := Some ''Training interrupted by server restart''\<rparr>)"
    using load_jobs_loop_lookup [OF assms(1)]
    by (auto simp: getJob_def loadJobsFromDisk_def)
  show "\<forall>(k, job) \<in> set parsed. job_status job \<noteq> JRunning \<longrightarrow>
            getJob (loadJobsFromDisk (Content parsed)) k = Some job"
    using load_jobs_loop_lookup [OF assms(1)]
    by (auto simp: getJob_def loadJobsFromDisk_def)
  show "\<forall>(k, job) \<in> set (loadJobsFromDisk jfile). job_status job \<noteq> JRunning"
    using load_jobs_loop_not_running [of "[]"]
    by (cases jfile) (simp_all add: loadJobsFromDisk_def)
  show "\<forall>(k, clone) \<in> set cparsed.
            getClone (loadClonesFromDisk now (Content cparsed)) k =
              Some (clone\<lparr>clone_isRunning := Some False\<rparr>)"
    using load_clones_loop_lookup [OF assms(2)]
    by (auto simp: getClone_def loadClonesFromDisk_def)
  show "\<forall>(k, clone) \<in> set (loadClonesFromDisk now cfile). clone_isRunning clone = Some False"
    using load_clones_loop_stopped [of "[]"]
    by (cases cfile) (simp_all add: loadClonesFromDisk_def demo_clone_def)
qed

theorem C3_restart_sanitization_witness:
  "distinct (map fst [(''j1'', sample_job\<lparr>job_status := JRunning\<rparr>), (''j2'', sample_job)])
   \<and> distinct (map fst [(''c1'', sample_clone\<lparr>clone_isRunning := Some True\<rparr>)])
   \<and> getJob (loadJobsFromDisk
        (Content [(''j1'', sample_job\<lparr>job_status := JRunning\<rparr>), (''j2'', sample_job)])) ''j1'' =
       Some (sample_job\<lparr>job_status := JFailed,
                        job_error := Some ''Training interrupted by server restart''\<rparr>)
   \<and> getJob (loadJobsFromDisk
        (Content [(''j1'', sample_job\<lparr>job_status := JRunning\<rparr>), (''j2'', sample_job)])) ''j2'' =
       Some sample_job
   \<and> map (\<lambda>(k, j). job_status j)
         (loadJobsFromDisk
            (Content [(''j1'', sample_job\<lparr>job_status := JRunning\<rparr>), (''j2'', sample_job)])) =
       [JFailed, JQueued]
   \<and> getClone (loadClonesFromDisk 5
        (Content [(''c1'', sample_clone\<lparr>clone_isRunning := Some True\<rparr>)])) ''c1'' =
       Some (sample_clone\<lparr>clone_isRunning := Some False\<rparr>)
   \<and> map (\<lambda>(k, c). clone_isRunning c)
         (loadClonesFromDisk 5 (Content [(''c1'', sample_clone\<lparr>clone_isRunning := Some True\<rparr>)])) =
       [Some False]"
proof -
  have q: "job_status sample_job = JQueued"
    by (simp add: sample_job_def new_job_def)
  from C3_restart_sanitization
     [of "[(''j1'', sample_job\<lparr>job_status := JRunning\<rparr>), (''j2'', sample_job)]"
         "[(''c1'', sample_clone\<lparr>clone_isRunning := Some True\<rparr>)]"
         "Content [(''j1'', sample_job\<lparr>job_status := JRunning\<rparr>), (''j2'', sample_job)]" 5
         "Content [(''c1'', sample_clone\<lparr>clone_isRunning := Some True\<rparr>)]"]
  show ?thesis
    by (simp add: q loadClonesFromDisk_def loadJobsFromDisk_def)
qed

subsection \<open>The order of a listing\<close>

lemma update_fresh_appends:
  "k \<notin> fst ` set al \<Longrightarrow> AList.update k v al = al @ [(k, v)]"
  by (induction al) auto

lemma updateJob_keys: "map fst (fst (updateJob jobs k data now)) = map fst jobs"
proof (cases "map_of jobs k")
  case None
  then show ?thesis by (simp add: updateJob_def)
next
  case (Some c)
  then have "k \<in> set (map fst jobs)"
    by (metis map_of_SomeD fst_conv image_eqI set_map)
  with Some show ?thesis by (simp add: updateJob_def Let_def update_keys)
qed

lemma appendLog_keys: "map fst (appendLog jobs k line now) = map fst jobs"
proof (cases "map_of jobs k")
  case None
  then show ?thesis by (simp add: appendLog_def)
next
  case (Some c)
  then have "k \<in> set (map fst jobs)"
    by (metis map_of_SomeD fst_conv image_eqI set_map)
  with Some show ?thesis by (simp add: appendLog_def update_keys)
qed

lemma updateClone_keys: "map fst (fst (updateClone clones k data now)) = map fst clones"
proof (cases "map_of clones k")
  case None
  then show ?thesis by (simp add: updateClone_def)
next
  case (Some c)
  then have "k \<in> set (map fst clones)"
    by (metis map_of_SomeD fst_conv image_eqI set_map)
  with Some show ?thesis by (simp add: updateClone_def Let_def update_keys)
qed

text \<open>
  What the lists of the in-memory stores are in general: \<^verbatim>\<open>listJobs\<close> and \<^verbatim>\<open>listClones\<close> return
  the records in insertion order. A record created under a fresh id is the last element of
  the list, and \<^verbatim>\<open>updateJob\<close>, \<^verbatim>\<open>appendLog\<close> and \<^verbatim>\<open>updateClone\<close> leave the order of the stored ids as
  it is.
\<close>

lemma in_memory_lists_insertion_order:
  "juuid \<notin> fst ` set jobs \<Longrightarrow>
      listJobs (fst (createJob jobs jparams juuid now)) = listJobs jobs @ [new_job jparams juuid now]"
  "map fst (fst (updateJob jobs k jdata now)) = map fst jobs"
  "map fst (appendLog jobs k line now) = map fst jobs"
  "cuuid \<notin> fst ` set clones \<Longrightarrow>
      listClones (fst (createClone clones cparams cuuid apikey now)) =
        listClones clones @ [new_clone cparams cuuid apikey now]"
  "map fst (fst (updateClone clones k cdata now)) = map fst clones"
  by (simp_all add: listJobs_def createJob_def listClones_def createClone_def Let_def
      update_fresh_appends updateJob_keys appendLog_keys updateClone_keys)

text \<open>
  The lists of the repositories, which order by \<^verbatim>\<open>created_at\<close> descending, are in recency
  order for every content of the tables.
\<close>

lemma sorted_negated_keys:
  "sorted (map (\<lambda>r. - f r) rows) \<Longrightarrow> sorted_wrt (\<lambda>a b. a \<ge> b) (map f rows)" for f :: "'a \<Rightarrow> int"
  by (induction rows) auto

lemma repository_lists_recency_order:
  "recency_order (map job_createdAt (listJobs_repo jrows))"
  "recency_order (map clone_createdAt (listClones_repo crows))"
proof -
  have "sorted (map (\<lambda>r. - sj_created_at r) (sort_key (\<lambda>r. - sj_created_at r) jrows))"
    by (rule sorted_sort_key)
  then have "sorted_wrt (\<lambda>a b. a \<ge> b) (map sj_created_at (sort_key (\<lambda>r. - sj_created_at r) jrows))"
    by (rule sorted_negated_keys)
  then show "recency_order (map job_createdAt (listJobs_repo jrows))"
    by (simp add: recency_order_def listJobs_repo_def mapToJobRecord_def comp_def)
  have "sorted (map (\<lambda>r. - sc_created_at r) (sort_key (\<lambda>r. - sc_created_at r) crows))"
    by (rule sorted_sort_key)
  then have "sorted_wrt (\<lambda>a b. a \<ge> b) (map sc_created_at (sort_key (\<lambda>r. - sc_created_at r) crows))"
    by (rule sorted_negated_keys)
  then show "recency_order (map clone_createdAt (listClones_repo crows))"
    by (simp add: recency_order_def listClones_repo_def mapToCloneRecord_def comp_def)
qed

text \<open>
  Claim C9, at two creations at times 1 and 2 on an empty store. The in-memory \<^verbatim>\<open>listJobs\<close>
  and \<^verbatim>\<open>listClones\<close> return the older record first, so that neither the creation times nor
  the update times of the list are in recency order; the repositories' \<^verbatim>\<open>listJobs\<close> and
  \<^verbatim>\<open>listClones\<close>, on the rows of the same two creations, return the newer record first.
\<close>

theorem C9_in_memory_list_oldest_first:
  "map job_id (listJobs (fst (createJob (fst (createJob [] two_jobs_params ''a'' 1))
                                 two_jobs_params ''b'' 2))) = [''a'', ''b'']
   \<and> map job_createdAt (listJobs (fst (createJob (fst (createJob [] two_jobs_params ''a'' 1))
                                 two_jobs_params ''b'' 2))) = [1, 2]
   \<and> \<not> recency_order (map job_createdAt
        (listJobs (fst (createJob (fst (createJob [] two_jobs_params ''a'' 1))
                                 two_jobs_params ''b'' 2))))
   \<and> \<not> recency_order (map job_updatedAt
        (listJobs (fst (createJob (fst (createJob [] two_jobs_params ''a'' 1))
                                 two_jobs_params ''b'' 2))))
   \<and> map clone_id (listClones (fst (createClone (fst (createClone [] sample_clone_params ''a'' ''k'' 1))
                           sample_clone_params ''b'' ''k'' 2))) = [''a'', ''b'']
   \<and> \<not> recency_order (map clone_createdAt
        (listClones (fst (createClone (fst (createClone [] sample_clone_params ''a'' ''k'' 1))
                           sample_clone_params ''b'' ''k'' 2))))
   \<and> \<not> recency_order (map clone_updatedAt
        (listClones (fst (createClone (fst (createClone [] sample_clone_params ''a'' ''k'' 1))
                           sample_clone_params ''b'' ''k'' 2))))
   \<and> map job_id (listJobs_repo [newJob ''u1'' two_jobs_params ''a'' 1,
                                 newJob ''u1'' two_jobs_params ''b'' 2]) = [''b'', ''a'']
   \<and> recency_order (map job_createdAt
        (listJobs_repo [newJob ''u1'' two_jobs_params ''a'' 1, newJob ''u1'' two_jobs_params ''b'' 2]))
   \<and> map clone_id (listClones_repo [newClone ''u1'' sample_clone_params ''a'' ''k'' 1,
                                     newClone ''u1'' sample_clone_params ''b'' ''k'' 2]) = [''b'', ''a'']
   \<and> recency_order (map clone_createdAt
        (listClones_repo [newClone ''u1'' sample_clone_params ''a'' ''k'' 1,
                          newClone ''u1'' sample_clone_params ''b'' ''k'' 2]))"
  by (simp add: recency_order_def listJobs_def createJob_def new_job_def listClones_def
      createClone_def new_clone_def Let_def listJobs_repo_def listClones_repo_def
      newJob_def newClone_def mapToJobRecord_def mapToCloneRecord_def two_jobs_params_def)

section \<open>The lock of the integration store\<close>

lemma lock_inv_init: "lock_inv ops file0 (ls_init file0)"
  by (simp add: lock_inv_def ls_init_def serial_def)

lemma run_body_phase: "run_body op file now \<noteq> Idle \<and> run_body op file now \<noteq> Waiting
   \<and> run_body op file now \<noteq> Granted \<and> \<not> finished (run_body op file now)
   \<and> in_cs (run_body op file now)"
  by (cases op) simp_all

lemma lock_inv_call:
  assumes "lock_inv ops file0 s"
  shows "lock_inv ops file0 (ls_step ops s (Call t))"
proof (cases "ls_phase s t = Idle")
  case False
  then show ?thesis using assms by simp
next
  case True
  with assms have fresh: "t \<notin> set (ls_arrivals s)" by (simp add: lock_inv_def)
  show ?thesis
  proof (cases "mx_locked s")
    case False
    with assms have q: "mx_queue s = []" by (auto simp: lock_inv_def)
    from assms False have nocs: "\<And>x. \<not> in_cs (ls_phase s x)" by (simp add: lock_inv_def)
    show ?thesis using assms True fresh False q nocs
      unfolding lock_inv_def
      by (auto simp: acquire_def tryAcquire_def)
  next
    case locked: True
    with assms have ne: "ls_grants s \<noteq> []" by (simp add: lock_inv_def)
    from assms fresh have "t \<notin> set (ls_grants s)" by (auto simp: lock_inv_def)
    with ne have "t \<noteq> last (ls_grants s)" using last_in_set by metis
    then show ?thesis using assms True fresh locked ne
      unfolding lock_inv_def
      by (auto simp: acquire_def tryAcquire_def)
  qed
qed

lemma holder_facts:
  assumes "lock_inv ops file0 s" and "in_cs (ls_phase s t)"
  shows "mx_locked s" and "ls_grants s \<noteq> []" and "t = last (ls_grants s)"
    and "\<And>x. in_cs (ls_phase s x) \<Longrightarrow> x = t"
    and "t \<in> set (ls_grants s)" and "t \<notin> set (mx_queue s)"
    and "\<And>x f r. x \<noteq> t \<Longrightarrow> ls_phase s x \<noteq> Computed f r"
proof -
  from assms show a: "mx_locked s" and b: "ls_grants s \<noteq> []" and c: "t = last (ls_grants s)"
    by (auto simp: lock_inv_def)
  from assms show d: "\<And>x. in_cs (ls_phase s x) \<Longrightarrow> x = t" by (auto simp: lock_inv_def)
  from b c show e: "t \<in> set (ls_grants s)" by simp
  from assms have "distinct (ls_grants s @ mx_queue s)" by (auto simp: lock_inv_def)
  with e show "t \<notin> set (mx_queue s)" by auto
  show "x \<noteq> t \<Longrightarrow> ls_phase s x \<noteq> Computed f r" for x f r
  proof
    assume "x \<noteq> t" and "ls_phase s x = Computed f r"
    then have "in_cs (ls_phase s x)" by simp
    with d \<open>x \<noteq> t\<close> show False by blast
  qed
qed

lemma lock_inv_load:
  assumes "lock_inv ops file0 s"
  shows "lock_inv ops file0 (ls_step ops s (Load t now))"
proof (cases "ls_phase s t = Granted")
  case False
  then show ?thesis using assms by simp
next
  case True
  then have cs: "in_cs (ls_phase s t)" by simp
  note h = holder_facts [OF assms cs]
  from assms h have served: "map fst (ls_served s) = butlast (ls_grants s)"
    using True by (simp add: lock_inv_def)
  have others: "ls_phase s x \<noteq> Computed f r" for x f r
    using h(7) [of x f r] True by (cases "x = t") simp_all
  show ?thesis
  proof (cases "ops t")
    case (GetIntegrations c)
    have "serial ops file0 (ls_served s @ [(t, now)]) = serial ops file0 (ls_served s)"
      by (simp add: serial_def apply_op_def GetIntegrations)
    then show ?thesis using assms True h(1,2,3,5,6) served others GetIntegrations
      unfolding lock_inv_def
      by (auto simp: snoc_eq_iff_butlast)
  next
    case (UpsertIntegration c p d)
    then show ?thesis using assms True h(1,2,3,5,6) served others
      unfolding lock_inv_def by auto
  next
    case (SetIntegrations c l)
    then show ?thesis using assms True h(1,2,3,5,6) served others
      unfolding lock_inv_def by auto
  qed
qed

lemma lock_inv_save_ok:
  assumes "lock_inv ops file0 s"
  shows "lock_inv ops file0 (ls_step ops s (SaveOk t))"
proof (cases "ls_phase s t")
  case (Computed f r)
  then have cs: "in_cs (ls_phase s t)" by simp
  note h = holder_facts [OF assms cs]
  from assms h have served: "map fst (ls_served s) = butlast (ls_grants s)"
    using Computed by (simp add: lock_inv_def)
  from assms Computed have body: "run_body (ops t) (ls_file s) (ls_time s t) = Computed f r"
    by (simp add: lock_inv_def)
  note others = h(7)
  have fl: "\<not> ls_failed s \<Longrightarrow> f = serial ops file0 (ls_served s @ [(t, ls_time s t)])"
    using assms body by (simp add: serial_def apply_op_def lock_inv_def)
  show ?thesis using assms Computed h(1,2,3,5,6) served others fl
    unfolding lock_inv_def
    by (auto simp: snoc_eq_iff_butlast)
qed (use assms in simp_all)

lemma lock_inv_save_fails:
  assumes "lock_inv ops file0 s"
  shows "lock_inv ops file0 (ls_step ops s (SaveFails t broken))"
proof (cases "ls_phase s t")
  case (Computed f r)
  then have cs: "in_cs (ls_phase s t)" by simp
  note h = holder_facts [OF assms cs]
  from assms h have served: "map fst (ls_served s) = butlast (ls_grants s)"
    using Computed by (simp add: lock_inv_def)
  note others = h(7)
  show ?thesis using assms Computed h(1,2,3,5,6) served others
    unfolding lock_inv_def
    by (auto simp: snoc_eq_iff_butlast)
qed (use assms in simp_all)

lemma lock_inv_release:
  assumes "lock_inv ops file0 s"
  shows "lock_inv ops file0 (ls_step ops s (Release t))"
proof (cases "ls_phase s t")
  case (Leaving out)
  then have cs: "in_cs (ls_phase s t)" by simp
  note h = holder_facts [OF assms cs]
  from assms h have served: "map fst (ls_served s) = ls_grants s"
    using Leaving by (simp add: lock_inv_def)
  have others: "\<And>x. x \<noteq> t \<Longrightarrow> \<not> in_cs (ls_phase s x)"
    using h(4) by blast
  from assms have arr: "distinct (ls_grants s @ mx_queue s)"
    by (auto simp: lock_inv_def)
  show ?thesis
  proof (cases "mx_queue s")
    case Nil
    then show ?thesis using assms Leaving h(1,2,3,5,6) served others
      unfolding lock_inv_def
      by (auto simp: release_def)
  next
    case (Cons n rest)
    from arr Cons h(5) have nt: "n \<noteq> t" "n \<notin> set rest" "n \<notin> set (ls_grants s)" by auto
    from assms Cons have nw: "ls_phase s n = Waiting" by (simp add: lock_inv_def)
    show ?thesis using assms Leaving h(1,2,3,5,6) served others Cons nt nw
      unfolding lock_inv_def
      by (auto simp: release_def tryAcquire_def)
  qed
qed (use assms in simp_all)

lemma lock_inv_step: "lock_inv ops file0 s \<Longrightarrow> lock_inv ops file0 (ls_step ops s ev)"
  by (cases ev)
     (simp_all only: lock_inv_call lock_inv_load lock_inv_save_ok lock_inv_save_fails
        lock_inv_release)

lemma lock_inv_run: "lock_inv ops file0 (foldl (ls_step ops) (ls_init file0) evs)"
proof (induction evs rule: rev_induct)
  case Nil
  show ?case by (simp add: lock_inv_init)
next
  case (snoc ev evs)
  then show ?case by (simp add: lock_inv_step)
qed

lemma lock_inv_run_calls: "lock_inv ops file0 (run_calls ops file0 evs)"
  by (simp add: run_calls_def lock_inv_run)

lemma phase_cases:
  "ph = Idle \<or> ph = Waiting \<or> in_cs ph \<or> finished ph"
  by (cases ph) simp_all

lemma all_finished_served:
  assumes "lock_inv ops file0 s" and "\<forall>t \<in> set (ls_arrivals s). finished (ls_phase s t)"
  shows "map fst (ls_served s) = ls_arrivals s"
proof -
  have q: "mx_queue s = []"
  proof (rule ccontr)
    assume "mx_queue s \<noteq> []"
    then obtain t where t: "t \<in> set (mx_queue s)" by (cases "mx_queue s") auto
    with assms(1) have "ls_phase s t = Waiting" "t \<in> set (ls_arrivals s)"
      by (auto simp: lock_inv_def)
    with assms(2) show False by auto
  qed
  have "\<not> mx_locked s"
  proof
    assume l: "mx_locked s"
    with assms(1) have ne: "ls_grants s \<noteq> []" and "in_cs (ls_phase s (last (ls_grants s)))"
      by (auto simp: lock_inv_def)
    moreover from ne assms(1) have "last (ls_grants s) \<in> set (ls_arrivals s)"
      by (simp add: lock_inv_def)
    ultimately show False using assms(2) by (cases "ls_phase s (last (ls_grants s))") auto
  qed
  with assms(1) q show ?thesis by (simp add: lock_inv_def)
qed

text \<open>
  Claim C8. Under every schedule of calls of \<^verbatim>\<open>getIntegrations\<close>, \<^verbatim>\<open>upsertIntegration\<close> and
  \<^verbatim>\<open>setIntegrations\<close> (the points at which one call can run between the steps of
  another are the calls' awaits): the calls get the lock in the order in which they asked
  for it; at most one call is between acquiring and releasing, and the lock is held
  exactly while one is; a call at its \<^verbatim>\<open>finally\<close>, whether it is returning or has thrown
  in \<^verbatim>\<open>saveStore\<close>, releases the lock, which is then free or passes to the call at the head
  of the queue; and when no write has failed and every call made has returned, the file
  is what the calls produce run one after the other in the order they asked for the lock,
  so that no update is lost.
\<close>

theorem C8_lock_serializes:
  "ls_arrivals (run_calls ops file0 evs) =
     ls_grants (run_calls ops file0 evs) @ mx_queue (run_calls ops file0 evs)
   \<and> (\<forall>t t'. in_cs (ls_phase (run_calls ops file0 evs) t)
              \<and> in_cs (ls_phase (run_calls ops file0 evs) t') \<longrightarrow> t = t')
   \<and> (mx_locked (run_calls ops file0 evs) = (\<exists>t. in_cs (ls_phase (run_calls ops file0 evs) t)))
   \<and> (mx_queue (run_calls ops file0 evs) \<noteq> [] \<longrightarrow> mx_locked (run_calls ops file0 evs))
   \<and> (\<forall>t out. ls_phase (run_calls ops file0 evs) t = Leaving out \<longrightarrow>
         ls_phase (run_calls ops file0 (evs @ [Release t])) t = Finished out
         \<and> (case mx_queue (run_calls ops file0 evs) of
              [] \<Rightarrow> \<not> mx_locked (run_calls ops file0 (evs @ [Release t]))
            | next # rest \<Rightarrow>
                ls_phase (run_calls ops file0 (evs @ [Release t])) next = Granted
                \<and> mx_queue (run_calls ops file0 (evs @ [Release t])) = rest))
   \<and> (\<not> ls_failed (run_calls ops file0 evs)
        \<and> (\<forall>t \<in> set (ls_arrivals (run_calls ops file0 evs)).
              finished (ls_phase (run_calls ops file0 evs) t))
      \<longrightarrow> ls_file (run_calls ops file0 evs) = serial ops file0 (ls_served (run_calls ops file0 evs))
          \<and> map fst (ls_served (run_calls ops file0 evs)) = ls_arrivals (run_calls ops file0 evs))"
proof -
  define s where "s = run_calls ops file0 evs"
  have inv: "lock_inv ops file0 s" unfolding s_def by (rule lock_inv_run_calls)
  have a: "ls_arrivals s = ls_grants s @ mx_queue s" using inv by (simp add: lock_inv_def)
  have b: "\<forall>t t'. in_cs (ls_phase s t) \<and> in_cs (ls_phase s t') \<longrightarrow> t = t'"
    using inv by (auto simp: lock_inv_def)
  have c: "mx_locked s = (\<exists>t. in_cs (ls_phase s t))"
    using inv by (auto simp: lock_inv_def)
  have d: "mx_queue s \<noteq> [] \<longrightarrow> mx_locked s" using inv by (simp add: lock_inv_def)
  have step: "run_calls ops file0 (evs @ [Release t]) = ls_step ops s (Release t)" for t
    by (simp add: run_calls_def s_def)
  have e: "\<forall>t out. ls_phase s t = Leaving out \<longrightarrow>
         ls_phase (run_calls ops file0 (evs @ [Release t])) t = Finished out
         \<and> (case mx_queue s of
              [] \<Rightarrow> \<not> mx_locked (run_calls ops file0 (evs @ [Release t]))
            | next # rest \<Rightarrow>
                ls_phase (run_calls ops file0 (evs @ [Release t])) next = Granted
                \<and> mx_queue (run_calls ops file0 (evs @ [Release t])) = rest)"
  proof (intro allI impI)
    fix t out
    assume l: "ls_phase s t = Leaving out"
    then have "in_cs (ls_phase s t)" by simp
    note h = holder_facts [OF inv this]
    show "ls_phase (run_calls ops file0 (evs @ [Release t])) t = Finished out
         \<and> (case mx_queue s of
              [] \<Rightarrow> \<not> mx_locked (run_calls ops file0 (evs @ [Release t]))
            | next # rest \<Rightarrow>
                ls_phase (run_calls ops file0 (evs @ [Release t])) next = Granted
                \<and> mx_queue (run_calls ops file0 (evs @ [Release t])) = rest)"
      using l h(6)
      by (cases "mx_queue s") (auto simp: step release_def tryAcquire_def)
  qed
  have f: "\<not> ls_failed s \<and> (\<forall>t \<in> set (ls_arrivals s). finished (ls_phase s t))
      \<longrightarrow> ls_file s = serial ops file0 (ls_served s) \<and> map fst (ls_served s) = ls_arrivals s"
    using inv all_finished_served [OF inv] by (auto simp: lock_inv_def)
  from a b c d e f show ?thesis unfolding s_def by blast
qed

theorem C8_lock_serializes_witness:
  "ls_file (run_calls two_upserts Missing overlapping_schedule) =
     Content [(''c1'', \<lparr>ci_cloneId = ''c1'',
                       ci_integrations = [\<lparr>ic_platform = Telegram, ic_active = True,
                                            ic_token = Some ''tok'', ic_updatedAt = 20\<rparr>]\<rparr>)]
   \<and> ls_grants (run_calls two_upserts Missing overlapping_schedule) = [0, 1]
   \<and> \<not> mx_locked (run_calls two_upserts Missing overlapping_schedule)
   \<and> ls_phase (run_calls two_upserts Missing (take 4 overlapping_schedule)) 1 = Waiting
   \<and> ls_phase (run_calls two_upserts Missing (take 4 overlapping_schedule @ [Release 0])) 1 = Granted"
proof -
  define s where "s = run_calls two_upserts Missing overlapping_schedule"
  define m where "m = run_calls two_upserts Missing (take 4 overlapping_schedule)"
  have run: "ls_arrivals s = [0, 1]" "ls_grants s = [0, 1]" "mx_queue s = []" "\<not> ls_failed s"
    "ls_phase s 0 = Finished (Returned [\<lparr>ic_platform = Telegram, ic_active = True,
                                            ic_token = None, ic_updatedAt = 10\<rparr>])"
    "ls_phase s 1 = Finished (Returned [\<lparr>ic_platform = Telegram, ic_active = True,
                                            ic_token = Some ''tok'', ic_updatedAt = 20\<rparr>])"
    "ls_served s = [(0, 10), (1, 20)]" "\<not> mx_locked s"
    by (simp_all add: s_def run_calls_def overlapping_schedule_def ls_init_def acquire_def
        tryAcquire_def release_def two_upserts_def upsertIntegration_body_def loadStore_def Let_def)
  have mid: "ls_phase m 0 = Leaving (Returned [\<lparr>ic_platform = Telegram, ic_active = True,
                                            ic_token = None, ic_updatedAt = 10\<rparr>])"
    "ls_phase m 1 = Waiting" "mx_queue m = [1]"
    by (simp_all add: m_def run_calls_def overlapping_schedule_def ls_init_def acquire_def
        tryAcquire_def release_def two_upserts_def upsertIntegration_body_def loadStore_def Let_def)
  from C8_lock_serializes [of two_upserts Missing overlapping_schedule] run
  have "ls_file s = serial two_upserts Missing (ls_served s)"
    unfolding s_def [symmetric] by simp
  then have a: "ls_file s = Content [(''c1'', \<lparr>ci_cloneId = ''c1'',
                       ci_integrations = [\<lparr>ic_platform = Telegram, ic_active = True,
                                            ic_token = Some ''tok'', ic_updatedAt = 20\<rparr>]\<rparr>)]"
    by (simp add: run serial_def apply_op_def two_upserts_def upsertIntegration_body_def
        loadStore_def Let_def)
  from C8_lock_serializes [of two_upserts Missing "take 4 overlapping_schedule"] mid
  have b: "ls_phase (run_calls two_upserts Missing (take 4 overlapping_schedule @ [Release 0])) 1 = Granted"
    unfolding m_def [symmetric] by simp
  from a b run mid show ?thesis unfolding s_def m_def by simp
qed

section \<open>The worker manager\<close>

subsection \<open>Starting a worker\<close>

lemma updateClone_other:
  "k' \<noteq> k \<Longrightarrow> map_of (fst (updateClone clones k data now)) k' = map_of clones k'"
  by (simp add: updateClone_def Let_def update_conv' split: option.splits)

lemma updateClone_same:
  "map_of clones k = Some c \<Longrightarrow>
   map_of (fst (updateClone clones k data now)) k = Some (apply_clone_data c data now)"
  by (simp add: updateClone_def Let_def update_conv')

lemma apply_failed:
  "apply_clone_data c (no_clone_data\<lparr>cd_status := Some CFailed, cd_isRunning := Some False\<rparr>) now
     = c\<lparr>clone_status := CFailed, clone_isRunning := Some False, clone_updatedAt := now\<rparr>"
  by (simp add: apply_clone_data_def no_clone_data_def truthy_def)

lemma apply_started:
  "apply_clone_data c (no_clone_data\<lparr>cd_isRunning := Some True, cd_status := Some CReady\<rparr>) now
     = c\<lparr>clone_status := CReady, clone_isRunning := Some True, clone_updatedAt := now\<rparr>"
  by (simp add: apply_clone_data_def no_clone_data_def truthy_def)

lemma killProcess_frame:
  "wm_clones (killProcess st p) = wm_clones st"
  "wm_workers (killProcess st p) = wm_workers st"
  "wm_jobs (killProcess st p) = wm_jobs st"
  "wm_integrations (killProcess st p) = wm_integrations st"
  "wm_forked (killProcess st p) = wm_forked st"
  by (simp_all add: killProcess_def)

lemma removePidFile_frame:
  "wm_clones (removePidFile st k) = wm_clones st"
  "wm_workers (removePidFile st k) = wm_workers st"
  "wm_jobs (removePidFile st k) = wm_jobs st"
  "wm_integrations (removePidFile st k) = wm_integrations st"
  "wm_forked (removePidFile st k) = wm_forked st"
  by (simp_all add: removePidFile_def)

text \<open>A call of \<^verbatim>\<open>startCloneWorker\<close> that nothing interrupts and that succeeds.\<close>

lemma start_ok_unfold:
  assumes "fst (startCloneWorker st cloneId now child pid api_url) = Inr p"
  shows "map_of (wm_workers st) cloneId = None"
    and "\<exists>clone. getClone (wm_clones st) cloneId = Some clone"
    and "p = pid"
    and "wm_workers (snd (startCloneWorker st cloneId now child pid api_url)) =
           AList.update cloneId \<lparr>wr_child = child, wr_status = WStarting,
                             wr_lastHeartbeat = now, wr_pid = pid\<rparr> (wm_workers st)"
    and "wm_clones (snd (startCloneWorker st cloneId now child pid api_url)) =
           fst (updateClone (wm_clones st) cloneId
                  (no_clone_data\<lparr>cd_isRunning := Some True, cd_status := Some CReady\<rparr>) now)"
  using assms
  by (auto simp: startCloneWorker_def start_guard_def start_lookup_def start_spawn_def Let_def
        killProcess_frame removePidFile_frame savePidFile_def wm_updateClone_def
        startHeartbeatMonitoring_def
      split: option.splits if_splits)

text \<open>
  The part of a call after its awaits writes the clone once, whatever has run in the
  meantime: the clone of the call, if it is stored, becomes running and ready, and every
  other clone is as it was.
\<close>

lemma start_spawn_clones:
  "getClone (wm_clones (start_spawn st cloneId clone job integrations now child pid api_url)) k =
     (if k = cloneId
      then map_option (\<lambda>c. c\<lparr>clone_status := CReady, clone_isRunning := Some True,
                                 clone_updatedAt := now\<rparr>) (getClone (wm_clones st) k)
      else getClone (wm_clones st) k)"
  by (cases "map_of (wm_clones st) cloneId")
     (auto simp: start_spawn_def Let_def savePidFile_def wm_updateClone_def
        startHeartbeatMonitoring_def getClone_def apply_started updateClone_def update_conv')

text \<open>
  Claim C4 as stated (the status is unchanged by a start) fails: starting a worker for a
  clone whose status is failed leaves it ready.
\<close>

theorem C4_counterexample:
  "fst (startCloneWorker idle_manager ''c1'' 5 1 100 None) = Inr 100
   \<and> map_option clone_status (getClone (wm_clones idle_manager) ''c1'') = Some CFailed
   \<and> map_option clone_status
        (getClone (wm_clones (snd (startCloneWorker idle_manager ''c1'' 5 1 100 None))) ''c1'') = Some CReady"
  by (simp add: startCloneWorker_def start_guard_def start_lookup_def start_spawn_def
      idle_manager_def readPidFile_def getClone_def Let_def
      getJob_def savePidFile_def wm_updateClone_def updateClone_def apply_started
      startHeartbeatMonitoring_def)

text \<open>
  Claim C4, amended. A successful \<^verbatim>\<open>startCloneWorker(cloneId)\<close> sets the clone's
  \<^verbatim>\<open>isRunning\<close> to true, sets its \<^verbatim>\<open>status\<close> to ready, refreshes \<^verbatim>\<open>updatedAt\<close>, and changes
  no other field of that clone and no other clone.
\<close>

theorem C4_start_sets_running_and_ready:
  assumes "startCloneWorker st cloneId now child pid api_url = (Inr p, st')"
  shows "\<exists>clone. getClone (wm_clones st) cloneId = Some clone
           \<and> getClone (wm_clones st') cloneId =
               Some (clone\<lparr>clone_status := CReady, clone_isRunning := Some True,
                           clone_updatedAt := now\<rparr>)
           \<and> (\<forall>other. other \<noteq> cloneId \<longrightarrow>
                  getClone (wm_clones st') other = getClone (wm_clones st) other)"
proof -
  from assms have ok: "fst (startCloneWorker st cloneId now child pid api_url) = Inr p"
    and st': "st' = snd (startCloneWorker st cloneId now child pid api_url)" by simp_all
  from start_ok_unfold(2) [OF ok] obtain clone
    where clone: "getClone (wm_clones st) cloneId = Some clone" ..
  have cl: "wm_clones st' = fst (updateClone (wm_clones st) cloneId
                  (no_clone_data\<lparr>cd_isRunning := Some True, cd_status := Some CReady\<rparr>) now)"
    unfolding st' by (rule start_ok_unfold(5) [OF ok])
  have "getClone (wm_clones st') cloneId =
               Some (clone\<lparr>clone_status := CReady, clone_isRunning := Some True,
                           clone_updatedAt := now\<rparr>)"
    using clone unfolding cl getClone_def by (simp add: updateClone_same apply_started)
  moreover have "\<forall>other. other \<noteq> cloneId \<longrightarrow>
                  getClone (wm_clones st') other = getClone (wm_clones st) other"
    unfolding cl getClone_def by (simp add: updateClone_other)
  ultimately show ?thesis using clone by blast
qed

theorem C4_start_sets_running_and_ready_witness:
  "getClone (wm_clones (snd (startCloneWorker idle_manager ''c1'' 5 1 100 None))) ''c1'' =
     Some (sample_clone\<lparr>clone_status := CReady, clone_isRunning := Some True, clone_updatedAt := 5\<rparr>)"
proof -
  have run: "startCloneWorker idle_manager ''c1'' 5 1 100 None =
               (Inr 100, snd (startCloneWorker idle_manager ''c1'' 5 1 100 None))"
    by (simp add: startCloneWorker_def start_guard_def start_lookup_def idle_manager_def
        readPidFile_def getClone_def Let_def)
  have before: "getClone (wm_clones idle_manager) ''c1'' = Some (sample_clone\<lparr>clone_status := CFailed\<rparr>)"
    by (simp add: idle_manager_def getClone_def)
  from C4_start_sets_running_and_ready [OF run] before show ?thesis by auto
qed

subsection \<open>Starts that overlap\<close>

text \<open>
  The guard is the first statement of a call: a call made while the map has a record for
  the clone is rejected and changes nothing. A call that nothing interrupts and that
  succeeds finds no record for the clone and appends exactly one.
\<close>

lemma start_guard_rejects:
  "map_of (wm_workers st) cloneId \<noteq> None \<Longrightarrow>
   start_guard st cloneId = (Inl ''Worker already running'', st)"
  "map_of (wm_workers st) cloneId \<noteq> None \<Longrightarrow>
   startCloneWorker st cloneId now child pid api_url = (Inl ''Worker already running'', st)"
  "map_of (wm_workers (sv_manager s)) cloneId \<noteq> None \<Longrightarrow> sv_phase s r = NotCalled \<Longrightarrow>
   sv_step s (StartCalled r cloneId) =
     s\<lparr>sv_phase := (sv_phase s)(r := Replied (Inl ''Worker already running''))\<rparr>"
  by (simp_all add: start_guard_def startCloneWorker_def)

lemma start_alone_appends:
  assumes "fst (startCloneWorker st cloneId now child pid api_url) = Inr p"
  shows "cloneId \<notin> fst ` set (wm_workers st)"
    and "wm_workers (snd (startCloneWorker st cloneId now child pid api_url)) =
            wm_workers st @ [(cloneId, \<lparr>wr_child = child, wr_status = WStarting,
                                        wr_lastHeartbeat = now, wr_pid = pid\<rparr>)]"
proof -
  from start_ok_unfold(1) [OF assms] show fresh: "cloneId \<notin> fst ` set (wm_workers st)"
    by (simp add: map_of_eq_None_iff)
  with start_ok_unfold(4) [OF assms]
  show "wm_workers (snd (startCloneWorker st cloneId now child pid api_url)) =
            wm_workers st @ [(cloneId, \<lparr>wr_child = child, wr_status = WStarting,
                                        wr_lastHeartbeat = now, wr_pid = pid\<rparr>)]"
    by (simp add: update_fresh_appends)
qed

text \<open>
  Claim C6, at two requests to start the worker of clone \<^verbatim>\<open>c1\<close>, on a manager that has no
  worker, the second request made while the first awaits \<^verbatim>\<open>getIntegrations\<close>. Both calls pass
  the guard, since neither has stored its record yet, and both return
  \<^verbatim>\<open>{ ok: true, pid }\<close>: two worker processes are forked for the one clone. When the second
  call stores its record the map already holds the record of the first, and
  \<^verbatim>\<open>workers.set\<close> replaces it: the second call is not rejected and inserts no new entry. The
  map and the breadcrumb file then know the second process only; the first runs on, is
  never signalled, and its heartbeats are written to a record that has left the map.
\<close>

theorem C6_overlapping_starts_fork_twice:
  "sv_phase (sv_run idle_manager overlapping_starts) 1 = Replied (Inr 100)
   \<and> sv_phase (sv_run idle_manager overlapping_starts) 2 = Replied (Inr 200)
   \<and> map fst (wm_forked (sv_manager (sv_run idle_manager overlapping_starts))) = [100, 200]
   \<and> map (\<lambda>f. env_CLONE_ID (snd f)) (wm_forked (sv_manager (sv_run idle_manager overlapping_starts)))
       = [''c1'', ''c1'']
   \<and> wm_workers (sv_manager (sv_run idle_manager (take 3 overlapping_starts))) =
       [(''c1'', \<lparr>wr_child = 1, wr_status = WStarting, wr_lastHeartbeat = 5, wr_pid = 100\<rparr>)]
   \<and> sv_phase (sv_run idle_manager (take 3 overlapping_starts)) 2 =
       Loading ''c1'' (sample_clone\<lparr>clone_status := CFailed\<rparr>) None
   \<and> wm_workers (sv_manager (sv_run idle_manager overlapping_starts)) =
       [(''c1'', \<lparr>wr_child = 2, wr_status = WStarting, wr_lastHeartbeat = 6, wr_pid = 200\<rparr>)]
   \<and> wm_pidfiles (sv_manager (sv_run idle_manager overlapping_starts)) = [(''c1'', 200)]
   \<and> wm_signals (sv_manager (sv_run idle_manager overlapping_starts)) = []
   \<and> wm_workers (sv_manager (sv_run idle_manager
        (overlapping_starts @ [Handler (Message 1 ''c1'' MsgHeartbeat 7)]))) =
       [(''c1'', \<lparr>wr_child = 2, wr_status = WStarting, wr_lastHeartbeat = 6, wr_pid = 200\<rparr>)]"
  by (simp add: sv_run_def sv_init_def overlapping_starts_def idle_manager_def start_look_def
      start_guard_def start_lookup_def start_spawn_def readPidFile_def getClone_def getJob_def
      getIntegrations_body_def loadStore_def savePidFile_def wm_updateClone_def updateClone_def
      apply_started startHeartbeatMonitoring_def on_message_def write_record_def Let_def)

subsection \<open>The heartbeat monitor\<close>

lemma monitor_loop_workers:
  "map_of (fst (monitor_loop ws cl now)) k =
     map_option (\<lambda>r. if wr_status r = WRunning \<and> now - wr_lastHeartbeat r > HEARTBEAT_TIMEOUT_MS
                      then r\<lparr>wr_status := WError\<rparr> else r) (map_of ws k)"
  by (induction ws cl now rule: monitor_loop.induct) (auto split: prod.splits)

lemma updateClone_failed_keeps:
  "marked_failed cl k \<Longrightarrow>
   marked_failed (fst (updateClone cl k'
      (no_clone_data\<lparr>cd_status := Some CFailed, cd_isRunning := Some False\<rparr>) now)) k"
  by (cases "k' = k")
     (auto simp: marked_failed_def updateClone_other updateClone_same apply_failed split: option.splits)

lemma monitor_loop_keeps_failed:
  "marked_failed cl k \<Longrightarrow> marked_failed (snd (monitor_loop ws cl now)) k"
  by (induction ws cl now rule: monitor_loop.induct)
     (auto split: prod.splits simp: updateClone_failed_keeps)

lemma monitor_loop_clone_present:
  "map_of cl k \<noteq> None \<Longrightarrow> map_of (snd (monitor_loop ws cl now)) k \<noteq> None"
proof -
  have "map fst (snd (monitor_loop ws cl now)) = map fst cl"
    by (induction ws cl now rule: monitor_loop.induct)
       (auto split: prod.splits simp: updateClone_keys)
  then have "fst ` set (snd (monitor_loop ws cl now)) = fst ` set cl"
    by (metis set_map)
  then show "map_of cl k \<noteq> None \<Longrightarrow> map_of (snd (monitor_loop ws cl now)) k \<noteq> None"
    by (simp add: map_of_eq_None_iff)
qed

lemma monitor_loop_marks:
  "(k, r) \<in> set ws \<Longrightarrow> wr_status r = WRunning \<Longrightarrow>
   now - wr_lastHeartbeat r > HEARTBEAT_TIMEOUT_MS \<Longrightarrow> map_of cl k \<noteq> None \<Longrightarrow>
   marked_failed (snd (monitor_loop ws cl now)) k"
proof (induction ws cl now rule: monitor_loop.induct)
  case (1 clones now)
  then show ?case by simp
next
  case (2 cloneId rc rest clones now)
  show ?case
  proof (cases "(k, r) = (cloneId, rc)")
    case True
    let ?cl = "fst (updateClone clones cloneId
                 (no_clone_data\<lparr>cd_status := Some CFailed, cd_isRunning := Some False\<rparr>) now)"
    from "2.prems"(4) True obtain c where c: "map_of clones cloneId = Some c" by auto
    have "marked_failed ?cl k"
      using True c by (simp add: marked_failed_def updateClone_same apply_failed)
    then have "marked_failed (snd (monitor_loop rest ?cl now)) k"
      by (rule monitor_loop_keeps_failed)
    then show ?thesis using True "2.prems"(2,3) by (simp add: case_prod_beta)
  next
    case False
    with "2.prems"(1) have mem: "(k, r) \<in> set rest" by auto
    show ?thesis
    proof (cases "wr_status rc = WRunning \<and> now - wr_lastHeartbeat rc > HEARTBEAT_TIMEOUT_MS")
      case True
      let ?cl = "fst (updateClone clones cloneId
                   (no_clone_data\<lparr>cd_status := Some CFailed, cd_isRunning := Some False\<rparr>) now)"
      have "map fst ?cl = map fst clones" by (rule updateClone_keys)
      then have "fst ` set ?cl = fst ` set clones" by (metis set_map)
      with "2.prems"(4) have "map_of ?cl k \<noteq> None" by (simp add: map_of_eq_None_iff)
      with "2.IH"(1) True mem "2.prems"(2,3) have "marked_failed (snd (monitor_loop rest ?cl now)) k" by simp
      then show ?thesis using True by (simp add: case_prod_beta)
    next
      case F2: False
      with "2.IH"(2) mem "2.prems"(2,3,4) have "marked_failed (snd (monitor_loop rest clones now)) k" by simp
      then show ?thesis using F2 by (auto simp add: case_prod_beta)
    qed
  qed
qed

text \<open>
  Claim C7. For a worker whose record is running and whose last heartbeat is more than
  \<^const>\<open>HEARTBEAT_TIMEOUT_MS\<close> (20 s) old, one run of the monitor's interval callback sets the
  record to error and the stored clone to failed and not running, and sends no signal,
  arms no kill timer and forks nothing. (The 10 s period of the interval is the
  scheduler's and is not part of the callback.)
\<close>

theorem C7_heartbeat_timeout:
  assumes "map_of (wm_workers st) cloneId = Some record"
    and "wr_status record = WRunning"
    and "now - wr_lastHeartbeat record > HEARTBEAT_TIMEOUT_MS"
    and "getClone (wm_clones st) cloneId = Some clone"
  shows "map_of (wm_workers (monitor_tick st now)) cloneId = Some (record\<lparr>wr_status := WError\<rparr>)
       \<and> (\<exists>clone'. getClone (wm_clones (monitor_tick st now)) cloneId = Some clone'
              \<and> clone_status clone' = CFailed \<and> clone_isRunning clone' = Some False)
       \<and> wm_signals (monitor_tick st now) = wm_signals st
       \<and> wm_kill_timers (monitor_tick st now) = wm_kill_timers st
       \<and> wm_forked (monitor_tick st now) = wm_forked st"
proof -
  have w: "wm_workers (monitor_tick st now) = fst (monitor_loop (wm_workers st) (wm_clones st) now)"
    and c: "wm_clones (monitor_tick st now) = snd (monitor_loop (wm_workers st) (wm_clones st) now)"
    and s: "wm_signals (monitor_tick st now) = wm_signals st"
    and t: "wm_kill_timers (monitor_tick st now) = wm_kill_timers st"
    and f: "wm_forked (monitor_tick st now) = wm_forked st"
    by (simp_all add: monitor_tick_def split: prod.splits)
  have "(cloneId, record) \<in> set (wm_workers st)"
    using assms(1) by (rule map_of_SomeD)
  then have "marked_failed (wm_clones (monitor_tick st now)) cloneId"
    unfolding c using assms by (intro monitor_loop_marks) (auto simp: getClone_def)
  then have "\<exists>clone'. getClone (wm_clones (monitor_tick st now)) cloneId = Some clone'
              \<and> clone_status clone' = CFailed \<and> clone_isRunning clone' = Some False"
    by (auto simp: marked_failed_def getClone_def split: option.splits)
  moreover have "map_of (wm_workers (monitor_tick st now)) cloneId = Some (record\<lparr>wr_status := WError\<rparr>)"
    unfolding w using assms by (simp add: monitor_loop_workers)
  ultimately show ?thesis using s t f by simp
qed

theorem C7_heartbeat_timeout_witness:
  "map_of (wm_workers (monitor_tick busy_manager 20001)) ''c1'' = Some (silent_worker\<lparr>wr_status := WError\<rparr>)
   \<and> map_option clone_status (getClone (wm_clones (monitor_tick busy_manager 20001)) ''c1'') = Some CFailed
   \<and> wm_signals (monitor_tick busy_manager 20001) = []"
proof -
  have h: "map_of (wm_workers busy_manager) ''c1'' = Some silent_worker"
    "wr_status silent_worker = WRunning"
    "20001 - wr_lastHeartbeat silent_worker > HEARTBEAT_TIMEOUT_MS"
    "getClone (wm_clones busy_manager) ''c1'' =
       Some (sample_clone\<lparr>clone_status := CReady, clone_isRunning := Some True\<rparr>)"
    by (simp_all add: busy_manager_def silent_worker_def HEARTBEAT_TIMEOUT_MS_def getClone_def)
  have s: "wm_signals busy_manager = []" by (simp add: busy_manager_def)
  from C7_heartbeat_timeout [OF h] s show ?thesis by auto
qed

text \<open>
  Claim C10. A heartbeat message from the child of a record whose status is error sets
  the record back to running and refreshes \<^verbatim>\<open>lastHeartbeat\<close>, and leaves the clone store
  untouched: a clone that the timeout marked failed and not running stays so.
\<close>

theorem C10_heartbeat_revives_error:
  assumes "map_of (wm_workers st) cloneId = Some record"
    and "wr_child record = child"
    and "wr_status record = WError"
  shows "map_of (wm_workers (on_message st child cloneId MsgHeartbeat now)) cloneId
           = Some (record\<lparr>wr_status := WRunning, wr_lastHeartbeat := now\<rparr>)
       \<and> wm_clones (on_message st child cloneId MsgHeartbeat now) = wm_clones st"
  using assms by (simp add: on_message_def write_record_def update_conv')

theorem C10_heartbeat_revives_error_witness:
  "map_of (wm_workers (on_message (monitor_tick busy_manager 20001) 1 ''c1'' MsgHeartbeat 30000)) ''c1''
     = Some (silent_worker\<lparr>wr_status := WRunning, wr_lastHeartbeat := 30000\<rparr>)
   \<and> map_option clone_status
        (getClone (wm_clones (on_message (monitor_tick busy_manager 20001) 1 ''c1'' MsgHeartbeat 30000)) ''c1'')
       = Some CFailed
   \<and> map_option clone_isRunning
        (getClone (wm_clones (on_message (monitor_tick busy_manager 20001) 1 ''c1'' MsgHeartbeat 30000)) ''c1'')
       = Some (Some False)"
proof -
  have tick: "wm_workers (monitor_tick busy_manager 20001) = [(''c1'', silent_worker\<lparr>wr_status := WError\<rparr>)]"
    "wm_clones (monitor_tick busy_manager 20001) =
       [(''c1'', sample_clone\<lparr>clone_status := CFailed, clone_isRunning := Some False, clone_updatedAt := 20001\<rparr>)]"
    by (simp_all add: monitor_tick_def busy_manager_def silent_worker_def HEARTBEAT_TIMEOUT_MS_def
        updateClone_def apply_failed Let_def)
  have h: "map_of (wm_workers (monitor_tick busy_manager 20001)) ''c1'' = Some (silent_worker\<lparr>wr_status := WError\<rparr>)"
    "wr_child (silent_worker\<lparr>wr_status := WError\<rparr>) = 1"
    "wr_status (silent_worker\<lparr>wr_status := WError\<rparr>) = WError"
    by (simp_all add: tick silent_worker_def)
  from C10_heartbeat_revives_error [OF h, of 30000] show ?thesis
    by (simp add: tick getClone_def)
qed

section \<open>The training pipeline\<close>

subsection \<open>The three writes\<close>

lemma status_edge_refl [simp]: "status_edge s s"
  by (simp add: status_edge_def)

lemma commit_fields [simp]:
  "ps_db (commit st db) = db"
  "ps_now (commit st db) = ps_now st"
  "ps_spawned (commit st db) = ps_spawned st"
  "ps_history (commit st db) = ps_history st @ [db]"
  "ps_inflight (commit st db) = ps_inflight st"
  "ps_answers (commit st db) = ps_answers st"
  "ps_awaits (commit st db) = ps_awaits st"
  by (simp_all add: commit_def)

lemma history_ok_commit:
  "history_ok st \<Longrightarrow> db_forward (ps_db st) db \<Longrightarrow> history_ok (commit st db)"
  by (auto simp: history_ok_def successively_append_iff)

lemma update_logs_clones [simp]:
  "clones_table (update_logs db k l now) = clones_table db"
  by (simp add: update_logs_def split: option.splits)

lemma update_logs_jobs:
  "training_jobs (update_logs db k l now) k' =
     (if k' = k
      then map_option (\<lambda>r. r\<lparr>sj_logs := l, sj_updated_at := now\<rparr>) (training_jobs db k)
      else training_jobs db k')"
  by (simp add: update_logs_def split: option.splits)

lemma appendLogRepo_clones [simp]:
  "clones_table (appendLogRepo db k line now) = clones_table db"
  by (simp add: appendLogRepo_def split: option.splits)

lemma appendLogRepo_jobs:
  "training_jobs (appendLogRepo db k line now) k' =
     (if k' = k
      then map_option (\<lambda>r. r\<lparr>sj_logs := sj_logs r @ [line], sj_updated_at := now\<rparr>)
             (training_jobs db k)
      else training_jobs db k')"
  by (auto simp: appendLogRepo_def select_logs_def update_logs_jobs split: option.splits)

lemma updateJobRepo_clones [simp]:
  "clones_table (fst (updateJobRepo db k u now)) = clones_table db"
  by (simp add: updateJobRepo_def Let_def split: option.splits)

lemma updateJobRepo_jobs:
  "training_jobs (fst (updateJobRepo db k u now)) k' =
     (if k' = k then map_option (\<lambda>r. mapped_job_updates r u now) (training_jobs db k)
      else training_jobs db k')"
  by (simp add: updateJobRepo_def Let_def split: option.splits)

lemma updateCloneRepo_jobs [simp]:
  "training_jobs (fst (updateCloneRepo db k u now)) = training_jobs db"
  by (simp add: updateCloneRepo_def Let_def split: option.splits)

lemma updateCloneRepo_clones:
  "clones_table (fst (updateCloneRepo db k u now)) k' =
     (if k' = k then map_option (\<lambda>r. mapped_clone_updates r u now) (clones_table db k)
      else clones_table db k')"
  by (simp add: updateCloneRepo_def Let_def split: option.splits)

lemma mapped_job_updates_fields:
  "sj_status (mapped_job_updates r u now) = (case jd_status u of Some s \<Rightarrow> s | None \<Rightarrow> sj_status r)"
  "sj_clone_id (mapped_job_updates r u now) = sj_clone_id r"
  "sj_error (mapped_job_updates r u now) = (if truthy (jd_error u) then jd_error u else sj_error r)"
  "sj_logs (mapped_job_updates r u now) = (case jd_logs u of Some l \<Rightarrow> l | None \<Rightarrow> sj_logs r)"
  by (simp_all add: mapped_job_updates_def Let_def split: option.splits)

lemma mapped_clone_updates_status:
  "sc_status (mapped_clone_updates r u now) = (case cd_status u of Some s \<Rightarrow> s | None \<Rightarrow> sc_status r)"
  by (simp add: mapped_clone_updates_def Let_def split: option.splits)

subsection \<open>Answers of the database\<close>

lemma db_forward_same_status:
  "(\<And>k. map_option sj_status (training_jobs b k) = map_option sj_status (training_jobs a k))
   \<Longrightarrow> db_forward a b"
  unfolding db_forward_def
proof
  fix k
  assume h: "\<And>k. map_option sj_status (training_jobs b k) = map_option sj_status (training_jobs a k)"
  show "case training_jobs a k of None \<Rightarrow> True
        | Some r \<Rightarrow> (case training_jobs b k of None \<Rightarrow> False
                      | Some r' \<Rightarrow> status_edge (sj_status r) (sj_status r'))"
    using h [of k] by (auto split: option.splits)
qed

lemma db_forward_update_logs: "db_forward db (update_logs db k l now)"
  by (rule db_forward_same_status) (simp add: update_logs_jobs option.map_comp comp_def)

text \<open>
  An answer of the database to a call in flight writes at most the \<^verbatim>\<open>logs\<close> and the
  \<^verbatim>\<open>updated_at\<close> of a stored job.
\<close>

lemma answer_fields [simp]:
  "ps_now (answer st i) = ps_now st"
  "ps_spawned (answer st i) = ps_spawned st"
  "ps_answers (answer st i) = ps_answers st"
  "ps_awaits (answer st i) = ps_awaits st"
  "clones_table (ps_db (answer st i)) = clones_table (ps_db st)"
  by (simp_all add: answer_def split: log_request.splits option.splits)

lemma answer_keeps:
  assumes "\<And>r l t. f (r\<lparr>sj_logs := l, sj_updated_at := t\<rparr>) = f r"
  shows "map_option f (training_jobs (ps_db (answer st i)) k) =
           map_option f (training_jobs (ps_db st) k)"
  by (simp add: answer_def update_logs_jobs option.map_comp comp_def assms
      split: log_request.splits option.splits)

lemma answer_history_ok: "history_ok st \<Longrightarrow> history_ok (answer st i)"
proof -
  assume h: "history_ok st"
  have upd: "history_ok (commit (st\<lparr>ps_inflight := x\<rparr>) (update_logs (ps_db st) k l t))" for x k l t
  proof -
    have "history_ok (st\<lparr>ps_inflight := x\<rparr>)" using h by (simp add: history_ok_def)
    moreover have "db_forward (ps_db (st\<lparr>ps_inflight := x\<rparr>)) (update_logs (ps_db st) k l t)"
      by (simp add: db_forward_update_logs)
    ultimately show ?thesis by (rule history_ok_commit)
  qed
  have same: "history_ok (st\<lparr>ps_inflight := x\<rparr>)" for x
    using h by (simp add: history_ok_def)
  show ?thesis
    by (simp add: answer_def upd same h split: log_request.splits option.splits)
qed

lemma answer_job_at: "job_at j s c st \<Longrightarrow> job_at j s c (answer st i)"
proof -
  assume a: "job_at j s c st"
  then have h: "history_ok (answer st i)" by (simp add: job_at_def answer_history_ok)
  have "map_option sj_status (training_jobs (ps_db (answer st i)) j) =
          map_option sj_status (training_jobs (ps_db st) j)"
    and "map_option sj_clone_id (training_jobs (ps_db (answer st i)) j) =
          map_option sj_clone_id (training_jobs (ps_db st) j)"
    by (rule answer_keeps, simp)+
  with a h show ?thesis by (auto simp: job_at_def split: option.splits)
qed

lemma answers_induct:
  assumes "P st" and "\<And>s i. P s \<Longrightarrow> P (answer s i)"
  shows "P (foldl answer st ns)"
  using assms(1) by (induction ns arbitrary: st) (simp_all add: assms(2))

lemma settle_fields [simp]:
  "ps_now (settle st) = ps_now st"
  "ps_spawned (settle st) = ps_spawned st"
  "ps_answers (settle st) = ps_answers st"
  "clones_table (ps_db (settle st)) = clones_table (ps_db st)"
proof -
  let ?st = "st\<lparr>ps_awaits := ps_awaits st + 1\<rparr>"
  let ?ns = "ps_answers st (ps_awaits st) (length (ps_inflight st))"
  have "ps_now (foldl answer ?st ?ns) = ps_now st"
    by (rule answers_induct) simp_all
  then show "ps_now (settle st) = ps_now st" by (simp add: settle_def)
  have "ps_spawned (foldl answer ?st ?ns) = ps_spawned st"
    by (rule answers_induct) simp_all
  then show "ps_spawned (settle st) = ps_spawned st" by (simp add: settle_def)
  have "ps_answers (foldl answer ?st ?ns) = ps_answers st"
    by (rule answers_induct) simp_all
  then show "ps_answers (settle st) = ps_answers st" by (simp add: settle_def)
  have "clones_table (ps_db (foldl answer ?st ?ns)) = clones_table (ps_db st)"
    by (rule answers_induct) simp_all
  then show "clones_table (ps_db (settle st)) = clones_table (ps_db st)" by (simp add: settle_def)
qed

lemma settle_keeps:
  assumes "\<And>r l t. f (r\<lparr>sj_logs := l, sj_updated_at := t\<rparr>) = f r"
  shows "map_option f (training_jobs (ps_db (settle st)) k) =
           map_option f (training_jobs (ps_db st) k)"
proof -
  have "map_option f (training_jobs (ps_db (foldl answer (st\<lparr>ps_awaits := ps_awaits st + 1\<rparr>)
            (ps_answers st (ps_awaits st) (length (ps_inflight st))))) k) =
          map_option f (training_jobs (ps_db st) k)"
    by (rule answers_induct) (simp_all add: answer_keeps [of f, OF assms])
  then show ?thesis by (simp add: settle_def)
qed

lemma settle_absent:
  "(training_jobs (ps_db (settle st)) k = None) = (training_jobs (ps_db st) k = None)"
proof -
  have "map_option (\<lambda>r. ()) (training_jobs (ps_db (settle st)) k) =
          map_option (\<lambda>r. ()) (training_jobs (ps_db st) k)"
    by (rule settle_keeps) simp
  then show ?thesis
    by (cases "training_jobs (ps_db (settle st)) k"; cases "training_jobs (ps_db st) k") simp_all
qed

lemma settle_history_ok: "history_ok st \<Longrightarrow> history_ok (settle st)"
proof -
  assume "history_ok st"
  then have "history_ok (st\<lparr>ps_awaits := ps_awaits st + 1\<rparr>)" by (simp add: history_ok_def)
  then have "history_ok (foldl answer (st\<lparr>ps_awaits := ps_awaits st + 1\<rparr>)
               (ps_answers st (ps_awaits st) (length (ps_inflight st))))"
    by (rule answers_induct) (rule answer_history_ok)
  then show ?thesis by (simp add: settle_def)
qed

lemma settle_job_at: "job_at j s c st \<Longrightarrow> job_at j s c (settle st)"
proof -
  assume "job_at j s c st"
  then have "job_at j s c (st\<lparr>ps_awaits := ps_awaits st + 1\<rparr>)"
    by (simp add: job_at_def history_ok_def)
  then have "job_at j s c (foldl answer (st\<lparr>ps_awaits := ps_awaits st + 1\<rparr>)
               (ps_answers st (ps_awaits st) (length (ps_inflight st))))"
    by (rule answers_induct) (rule answer_job_at)
  then show ?thesis by (simp add: settle_def)
qed

text \<open>From a tidy state an await changes nothing but the count of awaits.\<close>

lemma settle_tidy: "tidy st \<Longrightarrow> settle st = st\<lparr>ps_awaits := Suc (ps_awaits st)\<rparr>"
  by (simp add: settle_def tidy_def orderly_def)

lemma tidy_fields [simp]:
  "tidy (st\<lparr>ps_awaits := n\<rparr>) = tidy st"
  "tidy (st\<lparr>ps_now := t\<rparr>) = tidy st"
  "tidy (st\<lparr>ps_spawned := x\<rparr>) = tidy st"
  "tidy (commit st db) = tidy st"
  by (simp_all add: tidy_def orderly_def)

lemma has_log_fields [simp]:
  "has_log (st\<lparr>ps_awaits := n\<rparr>) j l = has_log st j l"
  "has_log (st\<lparr>ps_now := t\<rparr>) j l = has_log st j l"
  "has_log (st\<lparr>ps_spawned := x\<rparr>) j l = has_log st j l"
  "has_log (st\<lparr>ps_inflight := q\<rparr>) j l = has_log st j l"
  by (simp_all add: has_log_def)

lemma has_log_update_logs:
  "select_logs (ps_db st) k = Some logs \<Longrightarrow> has_log st j l \<Longrightarrow>
   has_log (commit st' (update_logs (ps_db st) k (logs @ [line]) now)) j l"
  by (auto simp: has_log_def select_logs_def update_logs_jobs split: option.splits)

text \<open>
  When the database answers at once and one call is in flight, an await completes the
  call: its line is appended to the log as it stands.
\<close>

lemma settle_short:
  assumes "short st"
  shows "tidy (settle st)" and "has_log st j l \<Longrightarrow> has_log (settle st) j l"
proof -
  from assms have o: "orderly st" by (simp add: short_def)
  show "tidy (settle st)"
    using assms
    by (auto simp: short_def settle_def tidy_def orderly_def answer_def eval_nat_numeral
        split: option.splits)
  show "has_log st j l \<Longrightarrow> has_log (settle st) j l"
    using assms
    by (auto simp: short_def settle_def orderly_def answer_def eval_nat_numeral has_log_def
        select_logs_def update_logs_jobs split: option.splits if_splits)
qed

subsection \<open>Writes that keep every status\<close>

lemma job_at_write:
  assumes "job_at j s c st"
    and "\<And>k. map_option sj_status (training_jobs db k) = map_option sj_status (training_jobs (ps_db st) k)"
    and "map_option sj_clone_id (training_jobs db j) = map_option sj_clone_id (training_jobs (ps_db st) j)"
  shows "job_at j s c (commit st db)"
proof -
  from assms(1) have "history_ok st" by (simp add: job_at_def)
  moreover have "db_forward (ps_db st) db" using assms(2) by (rule db_forward_same_status)
  ultimately have "history_ok (commit st db)" by (rule history_ok_commit)
  moreover from assms(1) obtain r where "training_jobs (ps_db st) j = Some r" "sj_status r = s"
      "sj_clone_id r = c"
    by (auto simp: job_at_def split: option.splits)
  ultimately show ?thesis using assms(2) [of j] assms(3)
    by (auto simp: job_at_def split: option.splits)
qed

lemma job_at_appendLog:
  "job_at j s c st \<Longrightarrow> job_at j s c (do_appendLog st k line)"
proof -
  assume a: "job_at j s c st"
  then have a1: "job_at j s c (settle st)" by (rule settle_job_at)
  then have a2: "job_at j s c (settle (settle st))" by (rule settle_job_at)
  have "job_at j s c (commit (settle (settle st))
          (update_logs (ps_db (settle (settle st))) k l t))" for l t
    using a2 by (rule job_at_write) (simp_all add: update_logs_jobs option.map_comp comp_def)
  with a1 show ?thesis
    by (simp add: do_appendLog_def Let_def split: option.splits)
qed

lemma job_at_updateClone:
  "job_at j s c st \<Longrightarrow> job_at j s c (do_updateClone st k u)"
  unfolding do_updateClone_def Let_def
  by (rule job_at_write) (simp_all add: settle_job_at)

lemma job_at_updateJob_quiet:
  "job_at j s c st \<Longrightarrow> jd_status u = None \<Longrightarrow> job_at j s c (do_updateJob st k u)"
  unfolding do_updateJob_def Let_def
  by (rule job_at_write)
     (simp_all add: settle_job_at updateJobRepo_jobs mapped_job_updates_fields
        option.map_comp comp_def)

lemma job_at_updateJob_step:
  assumes "job_at j s c st" "jd_status u = Some s'" "status_edge s s'"
  shows "job_at j s' c (do_updateJob st j u)"
proof -
  define st1 where "st1 = settle st"
  from assms(1) have "job_at j s c st1" unfolding st1_def by (rule settle_job_at)
  then obtain r where r: "training_jobs (ps_db st1) j = Some r" "sj_status r = s"
      "sj_clone_id r = c" and h: "history_ok st1"
    by (auto simp: job_at_def split: option.splits)
  have "db_forward (ps_db st1) (fst (updateJobRepo (ps_db st1) j u (ps_now st1)))"
    unfolding db_forward_def
  proof
    fix k
    show "case training_jobs (ps_db st1) k of None \<Rightarrow> True
        | Some r \<Rightarrow> (case training_jobs (fst (updateJobRepo (ps_db st1) j u (ps_now st1))) k of
                        None \<Rightarrow> False
                      | Some r' \<Rightarrow> status_edge (sj_status r) (sj_status r'))"
      using r assms(2,3)
      by (cases "k = j") (auto simp: updateJobRepo_jobs mapped_job_updates_fields split: option.splits)
  qed
  with h have "history_ok (commit st1 (fst (updateJobRepo (ps_db st1) j u (ps_now st1))))"
    by (rule history_ok_commit)
  then show ?thesis
    using r assms(2)
    by (simp add: job_at_def do_updateJob_def Let_def st1_def [symmetric] updateJobRepo_jobs
        mapped_job_updates_fields)
qed

subsection \<open>Quiet and calm steps\<close>

lemma calm_refl [simp]: "calm st st"
  by (simp add: calm_def)

lemma quiet_refl [simp]: "quiet st st"
  by (simp add: quiet_def)

lemma calm_trans: "calm a b \<Longrightarrow> calm b c \<Longrightarrow> calm a c"
  by (simp add: calm_def)

lemma quiet_trans: "quiet a b \<Longrightarrow> quiet b c \<Longrightarrow> quiet a c"
  by (auto simp: quiet_def intro: calm_trans)

lemma quiet_calm: "quiet a b \<Longrightarrow> calm a b"
  by (simp add: quiet_def)

lemma quiet_job_at: "quiet a b \<Longrightarrow> job_at j s c a \<Longrightarrow> job_at j s c b"
  by (simp add: quiet_def)

lemma calm_has_log: "calm a b \<Longrightarrow> tidy a \<Longrightarrow> has_log a j l \<Longrightarrow> has_log b j l"
  by (simp add: calm_def)

lemma calm_tidy: "calm a b \<Longrightarrow> tidy a \<Longrightarrow> tidy b"
  by (simp add: calm_def)

lemma calm_clones: "calm a b \<Longrightarrow> clones_table (ps_db b) = clones_table (ps_db a)"
  by (simp add: calm_def)

lemma quiet_settle: "quiet st (settle st)"
  by (auto simp: quiet_def calm_def settle_job_at settle_tidy)

text \<open>From a tidy state an awaited \<^verbatim>\<open>appendLogRepo\<close> appends its line to the log as it stands.\<close>

lemma do_appendLog_tidy:
  assumes "tidy st"
  shows "ps_db (do_appendLog st k line) = appendLogRepo (ps_db st) k line (ps_now st)"
    and "tidy (do_appendLog st k line)"
proof -
  have s1: "settle st = st\<lparr>ps_awaits := Suc (ps_awaits st)\<rparr>" using assms by (rule settle_tidy)
  have "tidy (st\<lparr>ps_awaits := Suc (ps_awaits st)\<rparr>)" using assms by simp
  then have s2: "settle (st\<lparr>ps_awaits := Suc (ps_awaits st)\<rparr>) =
                   st\<lparr>ps_awaits := Suc (Suc (ps_awaits st))\<rparr>"
    using settle_tidy [of "st\<lparr>ps_awaits := Suc (ps_awaits st)\<rparr>"] by simp
  show "ps_db (do_appendLog st k line) = appendLogRepo (ps_db st) k line (ps_now st)"
    by (simp add: do_appendLog_def Let_def s1 s2 appendLogRepo_def split: option.splits)
  show "tidy (do_appendLog st k line)"
    using assms by (simp add: do_appendLog_def Let_def s1 s2 split: option.splits)
qed

lemma calm_appendLog: "calm st (do_appendLog st k line)"
proof -
  have "clones_table (ps_db (do_appendLog st k line)) = clones_table (ps_db st)"
    by (simp add: do_appendLog_def Let_def split: option.splits)
  moreover have "has_log (do_appendLog st k line) j l" if "tidy st" "has_log st j l" for j l
    using that do_appendLog_tidy(1) [OF that(1), of k line]
    by (auto simp: has_log_def appendLogRepo_jobs split: option.splits if_splits)
  ultimately show ?thesis by (simp add: calm_def do_appendLog_tidy(2))
qed

lemma quiet_appendLog: "quiet st (do_appendLog st k line)"
  by (simp add: quiet_def calm_appendLog job_at_appendLog)

lemma has_log_appendLog:
  "tidy st \<Longrightarrow> training_jobs (ps_db st) k \<noteq> None \<Longrightarrow> has_log (do_appendLog st k line) k line"
  using do_appendLog_tidy(1) [of st k line]
  by (auto simp: has_log_def appendLogRepo_jobs)

lemma calm_updateJob: "jd_logs u = None \<Longrightarrow> calm st (do_updateJob st k u)"
proof -
  assume u: "jd_logs u = None"
  have "clones_table (ps_db (do_updateJob st k u)) = clones_table (ps_db st)"
    by (simp add: do_updateJob_def Let_def)
  moreover have "tidy (do_updateJob st k u)" if "tidy st"
    using that by (simp add: do_updateJob_def Let_def settle_tidy)
  moreover have "has_log (do_updateJob st k u) j l" if "tidy st" "has_log st j l" for j l
    using that u
    by (auto simp: do_updateJob_def Let_def settle_tidy has_log_def updateJobRepo_jobs
        mapped_job_updates_fields split: option.splits if_splits)
  ultimately show ?thesis by (simp add: calm_def)
qed

lemma quiet_updateJob:
  "jd_logs u = None \<Longrightarrow> jd_status u = None \<Longrightarrow> quiet st (do_updateJob st k u)"
  by (simp add: quiet_def calm_updateJob job_at_updateJob_quiet)

lemma quiet_clock: "quiet st (st\<lparr>ps_now := t\<rparr>)"
  by (simp add: quiet_def calm_def job_at_def history_ok_def)

lemma quiet_spawned: "quiet st (st\<lparr>ps_spawned := x\<rparr>)"
  by (simp add: quiet_def calm_def job_at_def history_ok_def)

lemma spawned_appendLog [simp]: "ps_spawned (do_appendLog st k line) = ps_spawned st"
  by (simp add: do_appendLog_def Let_def split: option.splits)

lemma spawned_updateJob [simp]: "ps_spawned (do_updateJob st k u) = ps_spawned st"
  by (simp add: do_updateJob_def Let_def)

lemma spawned_updateClone [simp]: "ps_spawned (do_updateClone st k u) = ps_spawned st"
  by (simp add: do_updateClone_def Let_def)

subsection \<open>The output of a stage\<close>

lemma send_appendLog_fields [simp]:
  "ps_db (send_appendLog st k line) = ps_db st"
  "ps_spawned (send_appendLog st k line) = ps_spawned st"
  "ps_now (send_appendLog st k line) = ps_now st"
  "ps_answers (send_appendLog st k line) = ps_answers st"
  "ps_inflight (send_appendLog st k line) = ps_inflight st @ [Reading k line]"
  by (simp_all add: send_appendLog_def)

lemma job_at_send: "job_at j s c st \<Longrightarrow> job_at j s c (send_appendLog st k line)"
  by (simp add: job_at_def history_ok_def send_appendLog_def)

lemma log_loop_job_at:
  "job_at j s c st \<Longrightarrow>
   job_at j s c (foldl (\<lambda>s data. send_appendLog (settle s) k data) st chunks)"
  by (induction chunks arbitrary: st) (simp_all add: job_at_send settle_job_at)

lemma log_loop_fields [simp]:
  "ps_spawned (foldl (\<lambda>s data. send_appendLog (settle s) k data) st chunks) = ps_spawned st"
  "clones_table (ps_db (foldl (\<lambda>s data. send_appendLog (settle s) k data) st chunks)) =
     clones_table (ps_db st)"
  by (induction chunks arbitrary: st) simp_all

lemma short_send: "tidy st \<Longrightarrow> short (send_appendLog st k line)"
  by (simp add: tidy_def short_def orderly_def)

lemma log_loop_short:
  "short st \<Longrightarrow>
   short (foldl (\<lambda>s data. send_appendLog (settle s) k data) st chunks)
   \<and> (\<forall>j l. has_log st j l \<longrightarrow>
          has_log (foldl (\<lambda>s data. send_appendLog (settle s) k data) st chunks) j l)"
proof (induction chunks arbitrary: st)
  case Nil
  then show ?case by simp
next
  case (Cons c chunks)
  from settle_short [OF Cons.prems] have t: "tidy (settle st)"
    and l: "\<And>j l. has_log st j l \<Longrightarrow> has_log (settle st) j l" by blast+
  from t have "short (send_appendLog (settle st) k c)" by (rule short_send)
  from Cons.IH [OF this] l show ?case by (simp add: has_log_def)
qed

subsection \<open>Running one stage\<close>

lemma runLoggedProcess_result:
  "fst (runLoggedProcess w st j label command args) =
     (if sr_code (w_process w label) \<noteq> Some 0
      then Inl (label @ '' exited with code '' @ show_code (sr_code (w_process w label)))
      else Inr ())"
  by (simp add: runLoggedProcess_def Let_def)

lemma runLoggedProcess_spawned:
  "ps_spawned (snd (runLoggedProcess w st j label command args)) =
     ps_spawned st @ [(label, command # args)]"
  by (simp add: runLoggedProcess_def Let_def)

lemma runLoggedProcess_quiet:
  "quiet st (snd (runLoggedProcess w st j label command args))"
proof -
  let ?st1 = "st\<lparr>ps_spawned := ps_spawned st @ [(label, command # args)]\<rparr>"
  let ?st2 = "foldl (\<lambda>s data. send_appendLog (settle s) j data) ?st1 (sr_output (w_process w label))"
  let ?st3 = "settle (?st2\<lparr>ps_now := ps_now ?st2 + sr_duration (w_process w label)\<rparr>)"
  have eq: "snd (runLoggedProcess w st j label command args) = ?st3"
    by (simp add: runLoggedProcess_def Let_def)
  have jobs: "job_at k s c ?st3" if "job_at k s c st" for k s c
  proof -
    from that have "job_at k s c ?st1" by (simp add: job_at_def history_ok_def)
    then have "job_at k s c ?st2" by (rule log_loop_job_at)
    then have "job_at k s c (?st2\<lparr>ps_now := ps_now ?st2 + sr_duration (w_process w label)\<rparr>)"
      by (simp add: job_at_def history_ok_def)
    then show ?thesis by (rule settle_job_at)
  qed
  have clones: "clones_table (ps_db ?st3) = clones_table (ps_db st)" by simp
  have logs: "tidy ?st3 \<and> (\<forall>k l. has_log st k l \<longrightarrow> has_log ?st3 k l)" if "tidy st"
  proof -
    from that have "short ?st1" by (simp add: tidy_def short_def orderly_def)
    from log_loop_short [OF this, of j "sr_output (w_process w label)"]
    have s2: "short ?st2" and l2: "\<And>k l. has_log st k l \<Longrightarrow> has_log ?st2 k l" by simp_all
    from s2 have s2': "short (?st2\<lparr>ps_now := ps_now ?st2 + sr_duration (w_process w label)\<rparr>)"
      by (simp add: short_def orderly_def)
    from settle_short [OF s2'] l2 show ?thesis by simp
  qed
  from jobs clones logs show ?thesis unfolding eq quiet_def calm_def by blast
qed

lemma readKnowledgeStats_quiet: "quiet st (snd (readKnowledgeStats w st j f))"
  by (simp add: readKnowledgeStats_def Let_def quiet_appendLog split: option.splits)

lemma readKnowledgeStats_spawned [simp]:
  "ps_spawned (snd (readKnowledgeStats w st j f)) = ps_spawned st"
  by (simp add: readKnowledgeStats_def Let_def split: option.splits)

lemma runLoggedProcess_cases:
  obtains st1 where
    "runLoggedProcess w st j label command args =
       (if stage_ok w label then Inr () else Inl (exit_message w label), st1)"
    and "quiet st st1"
    and "ps_spawned st1 = ps_spawned st @ [(label, command # args)]"
proof -
  obtain r st1 where run: "runLoggedProcess w st j label command args = (r, st1)"
    by (cases "runLoggedProcess w st j label command args")
  have "r = (if stage_ok w label then Inr () else Inl (exit_message w label))"
    using runLoggedProcess_result [of w st j label command args] run
    by (simp add: stage_ok_def exit_message_def)
  moreover have "quiet st st1"
    using runLoggedProcess_quiet [of st w j label command args] run by simp
  moreover have "ps_spawned st1 = ps_spawned st @ [(label, command # args)]"
    using runLoggedProcess_spawned [of w st j label command args] run by simp
  ultimately show ?thesis using run that by simp
qed

lemma runRagIndex_cases:
  obtains st2 where
    "runRagIndex w st j kf dir =
       (if stage_ok w ''rag_index'' then (Inr (), do_appendLog st2 j (''RAG index saved to '' @ dir))
        else (Inl (exit_message w ''rag_index''), st2))"
    and "quiet st st2"
    and "map fst (ps_spawned st2) = map fst (ps_spawned st) @ [''rag_index'']"
proof -
  let ?st1 = "do_appendLog st j (''Building RAG index from '' @ kf)"
  let ?args = "filter_Boolean [''-m'', ''rag.index_builder'', ''--knowledge-file'', kf, ''--output-dir'', dir]"
  obtain st2 where run: "runLoggedProcess w ?st1 j ''rag_index'' ''python3'' ?args =
       (if stage_ok w ''rag_index'' then Inr () else Inl (exit_message w ''rag_index''), st2)"
    and q2: "quiet ?st1 st2"
    and s2: "ps_spawned st2 = ps_spawned ?st1 @ [(''rag_index'', ''python3'' # ?args)]"
    by (rule runLoggedProcess_cases)
  have "quiet st ?st1" by (rule quiet_appendLog)
  then have q: "quiet st st2" using q2 by (rule quiet_trans)
  have s: "map fst (ps_spawned st2) = map fst (ps_spawned st) @ [''rag_index'']"
    using s2 by simp
  have "runRagIndex w st j kf dir =
       (if stage_ok w ''rag_index'' then (Inr (), do_appendLog st2 j (''RAG index saved to '' @ dir))
        else (Inl (exit_message w ''rag_index''), st2))"
    unfolding runRagIndex_def Let_def run by simp
  with q s show ?thesis using that by blast
qed

subsection \<open>The clone that a job names\<close>

lemma update_linked_clone_unlinked:
  assumes "job_at j s None st"
  shows "update_linked_clone st j u = settle st"
proof -
  from assms have "job_at j s None (settle st)" by (rule settle_job_at)
  then show ?thesis
    by (auto simp: update_linked_clone_def Let_def job_at_def getJob_repo_def mapToJobRecord_def
        or_undefined_def truthy_def split: option.splits)
qed

lemma update_linked_clone_linked:
  assumes "job_at j s (Some c) st" and "c \<noteq> []"
  shows "update_linked_clone st j u = do_updateClone (settle st) c u"
proof -
  from assms(1) have "job_at j s (Some c) (settle st)" by (rule settle_job_at)
  then show ?thesis using assms(2)
    by (auto simp: update_linked_clone_def Let_def job_at_def getJob_repo_def mapToJobRecord_def
        or_undefined_def truthy_def split: option.splits)
qed

subsection \<open>The three stages\<close>

lemma readKnowledgeStats_result: "fst (readKnowledgeStats w st j f) = knowledge_stats w"
  by (simp add: readKnowledgeStats_def knowledge_stats_def Let_def split: option.splits)

text \<open>
  The counters of a plain object, on a file of five lines: the line whose source is
  \<^verbatim>\<open>toString\<close> is not counted, the line that does not parse is skipped, and the source \<^verbatim>\<open>9\<close>,
  which is an array index, is listed before the sources that were counted before it.
\<close>

lemma counters_of_a_plain_object:
  "knowledge_stats ((sample_world procs)\<lparr>w_knowledge_file :=
       Some [Entry (Some ''toString''), Entry (Some ''b''), BadJson, Entry (Some ''9''),
             Entry (Some ''b'')]\<rparr>) =
     (3, [\<lparr>ks_source = ''9'', ks_chunks = 1, ks_displayName = Some ''9'', ks_size = None\<rparr>,
          \<lparr>ks_source = ''b'', ks_chunks = 2, ks_displayName = Some ''b'', ks_size = None\<rparr>])"
  by (simp add: sample_world_def knowledge_stats_def or_else_def truthy_def basename_def Let_def
      Object_prototype_members_def Object_values_def is_array_index_def nat_of_decimal_def)

text \<open>\<^const>\<open>trim\<close> strips the no-break space with the ASCII white space, at both ends only.\<close>

lemma trim_strips:
  "trim [CHR 0xA0, CHR 0x09, CHR ''a'', CHR '' '', CHR ''b'', CHR 0x0A, CHR 0xA0] = ''a b''"
  by (simp add: trim_def is_space_def)

lemma readKnowledgeStats_cases:
  obtains st2 where
    "readKnowledgeStats w st j f = ((fst (knowledge_stats w), snd (knowledge_stats w)), st2)"
    and "quiet st st2" and "ps_spawned st2 = ps_spawned st"
proof -
  obtain r st2 where run: "readKnowledgeStats w st j f = (r, st2)"
    by (cases "readKnowledgeStats w st j f")
  have "r = knowledge_stats w" using readKnowledgeStats_result [of w st j f] run by simp
  moreover have "quiet st st2" using readKnowledgeStats_quiet [of st w j f] run by simp
  moreover have "ps_spawned st2 = ps_spawned st"
    using readKnowledgeStats_spawned [of w st j f] run by simp
  ultimately show ?thesis using run that by simp
qed

lemma spawned_update_linked_clone [simp]:
  "ps_spawned (update_linked_clone st j u) = ps_spawned st"
  by (simp add: update_linked_clone_def Let_def split: option.splits)

lemma job_present: "job_at j s c st \<Longrightarrow> training_jobs (ps_db st) j \<noteq> None"
  by (auto simp: job_at_def split: option.splits)

text \<open>Stage 1 on a job that names no clone.\<close>

lemma pipeline_stage1_cases:
  assumes "job_at j s None st"
  obtains st' where
    "pipeline_stage1 w st j p =
       (if stage_ok w ''dataset_pipeline'' then Inr (fst (knowledge_stats w))
        else Inl (exit_message w ''dataset_pipeline''), st')"
    and "quiet st st'"
    and "map fst (ps_spawned st') = map fst (ps_spawned st) @ [''dataset_pipeline'']"
proof -
  obtain st1 where run: "runLoggedProcess w st j ''dataset_pipeline'' ''python3''
        (filter_Boolean (cliArgs w j p)) =
       (if stage_ok w ''dataset_pipeline'' then Inr () else Inl (exit_message w ''dataset_pipeline''), st1)"
    and q1: "quiet st st1"
    and s1: "ps_spawned st1 = ps_spawned st @
               [(''dataset_pipeline'', ''python3'' # filter_Boolean (cliArgs w j p))]"
    by (rule runLoggedProcess_cases)
  obtain st2 where stats: "readKnowledgeStats w st1 j (knowledgeFile w j) =
        ((fst (knowledge_stats w), snd (knowledge_stats w)), st2)"
    and q12: "quiet st1 st2" and s2: "ps_spawned st2 = ps_spawned st1"
    by (rule readKnowledgeStats_cases)
  define st3 where "st3 = do_updateJob st2 j
     (no_job_updates\<lparr>jd_knowledgeCount := Some (fst (knowledge_stats w)),
                     jd_knowledgeSources := Some (snd (knowledge_stats w))\<rparr>)"
  from q1 q12 have q2: "quiet st st2" by (rule quiet_trans)
  have "quiet st2 st3" unfolding st3_def
    by (rule quiet_updateJob) (simp_all add: no_job_updates_def)
  with q2 have q3: "quiet st st3" by (rule quiet_trans)
  from q3 assms have "job_at j s None st3" by (rule quiet_job_at)
  then have same: "update_linked_clone st3 j u = settle st3" for u
    by (rule update_linked_clone_unlinked)
  have q4: "quiet st (settle st3)" using q3 quiet_settle by (rule quiet_trans)
  have s3: "ps_spawned (settle st3) = ps_spawned st1" by (simp add: st3_def s2)
  show ?thesis
  proof (cases "stage_ok w ''dataset_pipeline''")
    case True
    have "pipeline_stage1 w st j p = (Inr (fst (knowledge_stats w)), settle st3)"
      unfolding pipeline_stage1_def run
      by (simp add: True stats Let_def case_prod_beta same [unfolded st3_def] st3_def)
    with True q4 s3 s1 show ?thesis using that [of "settle st3"] by simp
  next
    case False
    have "pipeline_stage1 w st j p = (Inl (exit_message w ''dataset_pipeline''), st1)"
      unfolding pipeline_stage1_def run by (simp add: False)
    with False q1 s1 show ?thesis using that [of st1] by simp
  qed
qed

lemma pipeline_stage2_effect:
  "quiet st (pipeline_stage2 w st j n)
   \<and> map fst (ps_spawned (pipeline_stage2 w st j n)) =
       map fst (ps_spawned st) @ (if n > 0 then [''rag_index''] else [])
   \<and> (n > 0 \<and> \<not> stage_ok w ''rag_index'' \<and> job_at j s c st \<and> tidy st \<longrightarrow>
        has_log (pipeline_stage2 w st j n) j
          (''RAG index build failed (will continue without RAG): '' @ exit_message w ''rag_index''))"
proof (cases "n > 0")
  case False
  then show ?thesis by (simp add: pipeline_stage2_def quiet_appendLog)
next
  case True
  obtain st1 where run: "runRagIndex w st j (knowledgeFile w j) (ragIndexDir w j) =
       (if stage_ok w ''rag_index''
        then (Inr (), do_appendLog st1 j (''RAG index saved to '' @ ragIndexDir w j))
        else (Inl (exit_message w ''rag_index''), st1))"
    and q1: "quiet st st1"
    and s1: "map fst (ps_spawned st1) = map fst (ps_spawned st) @ [''rag_index'']"
    by (rule runRagIndex_cases)
  have q2: "quiet st (do_appendLog st1 j l)" for l
    using q1 quiet_appendLog by (rule quiet_trans)
  show ?thesis
  proof (cases "stage_ok w ''rag_index''")
    case ok: True
    have "pipeline_stage2 w st j n = do_appendLog st1 j (''RAG index saved to '' @ ragIndexDir w j)"
      unfolding pipeline_stage2_def run by (simp add: True ok)
    with q2 s1 True ok show ?thesis by simp
  next
    case bad: False
    have eq: "pipeline_stage2 w st j n = do_appendLog st1 j
        (''RAG index build failed (will continue without RAG): '' @ exit_message w ''rag_index'')"
      unfolding pipeline_stage2_def run by (simp add: True bad)
    have "has_log (pipeline_stage2 w st j n) j
          (''RAG index build failed (will continue without RAG): '' @ exit_message w ''rag_index'')"
      if "job_at j s c st" and "tidy st"
    proof -
      from q1 that(1) have "job_at j s c st1" by (rule quiet_job_at)
      then have "training_jobs (ps_db st1) j \<noteq> None" by (rule job_present)
      moreover have "tidy st1" using quiet_calm [OF q1] that(2) by (rule calm_tidy)
      ultimately show ?thesis unfolding eq by (intro has_log_appendLog)
    qed
    with q2 s1 True eq show ?thesis by simp
  qed
qed

lemma pipeline_stage3_cases:
  assumes "job_at j JRunning None st"
  obtains st' where
    "pipeline_stage3 w st j p =
       (if stage_ok w ''train_qlora'' then Inr () else Inl (exit_message w ''train_qlora''), st')"
    and "calm st st'"
    and "job_at j (if stage_ok w ''train_qlora'' then JSucceeded else JRunning) None st'"
    and "map fst (ps_spawned st') = map fst (ps_spawned st) @ [''train_qlora'']"
proof -
  obtain st1 where run: "runLoggedProcess w st j ''train_qlora'' ''python3''
        (filter_Boolean (trainArgs w j p)) =
       (if stage_ok w ''train_qlora'' then Inr () else Inl (exit_message w ''train_qlora''), st1)"
    and q1: "quiet st st1"
    and s1: "ps_spawned st1 = ps_spawned st @
               [(''train_qlora'', ''python3'' # filter_Boolean (trainArgs w j p))]"
    by (rule runLoggedProcess_cases)
  define st2 where "st2 = do_updateJob st1 j (no_job_updates\<lparr>jd_status := Some JSucceeded\<rparr>)"
  from q1 assms have j1: "job_at j JRunning None st1" by (rule quiet_job_at)
  have c1: "calm st st1" using q1 by (rule quiet_calm)
  have "calm st1 st2" unfolding st2_def by (rule calm_updateJob) (simp add: no_job_updates_def)
  with c1 have c2: "calm st st2" by (rule calm_trans)
  have j2: "job_at j JSucceeded None st2" unfolding st2_def
    by (rule job_at_updateJob_step [OF j1]) (simp_all add: no_job_updates_def status_edge_def)
  then have same: "update_linked_clone st2 j u = settle st2" for u
    by (rule update_linked_clone_unlinked)
  have c3: "calm st (settle st2)" using c2 quiet_calm [OF quiet_settle] by (rule calm_trans)
  have j3: "job_at j JSucceeded None (settle st2)" using j2 by (rule settle_job_at)
  have s2: "ps_spawned (settle st2) = ps_spawned st1" by (simp add: st2_def)
  show ?thesis
  proof (cases "stage_ok w ''train_qlora''")
    case True
    have "pipeline_stage3 w st j p = (Inr (), settle st2)"
      unfolding pipeline_stage3_def run by (simp add: True Let_def same [unfolded st2_def] st2_def)
    with True c3 j3 s2 s1 show ?thesis using that [of "settle st2"] by simp
  next
    case False
    have "pipeline_stage3 w st j p = (Inl (exit_message w ''train_qlora''), st1)"
      unfolding pipeline_stage3_def run by (simp add: False)
    with False c1 j1 s1 show ?thesis using that [of st1] by simp
  qed
qed

subsection \<open>The whole run\<close>

lemma pipeline_try_cases:
  assumes "job_at j JRunning None st"
  obtains st' where
    "pipeline_try w st j p = (try_result w, st')"
    and "calm st st'"
    and "job_at j (case try_result w of Inl e \<Rightarrow> JRunning | Inr u \<Rightarrow> JSucceeded) None st'"
    and "map fst (ps_spawned st') = map fst (ps_spawned st) @ stages_run w"
    and "tidy st \<and> stage_ok w ''dataset_pipeline'' \<and> fst (knowledge_stats w) > 0
         \<and> \<not> stage_ok w ''rag_index''
         \<longrightarrow> has_log st' j (rag_failure_line w)"
proof -
  obtain st1 where one: "pipeline_stage1 w st j p =
       (if stage_ok w ''dataset_pipeline'' then Inr (fst (knowledge_stats w))
        else Inl (exit_message w ''dataset_pipeline''), st1)"
    and q1: "quiet st st1"
    and s1: "map fst (ps_spawned st1) = map fst (ps_spawned st) @ [''dataset_pipeline'']"
    using assms by (rule pipeline_stage1_cases)
  from q1 assms have j1: "job_at j JRunning None st1" by (rule quiet_job_at)
  show ?thesis
  proof (cases "stage_ok w ''dataset_pipeline''")
    case False
    have "pipeline_try w st j p = (try_result w, st1)"
      unfolding pipeline_try_def one by (simp add: False try_result_def)
    moreover have "calm st st1" using q1 by (rule quiet_calm)
    moreover have "job_at j (case try_result w of Inl e \<Rightarrow> JRunning | Inr u \<Rightarrow> JSucceeded) None st1"
      using j1 False by (simp add: try_result_def)
    moreover have "map fst (ps_spawned st1) = map fst (ps_spawned st) @ stages_run w"
      using s1 False by (simp add: stages_run_def)
    ultimately show ?thesis using False that [of st1] by simp
  next
    case True
    define st2 where "st2 = pipeline_stage2 w st1 j (fst (knowledge_stats w))"
    have two: "quiet st1 st2"
      "map fst (ps_spawned st2) =
         map fst (ps_spawned st1) @ (if fst (knowledge_stats w) > 0 then [''rag_index''] else [])"
      "fst (knowledge_stats w) > 0 \<and> \<not> stage_ok w ''rag_index'' \<and> job_at j JRunning None st1
         \<and> tidy st1 \<longrightarrow> has_log st2 j (rag_failure_line w)"
      unfolding st2_def rag_failure_line_def
      using pipeline_stage2_effect [of st1 w j "fst (knowledge_stats w)" JRunning None] by blast+
    from q1 two(1) have q2: "quiet st st2" by (rule quiet_trans)
    from two(1) j1 have j2: "job_at j JRunning None st2" by (rule quiet_job_at)
    obtain st3 where three: "pipeline_stage3 w st2 j p =
       (if stage_ok w ''train_qlora'' then Inr () else Inl (exit_message w ''train_qlora''), st3)"
      and c3: "calm st2 st3"
      and j3: "job_at j (if stage_ok w ''train_qlora'' then JSucceeded else JRunning) None st3"
      and s3: "map fst (ps_spawned st3) = map fst (ps_spawned st2) @ [''train_qlora'']"
      using j2 by (rule pipeline_stage3_cases)
    have "pipeline_try w st j p = (try_result w, st3)"
      unfolding pipeline_try_def one
      by (simp add: True st2_def [symmetric] three try_result_def)
    moreover have "calm st st3" using quiet_calm [OF q2] c3 by (rule calm_trans)
    moreover have "job_at j (case try_result w of Inl e \<Rightarrow> JRunning | Inr u \<Rightarrow> JSucceeded) None st3"
      using j3 True by (auto simp: try_result_def split: if_splits)
    moreover have "map fst (ps_spawned st3) = map fst (ps_spawned st) @ stages_run w"
      using s1 two(2) s3 True by (simp add: stages_run_def)
    moreover have "has_log st3 j (rag_failure_line w)"
      if "tidy st" "fst (knowledge_stats w) > 0" "\<not> stage_ok w ''rag_index''"
    proof -
      have t1: "tidy st1" using quiet_calm [OF q1] that(1) by (rule calm_tidy)
      with two(3) that j1 have "has_log st2 j (rag_failure_line w)" by simp
      moreover have "tidy st2" using quiet_calm [OF two(1)] t1 by (rule calm_tidy)
      ultimately show ?thesis using c3 by (auto intro: calm_has_log)
    qed
    ultimately show ?thesis using that [of st3] by simp
  qed
qed

lemma exit_message_truthy: "truthy (Some (exit_message w label))"
  by (simp add: truthy_def exit_message_def)

lemma try_result_truthy: "try_result w = Inl e \<Longrightarrow> truthy (Some e)"
  by (auto simp: try_result_def exit_message_truthy split: if_splits)

lemma do_updateJob_error:
  "training_jobs (ps_db st) j \<noteq> None \<Longrightarrow> truthy (jd_error u) \<Longrightarrow>
   map_option sj_error (training_jobs (ps_db (do_updateJob st j u)) j) = Some (jd_error u)"
  using settle_absent [of st j]
  by (auto simp: do_updateJob_def Let_def updateJobRepo_jobs mapped_job_updates_fields)

lemma settle_error:
  "map_option sj_error (training_jobs (ps_db (settle st)) k) =
     map_option sj_error (training_jobs (ps_db st) k)"
  by (rule settle_keeps) simp

text \<open>
  A run of the pipeline on a queued job that names no clone: the job ends succeeded or
  failed as the stages decide, the failure message is stored, the stages spawned are
  those of \<^const>\<open>stages_run\<close>, and the clones table is as before. When the database answers
  at once, the line that a failing stage 2 leaves is in the log at the end.
\<close>

lemma runPipeline_unlinked:
  assumes "job_at j JQueued None st"
  shows "calm st (runPipeline w st j p)"
    and "job_at j (final_status w) None (runPipeline w st j p)"
    and "map fst (ps_spawned (runPipeline w st j p)) = map fst (ps_spawned st) @ stages_run w"
    and "try_result w = Inl e \<Longrightarrow>
           map_option sj_error (training_jobs (ps_db (runPipeline w st j p)) j) = Some (Some e)"
    and "tidy st \<Longrightarrow> stage_ok w ''dataset_pipeline'' \<Longrightarrow> fst (knowledge_stats w) > 0 \<Longrightarrow>
           \<not> stage_ok w ''rag_index'' \<Longrightarrow> has_log (runPipeline w st j p) j (rag_failure_line w)"
proof -
  define st1 where "st1 = do_updateJob st j
                  (no_job_updates\<lparr>jd_status := Some JRunning,
                                  jd_adapterDir := Some (adapterDir w j),
                                  jd_processedDir := Some (processedDir w j),
                                  jd_knowledgeFile := Some (knowledgeFile w j),
                                  jd_ragIndexDir := Some (ragIndexDir w j)\<rparr>)"
  have c1: "calm st st1" unfolding st1_def
    by (rule calm_updateJob) (simp add: no_job_updates_def)
  have j1: "job_at j JRunning None st1" unfolding st1_def
    by (rule job_at_updateJob_step [OF assms]) (simp_all add: no_job_updates_def status_edge_def)
  have s1: "ps_spawned st1 = ps_spawned st" by (simp add: st1_def)
  obtain st2 where run: "pipeline_try w st1 j p = (try_result w, st2)"
    and c2: "calm st1 st2"
    and j2: "job_at j (case try_result w of Inl e \<Rightarrow> JRunning | Inr u \<Rightarrow> JSucceeded) None st2"
    and s2: "map fst (ps_spawned st2) = map fst (ps_spawned st1) @ stages_run w"
    and l2: "tidy st1 \<and> stage_ok w ''dataset_pipeline'' \<and> fst (knowledge_stats w) > 0
         \<and> \<not> stage_ok w ''rag_index''
         \<longrightarrow> has_log st2 j (rag_failure_line w)"
    using j1 by (rule pipeline_try_cases)
  from c1 c2 have c02: "calm st st2" by (rule calm_trans)
  have l02: "has_log st2 j (rag_failure_line w)"
    if "tidy st" "stage_ok w ''dataset_pipeline''" "fst (knowledge_stats w) > 0"
       "\<not> stage_ok w ''rag_index''"
    using l2 that calm_tidy [OF c1] by simp
  have goal: "calm st (runPipeline w st j p)
    \<and> job_at j (final_status w) None (runPipeline w st j p)
    \<and> map fst (ps_spawned (runPipeline w st j p)) = map fst (ps_spawned st) @ stages_run w
    \<and> (\<forall>e. try_result w = Inl e \<longrightarrow>
           map_option sj_error (training_jobs (ps_db (runPipeline w st j p)) j) = Some (Some e))
    \<and> (tidy st \<and> stage_ok w ''dataset_pipeline'' \<and> fst (knowledge_stats w) > 0
         \<and> \<not> stage_ok w ''rag_index''
         \<longrightarrow> has_log (runPipeline w st j p) j (rag_failure_line w))"
  proof (cases "try_result w")
    case (Inr u)
    have "runPipeline w st j p = st2"
      unfolding runPipeline_def Let_def st1_def [symmetric] run by (simp add: Inr)
    with c02 j2 s2 s1 l02 Inr show ?thesis by (auto simp: final_status_def)
  next
    case (Inl message)
    define st3 where "st3 = do_updateJob st2 j
                          (no_job_updates\<lparr>jd_status := Some JFailed, jd_error := Some message\<rparr>)"
    from j2 Inl have j2': "job_at j JRunning None st2" by simp
    have c3: "calm st2 st3" unfolding st3_def
      by (rule calm_updateJob) (simp add: no_job_updates_def)
    have j3: "job_at j JFailed None st3" unfolding st3_def
      by (rule job_at_updateJob_step [OF j2']) (simp_all add: no_job_updates_def status_edge_def)
    have e3: "map_option sj_error (training_jobs (ps_db st3) j) = Some (Some message)"
      unfolding st3_def
      using do_updateJob_error [OF job_present [OF j2'],
          of "no_job_updates\<lparr>jd_status := Some JFailed, jd_error := Some message\<rparr>"]
        try_result_truthy [OF Inl]
      by (simp add: no_job_updates_def)
    have s3: "ps_spawned st3 = ps_spawned st2" by (simp add: st3_def)
    have same: "update_linked_clone st3 j u = settle st3" for u
      using j3 by (rule update_linked_clone_unlinked)
    have eq: "runPipeline w st j p = settle st3"
      unfolding runPipeline_def Let_def st1_def [symmetric] run
      by (simp add: Inl same [unfolded st3_def] st3_def)
    have c4: "calm st2 (settle st3)" using c3 quiet_calm [OF quiet_settle] by (rule calm_trans)
    have "calm st (settle st3)" using c02 c4 by (rule calm_trans)
    moreover have "job_at j JFailed None (settle st3)" using j3 by (rule settle_job_at)
    moreover have "map_option sj_error (training_jobs (ps_db (settle st3)) j) = Some (Some message)"
      using e3 by (simp add: settle_error)
    moreover have "has_log (settle st3) j l" if "tidy st" "has_log st2 j l" for l
      using c4 calm_tidy [OF c02 that(1)] that(2) by (rule calm_has_log)
    ultimately show ?thesis using s3 s2 s1 l02 Inl by (auto simp: final_status_def eq)
  qed
  from goal show "calm st (runPipeline w st j p)"
    and "job_at j (final_status w) None (runPipeline w st j p)"
    and "map fst (ps_spawned (runPipeline w st j p)) = map fst (ps_spawned st) @ stages_run w"
    by simp_all
  from goal show "try_result w = Inl e \<Longrightarrow>
           map_option sj_error (training_jobs (ps_db (runPipeline w st j p)) j) = Some (Some e)"
    by simp
  from goal show "tidy st \<Longrightarrow> stage_ok w ''dataset_pipeline'' \<Longrightarrow> fst (knowledge_stats w) > 0 \<Longrightarrow>
           \<not> stage_ok w ''rag_index'' \<Longrightarrow> has_log (runPipeline w st j p) j (rag_failure_line w)"
    by simp
qed

lemma simulateJob_unlinked:
  assumes "job_at j JQueued None st"
  shows "calm st (simulateJob st j)" and "job_at j JSucceeded None (simulateJob st j)"
    and "ps_spawned (simulateJob st j) = ps_spawned st"
proof -
  define st1 where "st1 = do_updateJob st j (no_job_updates\<lparr>jd_status := Some JRunning\<rparr>)"
  define st2 where "st2 = do_appendLog st1 j ''Simulated training started.''"
  define st3 where "st3 = st2\<lparr>ps_now := ps_now st2 + 5000\<rparr>"
  define st4 where "st4 = do_appendLog st3 j ''Simulated training finished.''"
  define st5 where "st5 = do_updateJob st4 j (no_job_updates\<lparr>jd_status := Some JSucceeded\<rparr>)"
  have c1: "calm st st1" unfolding st1_def
    by (rule calm_updateJob) (simp add: no_job_updates_def)
  have j1: "job_at j JRunning None st1" unfolding st1_def
    by (rule job_at_updateJob_step [OF assms]) (simp_all add: no_job_updates_def status_edge_def)
  have q2: "quiet st1 st2" unfolding st2_def by (rule quiet_appendLog)
  have q3: "quiet st2 st3" unfolding st3_def by (rule quiet_clock)
  have q4: "quiet st3 st4" unfolding st4_def by (rule quiet_appendLog)
  have q14: "quiet st1 st4" using quiet_trans [OF quiet_trans [OF q2 q3] q4] .
  have j4: "job_at j JRunning None st4" using q14 j1 by (rule quiet_job_at)
  have c5: "calm st4 st5" unfolding st5_def
    by (rule calm_updateJob) (simp add: no_job_updates_def)
  have j5: "job_at j JSucceeded None st5" unfolding st5_def
    by (rule job_at_updateJob_step [OF j4]) (simp_all add: no_job_updates_def status_edge_def)
  have same: "update_linked_clone st5 j u = settle st5" for u
    using j5 by (rule update_linked_clone_unlinked)
  have eq: "simulateJob st j = settle st5"
    unfolding simulateJob_def Let_def
    by (simp add: same [unfolded st5_def st4_def st3_def st2_def st1_def]
        st5_def st4_def st3_def st2_def st1_def)
  have "calm st st5"
    using calm_trans [OF calm_trans [OF c1 quiet_calm [OF q14]] c5] .
  then have "calm st (settle st5)" using quiet_calm [OF quiet_settle] by (rule calm_trans)
  then show "calm st (simulateJob st j)" by (simp add: eq)
  show "job_at j JSucceeded None (simulateJob st j)" using j5 by (simp add: eq settle_job_at)
  show "ps_spawned (simulateJob st j) = ps_spawned st"
    by (simp add: eq st5_def st4_def st3_def st2_def st1_def)
qed

subsection \<open>The request handler\<close>

lemma newJob_fields [simp]:
  "sj_status (newJob uid params k now) = JQueued"
  "sj_clone_id (newJob uid params k now) = or_undefined (jp_cloneId params)"
  "sj_id (newJob uid params k now) = k"
  by (simp_all add: newJob_def)

lemma newClone_fields [simp]:
  "sc_status (newClone uid params k a now) = (case cp_status params of Some s \<Rightarrow> s | None \<Rightarrow> CTraining)"
  "sc_job_id (newClone uid params k a now) = Some (cp_jobId params)"
  "sc_id (newClone uid params k a now) = k"
  by (simp_all add: newClone_def)

lemma mapTo_ids [simp]:
  "job_id (mapToJobRecord r) = sj_id r"
  "clone_id (mapToCloneRecord c) = sc_id c"
  by (simp_all add: mapToJobRecord_def mapToCloneRecord_def)

lemma db_forward_insert:
  "training_jobs db k = None \<Longrightarrow> db_forward db (db\<lparr>training_jobs := (training_jobs db)(k \<mapsto> r)\<rparr>)"
  by (auto simp: db_forward_def split: option.splits)

lemma db_forward_clones:
  "db_forward db (db\<lparr>clones_table := c\<rparr>)"
  by (auto simp: db_forward_def split: option.splits)

text \<open>
  The handler on an authenticated, valid request for an existing dataset, when the
  database accepts both inserts: the state in which the pipeline starts.
\<close>

lemma POST_accepted:
  assumes "rq_user req = Some uid" and "rq_body req = Valid p"
    and "w_dataset_exists w (path_join (w_DATASETS_DIR w) (tp_datasetId p))"
    and "training_jobs (ps_db st) (w_new_job_id w) = None"
    and "clones_table (ps_db st) (w_new_clone_id w) = None"
    and "history_ok st"
  obtains st3 where
    "POST w st req =
       (if w_enable_real_training w
        then (Queued (w_new_job_id w) (w_new_clone_id w) False,
              settle (runPipeline w st3 (w_new_job_id w) p))
        else (Queued (w_new_job_id w) (w_new_clone_id w) True,
              settle (simulateJob st3 (w_new_job_id w))))"
    and "job_at (w_new_job_id w) JQueued None st3"
    and "ps_spawned st3 = ps_spawned st"
    and "map_option sc_status (clones_table (ps_db st3) (w_new_clone_id w)) = Some CTraining"
    and "map_option sc_job_id (clones_table (ps_db st3) (w_new_clone_id w)) = Some (Some (w_new_job_id w))"
    and "tidy st \<longrightarrow> tidy st3"
proof -
  define st0 where "st0 = settle st"
  define jparams where "jparams =
     \<lparr>jp_modelId = tp_modelId p, jp_datasetPath = path_join (w_DATASETS_DIR w) (tp_datasetId p),
      jp_systemPrompt = tp_systemPrompt p, jp_persona = tp_persona p,
      jp_cloneId = None, jp_cloneName = None,
      jp_adapterDir = Some (path_join (w_OUTPUTS_DIR w) ''pending'')\<rparr>"
  define row where "row = newJob uid jparams (w_new_job_id w) (ps_now st0)"
  define db1 where "db1 = (ps_db st0)\<lparr>training_jobs := (training_jobs (ps_db st0))(w_new_job_id w \<mapsto> row)\<rparr>"
  define st1 where "st1 = settle (commit st0 db1)"
  define cparams where "cparams =
     \<lparr>cp_name = or_else (map_option trim (tp_cloneName p)) ''New Clone'',
      cp_modelId = tp_modelId p, cp_jobId = w_new_job_id w, cp_status = Some CTraining,
      cp_datasetCount = Some (w_dataset_files w (path_join (w_DATASETS_DIR w) (tp_datasetId p))),
      cp_datasetId = None, cp_startedAt = Some (job_createdAt (mapToJobRecord row)),
      cp_knowledgeCount = None, cp_knowledgeSources = None,
      cp_knowledgeFile = None, cp_ragIndexDir = None\<rparr>"
  define crow where "crow = newClone uid cparams (w_new_clone_id w) (w_new_api_key w) (ps_now st1)"
  define db2 where "db2 = (ps_db st1)\<lparr>clones_table := (clones_table (ps_db st1))(w_new_clone_id w \<mapsto> crow)\<rparr>"
  define st2 where "st2 = commit st1 db2"
  define st3 where "st3 = do_updateJob st2 (w_new_job_id w)
       (no_job_updates\<lparr>ju_cloneId := Some (w_new_clone_id w), ju_cloneName := Some (sc_name crow)\<rparr>)"
  have f0: "training_jobs (ps_db st0) (w_new_job_id w) = None"
    using assms(4) by (simp add: st0_def settle_absent)
  have c0: "clones_table (ps_db st0) (w_new_clone_id w) = None"
    using assms(5) by (simp add: st0_def)
  have h0: "history_ok st0" unfolding st0_def using assms(6) by (rule settle_history_ok)
  have h01: "history_ok (commit st0 db1)" unfolding db1_def
    using h0 db_forward_insert [OF f0] by (rule history_ok_commit)
  have j01: "job_at (w_new_job_id w) JQueued None (commit st0 db1)"
    using h01 by (simp add: job_at_def db1_def row_def jparams_def or_undefined_def truthy_def)
  have j1: "job_at (w_new_job_id w) JQueued None st1"
    unfolding st1_def using j01 by (rule settle_job_at)
  have c1: "clones_table (ps_db st1) (w_new_clone_id w) = None"
    using c0 by (simp add: st1_def db1_def)
  have j2: "job_at (w_new_job_id w) JQueued None st2" unfolding st2_def
    using j1 by (rule job_at_write) (simp_all add: db2_def)
  have j3: "job_at (w_new_job_id w) JQueued None st3" unfolding st3_def
    using j2 by (rule job_at_updateJob_quiet) (simp add: no_job_updates_def)
  have s3: "ps_spawned st3 = ps_spawned st"
    by (simp add: st3_def st2_def st1_def st0_def)
  have c3: "clones_table (ps_db st3) (w_new_clone_id w) = Some crow"
    by (simp add: st3_def do_updateJob_def Let_def st2_def db2_def)
  have t3: "tidy st \<longrightarrow> tidy st3"
    by (simp add: st3_def do_updateJob_def Let_def st2_def st1_def st0_def settle_tidy)
  have post: "POST w st req =
       (if w_enable_real_training w
        then (Queued (w_new_job_id w) (w_new_clone_id w) False,
              settle (runPipeline w st3 (w_new_job_id w) p))
        else (Queued (w_new_job_id w) (w_new_clone_id w) True,
              settle (simulateJob st3 (w_new_job_id w))))"
    using assms(4,5)
    by (simp add: POST_def assms(1,2,3) Let_def createJobRepo_def createCloneRepo_def
        settle_absent st3_def st2_def st1_def st0_def db2_def db1_def crow_def cparams_def
        row_def jparams_def mapToCloneRecord_def)
  show ?thesis
    using that [OF post j3 s3 _ _ t3] c3 by (simp add: crow_def cparams_def)
qed

lemma POST_history:
  assumes "history_ok st"
  shows "history_ok (snd (POST w st req))"
proof (cases "rq_user req")
  case None
  then show ?thesis using assms by (simp add: POST_def)
next
  case (Some uid)
  show ?thesis
  proof (cases "rq_body req")
    case InvalidJson
    then show ?thesis using assms Some by (simp add: POST_def)
  next
    case ValidationFailed
    then show ?thesis using assms Some by (simp add: POST_def)
  next
    case (Valid p)
    show ?thesis
    proof (cases "w_dataset_exists w (path_join (w_DATASETS_DIR w) (tp_datasetId p))")
      case False
      then show ?thesis using assms Some Valid by (simp add: POST_def Let_def)
    next
      case True
      have h0: "history_ok (settle st)" using assms by (rule settle_history_ok)
      show ?thesis
      proof (cases "training_jobs (ps_db st) (w_new_job_id w)")
        case (Some r)
        then show ?thesis using h0 \<open>rq_user req = Some uid\<close> Valid True
          by (simp add: POST_def Let_def createJobRepo_def settle_absent)
      next
        case None
        note fresh_job = None
        then have f0: "training_jobs (ps_db (settle st)) (w_new_job_id w) = None"
          by (simp add: settle_absent)
        show ?thesis
        proof (cases "clones_table (ps_db st) (w_new_clone_id w)")
          case (Some c)
          have "history_ok (settle (commit (settle st) ((ps_db (settle st))\<lparr>training_jobs :=
                  (training_jobs (ps_db (settle st)))(w_new_job_id w \<mapsto> r)\<rparr>)))" for r
            by (rule settle_history_ok, rule history_ok_commit [OF h0 db_forward_insert [OF f0]])
          then show ?thesis using \<open>rq_user req = Some uid\<close> Valid True f0 Some
            by (simp add: POST_def Let_def createJobRepo_def createCloneRepo_def)
        next
          case None
          obtain st3 where post: "POST w st req =
              (if w_enable_real_training w
               then (Queued (w_new_job_id w) (w_new_clone_id w) False,
                     settle (runPipeline w st3 (w_new_job_id w) p))
               else (Queued (w_new_job_id w) (w_new_clone_id w) True,
                     settle (simulateJob st3 (w_new_job_id w))))"
            and j3: "job_at (w_new_job_id w) JQueued None st3"
            using \<open>rq_user req = Some uid\<close> Valid True fresh_job None assms
            by (rule POST_accepted)
          have "job_at (w_new_job_id w) (final_status w) None (runPipeline w st3 (w_new_job_id w) p)"
            using j3 by (rule runPipeline_unlinked)
          then have "job_at (w_new_job_id w) (final_status w) None
                       (settle (runPipeline w st3 (w_new_job_id w) p))"
            by (rule settle_job_at)
          moreover have "job_at (w_new_job_id w) JSucceeded None (simulateJob st3 (w_new_job_id w))"
            using j3 by (rule simulateJob_unlinked)
          then have "job_at (w_new_job_id w) JSucceeded None
                       (settle (simulateJob st3 (w_new_job_id w)))"
            by (rule settle_job_at)
          ultimately show ?thesis by (simp add: post job_at_def)
        qed
      qed
    qed
  qed
qed

lemma history_ok_appendLog: "history_ok st \<Longrightarrow> history_ok (do_appendLog st j line)"
proof -
  assume "history_ok st"
  then have h1: "history_ok (settle st)" by (rule settle_history_ok)
  then have h2: "history_ok (settle (settle st))" by (rule settle_history_ok)
  have "history_ok (commit (settle (settle st))
          (update_logs (ps_db (settle (settle st))) j l t))" for l t
    using h2 db_forward_update_logs by (rule history_ok_commit)
  with h1 show ?thesis by (simp add: do_appendLog_def Let_def split: option.splits)
qed

lemma orchestrate_history: "history_ok st \<Longrightarrow> history_ok (orchestrate st op)"
  by (cases op) (simp_all add: POST_history history_ok_appendLog)

lemma orchestrate_run_history:
  "history_ok st \<Longrightarrow> history_ok (foldl orchestrate st ops)"
  by (induction ops arbitrary: st) (simp_all add: orchestrate_history)

lemma successively_nth:
  "successively P xs \<Longrightarrow> Suc i < length xs \<Longrightarrow> P (xs ! i) (xs ! Suc i)"
proof (induction xs arbitrary: i)
  case Nil
  then show ?case by simp
next
  case (Cons x xs)
  show ?case
  proof (cases i)
    case 0
    with Cons.prems show ?thesis by (cases xs) simp_all
  next
    case (Suc m)
    from Cons.prems have "successively P xs" by (cases xs) simp_all
    with Cons.IH [of m] Cons.prems Suc show ?thesis by simp
  qed
qed

lemma terminal_edge:
  "status_edge s s' \<Longrightarrow> s = JSucceeded \<or> s = JFailed \<Longrightarrow> s' = s"
  by (auto simp: status_edge_def)

lemma terminal_stays:
  assumes "successively db_forward h"
    and "training_jobs (h ! i) k = Some r" and "sj_status r = JSucceeded \<or> sj_status r = JFailed"
  shows "i + n < length h \<Longrightarrow>
         map_option sj_status (training_jobs (h ! (i + n)) k) = Some (sj_status r)"
proof (induction n)
  case 0
  then show ?case using assms(2) by simp
next
  case (Suc n)
  then have ih: "map_option sj_status (training_jobs (h ! (i + n)) k) = Some (sj_status r)"
    by simp
  then obtain r1 where r1: "training_jobs (h ! (i + n)) k = Some r1" "sj_status r1 = sj_status r"
    by auto
  from Suc.prems have "Suc (i + n) < length h" by simp
  with assms(1) have "db_forward (h ! (i + n)) (h ! Suc (i + n))"
    by (rule successively_nth)
  with r1 obtain r2 where r2: "training_jobs (h ! Suc (i + n)) k = Some r2"
      "status_edge (sj_status r1) (sj_status r2)"
    by (auto simp: db_forward_def split: option.splits dest!: spec [of _ k])
  from terminal_edge [OF r2(2)] r1(2) assms(3) have "sj_status r2 = sj_status r" by auto
  with r2(1) show ?case by simp
qed

lemma appendLog_status:
  "map_option job_status (getJob (appendLog jobs k line now) k') = map_option job_status (getJob jobs k')"
  by (cases "map_of jobs k") (auto simp: appendLog_def getJob_def update_conv')

text \<open>
  Claim C5. Along every sequence of training requests and log appends, each write to the
  jobs table keeps every stored job and moves its status by one step of
  \<^verbatim>\<open>queued \<rightarrow> running \<rightarrow> {succeeded, failed}\<close> or not at all; a job that a write has left
  succeeded or failed has the same status after every later write; restart sanitisation
  loads a persisted job with a status one such step ahead of the persisted one or equal to
  it; and appending a log line in the in-memory store changes no status. This holds in
  whatever order the database answers the calls of \<^verbatim>\<open>appendLogRepo\<close> that are in flight.
  (Requests are served one after the other; each pipeline writes to the job of its own
  request only.)
\<close>

theorem C5_status_moves_forward:
  "(history_ok st \<longrightarrow> history_ok (foldl orchestrate st ops))
   \<and> (history_ok st \<and> i \<le> j \<and> j < length (ps_history st)
        \<and> training_jobs (ps_history st ! i) k = Some r
        \<and> (sj_status r = JSucceeded \<or> sj_status r = JFailed)
      \<longrightarrow> map_option sj_status (training_jobs (ps_history st ! j) k) = Some (sj_status r))
   \<and> (distinct (map fst parsed) \<and> (k, job) \<in> set parsed \<longrightarrow>
        (\<exists>job'. getJob (loadJobsFromDisk (Content parsed)) k = Some job'
            \<and> status_edge (job_status job) (job_status job')))
   \<and> map_option job_status (getJob (appendLog jobs k line now) k')
       = map_option job_status (getJob jobs k')"
proof (intro conjI impI)
  assume "history_ok st"
  then show "history_ok (foldl orchestrate st ops)" by (rule orchestrate_run_history)
next
  assume a: "history_ok st \<and> i \<le> j \<and> j < length (ps_history st)
        \<and> training_jobs (ps_history st ! i) k = Some r
        \<and> (sj_status r = JSucceeded \<or> sj_status r = JFailed)"
  then have "successively db_forward (ps_history st)" by (simp add: history_ok_def)
  from terminal_stays [OF this, of i k r "j - i"] a
  show "map_option sj_status (training_jobs (ps_history st ! j) k) = Some (sj_status r)"
    by simp
next
  assume "distinct (map fst parsed) \<and> (k, job) \<in> set parsed"
  then have "map_of (load_jobs_loop parsed []) k =
     Some (if job_status job = JRunning
           then job\<lparr>job_status := JFailed,
                    job_error := Some ''Training interrupted by server restart''\<rparr>
           else job)"
    by (intro load_jobs_loop_lookup) simp_all
  then show "\<exists>job'. getJob (loadJobsFromDisk (Content parsed)) k = Some job'
            \<and> status_edge (job_status job) (job_status job')"
    by (simp add: getJob_def loadJobsFromDisk_def status_edge_def)
next
  show "map_option job_status (getJob (appendLog jobs k line now) k')
       = map_option job_status (getJob jobs k')"
    by (rule appendLog_status)
qed

theorem C5_status_moves_forward_witness:
  "history_ok (foldl orchestrate settled_state
     [Train (sample_world parsing_fails) sample_request, Log ''job-1'' ''note'',
      Train (later_world indexing_fails) sample_request])
   \<and> map_option sj_status (training_jobs (ps_history settled_state ! 1) ''job-0'') = Some JSucceeded
   \<and> map_option job_status
        (getJob (loadJobsFromDisk (Content [(''job-0'', sample_job\<lparr>job_status := JRunning\<rparr>)])) ''job-0'')
       = Some JFailed
   \<and> map_option job_status (getJob (appendLog [(''job-0'', sample_job)] ''job-0'' ''line'' 7) ''job-0'')
       = Some JQueued"
proof -
  have fwd: "db_forward settled_database (appendLogRepo settled_database ''job-0'' ''done'' 2)"
    by (rule db_forward_same_status) (simp add: appendLogRepo_jobs option.map_comp comp_def)
  have h: "history_ok settled_state"
    by (simp add: history_ok_def settled_state_def fwd)
  have r: "training_jobs (ps_history settled_state ! 0) ''job-0'' =
             Some ((newJob ''u1''
            \<lparr>jp_modelId = ''m'', jp_datasetPath = ''d'', jp_systemPrompt = ''s'',
             jp_persona = None, jp_cloneId = None, jp_cloneName = None,
             jp_adapterDir = None\<rparr> ''job-0'' 1)\<lparr>sj_status := JSucceeded\<rparr>)"
    by (simp add: settled_state_def settled_database_def)
  have len: "(0::nat) \<le> 1" "1 < length (ps_history settled_state)"
    by (simp_all add: settled_state_def)
  have d: "distinct (map fst [(''job-0'', sample_job\<lparr>job_status := JRunning\<rparr>)])"
    "(''job-0'', sample_job\<lparr>job_status := JRunning\<rparr>) \<in> set [(''job-0'', sample_job\<lparr>job_status := JRunning\<rparr>)]"
    by simp_all
  from C5_status_moves_forward [of settled_state
     "[Train (sample_world parsing_fails) sample_request, Log ''job-1'' ''note'',
      Train (later_world indexing_fails) sample_request]" 0 1 "''job-0''"
     "(newJob ''u1''
            \<lparr>jp_modelId = ''m'', jp_datasetPath = ''d'', jp_systemPrompt = ''s'',
             jp_persona = None, jp_cloneId = None, jp_cloneName = None,
             jp_adapterDir = None\<rparr> ''job-0'' 1)\<lparr>sj_status := JSucceeded\<rparr>"
     "[(''job-0'', sample_job\<lparr>job_status := JRunning\<rparr>)]" "sample_job\<lparr>job_status := JRunning\<rparr>"
     "[(''job-0'', sample_job)]" "''line''" 7 "''job-0''"] h r len d
  show ?thesis
    by (simp add: getJob_def loadJobsFromDisk_def appendLog_def sample_job_def new_job_def)
qed

text \<open>
  The handler never stores the clone's id in the job: \<^const>\<open>mapped_job_updates\<close> has no
  \<^verbatim>\<open>clone_id\<close>. So the run that an accepted request starts finds a job that names no
  clone, and the clone that was created for the job keeps the status \<^verbatim>\<open>training\<close>
  whatever the stages do and in whatever order the database answers.
\<close>

lemma POST_clone_stays_training:
  assumes "rq_user req = Some uid" and "rq_body req = Valid p"
    and "w_dataset_exists w (path_join (w_DATASETS_DIR w) (tp_datasetId p))"
    and "training_jobs (ps_db st) (w_new_job_id w) = None"
    and "clones_table (ps_db st) (w_new_clone_id w) = None"
    and "history_ok st" and "w_enable_real_training w"
  shows "fst (POST w st req) = Queued (w_new_job_id w) (w_new_clone_id w) False"
    and "job_at (w_new_job_id w) (final_status w) None (snd (POST w st req))"
    and "map fst (ps_spawned (snd (POST w st req))) = map fst (ps_spawned st) @ stages_run w"
    and "try_result w = Inl e \<Longrightarrow>
           map_option sj_error (training_jobs (ps_db (snd (POST w st req))) (w_new_job_id w)) = Some (Some e)"
    and "tidy st \<Longrightarrow> stage_ok w ''dataset_pipeline'' \<Longrightarrow> fst (knowledge_stats w) > 0 \<Longrightarrow>
           \<not> stage_ok w ''rag_index'' \<Longrightarrow>
           has_log (snd (POST w st req)) (w_new_job_id w) (rag_failure_line w)"
    and "map_option sc_status (clones_table (ps_db (snd (POST w st req))) (w_new_clone_id w)) = Some CTraining"
    and "map_option sc_job_id (clones_table (ps_db (snd (POST w st req))) (w_new_clone_id w))
           = Some (Some (w_new_job_id w))"
proof -
  obtain st3 where post: "POST w st req =
       (if w_enable_real_training w
        then (Queued (w_new_job_id w) (w_new_clone_id w) False,
              settle (runPipeline w st3 (w_new_job_id w) p))
        else (Queued (w_new_job_id w) (w_new_clone_id w) True,
              settle (simulateJob st3 (w_new_job_id w))))"
    and j3: "job_at (w_new_job_id w) JQueued None st3"
    and s3: "ps_spawned st3 = ps_spawned st"
    and c3: "map_option sc_status (clones_table (ps_db st3) (w_new_clone_id w)) = Some CTraining"
    and l3: "map_option sc_job_id (clones_table (ps_db st3) (w_new_clone_id w)) = Some (Some (w_new_job_id w))"
    and t3: "tidy st \<longrightarrow> tidy st3"
    using assms(1-6) by (rule POST_accepted)
  have eq: "POST w st req =
     (Queued (w_new_job_id w) (w_new_clone_id w) False,
      settle (runPipeline w st3 (w_new_job_id w) p))"
    using post assms(7) by simp
  note run = runPipeline_unlinked [OF j3, where w = w and p = p]
  show "fst (POST w st req) = Queued (w_new_job_id w) (w_new_clone_id w) False"
    by (simp add: eq)
  show "job_at (w_new_job_id w) (final_status w) None (snd (POST w st req))"
    using run(2) by (simp add: eq settle_job_at)
  show "map fst (ps_spawned (snd (POST w st req))) = map fst (ps_spawned st) @ stages_run w"
    using run(3) s3 by (simp add: eq)
  show "try_result w = Inl e \<Longrightarrow>
           map_option sj_error (training_jobs (ps_db (snd (POST w st req))) (w_new_job_id w)) = Some (Some e)"
    using run(4) by (simp add: eq settle_error)
  show "has_log (snd (POST w st req)) (w_new_job_id w) (rag_failure_line w)"
    if "tidy st" "stage_ok w ''dataset_pipeline''" "fst (knowledge_stats w) > 0"
       "\<not> stage_ok w ''rag_index''"
  proof -
    from t3 that(1) have t: "tidy st3" by simp
    from run(5) [OF t that(2,3,4)]
    have "has_log (runPipeline w st3 (w_new_job_id w) p) (w_new_job_id w) (rag_failure_line w)" .
    moreover have "tidy (runPipeline w st3 (w_new_job_id w) p)"
      using run(1) t by (rule calm_tidy)
    ultimately show ?thesis
      using calm_has_log [OF quiet_calm [OF quiet_settle]] by (simp add: eq)
  qed
  have "clones_table (ps_db (snd (POST w st req))) = clones_table (ps_db st3)"
    using calm_clones [OF run(1)] by (simp add: eq)
  with c3 l3
  show "map_option sc_status (clones_table (ps_db (snd (POST w st req))) (w_new_clone_id w)) = Some CTraining"
    and "map_option sc_job_id (clones_table (ps_db (snd (POST w st req))) (w_new_clone_id w))
           = Some (Some (w_new_job_id w))"
    by simp_all
qed

lemma job_at_status: "job_at j s c st \<Longrightarrow> map_option sj_status (training_jobs (ps_db st) j) = Some s"
  by (auto simp: job_at_def split: option.splits)

lemma sample_facts:
  "rq_user sample_request = Some ''u1''"
  "rq_body sample_request =
     Valid \<lparr>tp_modelId = ''m'', tp_datasetId = ''123e4567-e89b-42d3-a456-426614174000'',
            tp_systemPrompt = ''hi'', tp_persona = None, tp_cloneName = None\<rparr>"
  "w_dataset_exists (sample_world procs) x"
  "training_jobs (ps_db fresh_state) k = None"
  "clones_table (ps_db fresh_state) k = None"
  "history_ok fresh_state"
  "w_enable_real_training (sample_world procs)"
  "w_new_job_id (sample_world procs) = ''job-1''"
  "w_new_clone_id (sample_world procs) = ''clone-1''"
  "ps_spawned fresh_state = []"
  "w_process (sample_world procs) = procs"
  "knowledge_stats (sample_world procs) =
     (1, [\<lparr>ks_source = ''a.md'', ks_chunks = 1, ks_displayName = Some ''a.md'', ks_size = None\<rparr>])"
  "tidy fresh_state"
  by (simp_all add: sample_request_def sample_world_def fresh_state_def empty_database_def
      history_ok_def knowledge_stats_def or_else_def truthy_def basename_def Let_def
      Object_prototype_members_def Object_values_def is_array_index_def
      tidy_def orderly_def at_once_def)

lemma parsing_fails_facts:
  "\<not> stage_ok (sample_world parsing_fails) ''dataset_pipeline''"
  "exit_message (sample_world parsing_fails) ''dataset_pipeline'' = ''dataset_pipeline exited with code 1''"
  by (simp_all add: stage_ok_def exit_message_def sample_facts parsing_fails_def failing_stage_def
      show_code_def string_of_int_def string_of_nat.simps)

lemma indexing_fails_facts:
  "stage_ok (sample_world indexing_fails) ''dataset_pipeline''"
  "\<not> stage_ok (sample_world indexing_fails) ''rag_index''"
  "stage_ok (sample_world indexing_fails) ''train_qlora''"
  "exit_message (sample_world indexing_fails) ''rag_index'' = ''rag_index exited with code 1''"
  by (simp_all add: stage_ok_def exit_message_def sample_facts indexing_fails_def failing_stage_def
      passing_stage_def show_code_def string_of_int_def string_of_nat.simps)

text \<open>
  For comparison, a run on a job that does name a stored clone: when stage 1 fails, the
  \<^verbatim>\<open>catch\<close> block sets that clone to failed.
\<close>

lemma runPipeline_linked_failure:
  assumes "job_at j JQueued (Some c) st" and "c \<noteq> []"
    and "clones_table (ps_db st) c \<noteq> None"
    and "\<not> stage_ok w ''dataset_pipeline''"
  shows "map_option sc_status (clones_table (ps_db (runPipeline w st j p)) c) = Some CFailed"
proof -
  define st1 where "st1 = do_updateJob st j
                  (no_job_updates\<lparr>jd_status := Some JRunning,
                                  jd_adapterDir := Some (adapterDir w j),
                                  jd_processedDir := Some (processedDir w j),
                                  jd_knowledgeFile := Some (knowledgeFile w j),
                                  jd_ragIndexDir := Some (ragIndexDir w j)\<rparr>)"
  have c1: "calm st st1" unfolding st1_def
    by (rule calm_updateJob) (simp add: no_job_updates_def)
  have j1: "job_at j JRunning (Some c) st1" unfolding st1_def
    by (rule job_at_updateJob_step [OF assms(1)]) (simp_all add: no_job_updates_def status_edge_def)
  obtain st2 where run: "runLoggedProcess w st1 j ''dataset_pipeline'' ''python3''
        (filter_Boolean (cliArgs w j p)) =
       (if stage_ok w ''dataset_pipeline'' then Inr () else Inl (exit_message w ''dataset_pipeline''), st2)"
    and q2: "quiet st1 st2"
    by (rule runLoggedProcess_cases)
  have tried: "pipeline_try w st1 j p = (Inl (exit_message w ''dataset_pipeline''), st2)"
    unfolding pipeline_try_def pipeline_stage1_def run by (simp add: assms(4))
  define st3 where "st3 = do_updateJob st2 j
     (no_job_updates\<lparr>jd_status := Some JFailed, jd_error := Some (exit_message w ''dataset_pipeline'')\<rparr>)"
  from q2 j1 have j2: "job_at j JRunning (Some c) st2" by (rule quiet_job_at)
  have j3: "job_at j JFailed (Some c) st3" unfolding st3_def
    by (rule job_at_updateJob_step [OF j2]) (simp_all add: no_job_updates_def status_edge_def)
  have c3: "calm st2 st3" unfolding st3_def
    by (rule calm_updateJob) (simp add: no_job_updates_def)
  have "calm st st3" using calm_trans [OF calm_trans [OF c1 quiet_calm [OF q2]] c3] .
  then have cl: "clones_table (ps_db st3) = clones_table (ps_db st)" by (rule calm_clones)
  have "runPipeline w st j p = update_linked_clone st3 j (no_clone_data\<lparr>cd_status := Some CFailed\<rparr>)"
    unfolding runPipeline_def Let_def st1_def [symmetric] tried by (simp add: st3_def)
  also have "\<dots> = do_updateClone (settle st3) c (no_clone_data\<lparr>cd_status := Some CFailed\<rparr>)"
    using j3 assms(2) by (rule update_linked_clone_linked)
  finally show ?thesis
    using assms(3)
    by (auto simp: do_updateClone_def Let_def updateCloneRepo_clones cl mapped_clone_updates_status
        no_clone_data_def)
qed

text \<open>
  A log line can be lost. A chunk of output is logged without an await, the pipeline then
  appends a line of its own, and the database answers the select of the chunk's call
  before the pipeline's update and its update after: the update of the chunk's call
  writes the log it selected and the pipeline's line is gone.
\<close>

lemma awaited_line_can_be_lost:
  "has_log (do_appendLog (send_appendLog late_state ''job-0'' ''chunk'') ''job-0'' ''note'')
     ''job-0'' ''note''
   \<and> \<not> has_log (settle (do_appendLog (send_appendLog late_state ''job-0'' ''chunk'') ''job-0'' ''note''))
         ''job-0'' ''note''
   \<and> has_log (settle (do_appendLog (send_appendLog late_state ''job-0'' ''chunk'') ''job-0'' ''note''))
         ''job-0'' ''chunk''"
  by (simp add: late_state_def late_answers_def settled_state_def settled_database_def
      do_appendLog_def send_appendLog_def settle_def answer_def select_logs_def update_logs_def
      appendLogRepo_def has_log_def commit_def newJob_def Let_def)

text \<open>
  Claim C1, at a request whose dataset parsing exits with code 1 (empty database that
  answers at once, valid request, real training enabled). Stages 2 and 3 are not spawned and the job is failed
  with the error ``dataset_pipeline exited with code 1'', as the claim says; but the clone
  created for the job, whose \<^verbatim>\<open>job_id\<close> is the job, is still \<^verbatim>\<open>training\<close> at the end, not
  failed.
\<close>

theorem C1_clone_not_failed:
  "fst (POST (sample_world parsing_fails) fresh_state sample_request) = Queued ''job-1'' ''clone-1'' False
   \<and> map fst (ps_spawned (snd (POST (sample_world parsing_fails) fresh_state sample_request)))
       = [''dataset_pipeline'']
   \<and> map_option sj_status
        (training_jobs (ps_db (snd (POST (sample_world parsing_fails) fresh_state sample_request))) ''job-1'')
       = Some JFailed
   \<and> map_option sj_error
        (training_jobs (ps_db (snd (POST (sample_world parsing_fails) fresh_state sample_request))) ''job-1'')
       = Some (Some ''dataset_pipeline exited with code 1'')
   \<and> map_option sc_job_id
        (clones_table (ps_db (snd (POST (sample_world parsing_fails) fresh_state sample_request))) ''clone-1'')
       = Some (Some ''job-1'')
   \<and> map_option sc_status
        (clones_table (ps_db (snd (POST (sample_world parsing_fails) fresh_state sample_request))) ''clone-1'')
       = Some CTraining"
proof -
  note facts = POST_clone_stays_training [of sample_request "''u1''" _ "sample_world parsing_fails"
      fresh_state, OF sample_facts(1,2,3,4,5,6,7)]
  have t: "try_result (sample_world parsing_fails) = Inl ''dataset_pipeline exited with code 1''"
    by (simp add: try_result_def parsing_fails_facts)
  have f: "final_status (sample_world parsing_fails) = JFailed"
    by (simp add: final_status_def t)
  have s: "stages_run (sample_world parsing_fails) = [''dataset_pipeline'']"
    by (simp add: stages_run_def parsing_fails_facts)
  from facts(1) facts(3) job_at_status [OF facts(2)] facts(4) [OF t] facts(6) facts(7)
  show ?thesis by (simp add: sample_facts f s)
qed

text \<open>
  Claim C2, at a request whose parsing yields one knowledge chunk, whose indexing exits
  with code 1 and whose adaptation exits with code 0, on a database that answers at once. The failure line is in the job's
  log, stage 3 is spawned and the job is succeeded, as the claim says; but the clone
  created for the job is still \<^verbatim>\<open>training\<close> at the end, not ready.
\<close>

theorem C2_clone_not_ready:
  "map fst (ps_spawned (snd (POST (sample_world indexing_fails) fresh_state sample_request)))
       = [''dataset_pipeline'', ''rag_index'', ''train_qlora'']
   \<and> has_log (snd (POST (sample_world indexing_fails) fresh_state sample_request)) ''job-1''
        ''RAG index build failed (will continue without RAG): rag_index exited with code 1''
   \<and> map_option sj_status
        (training_jobs (ps_db (snd (POST (sample_world indexing_fails) fresh_state sample_request))) ''job-1'')
       = Some JSucceeded
   \<and> map_option sc_job_id
        (clones_table (ps_db (snd (POST (sample_world indexing_fails) fresh_state sample_request))) ''clone-1'')
       = Some (Some ''job-1'')
   \<and> map_option sc_status
        (clones_table (ps_db (snd (POST (sample_world indexing_fails) fresh_state sample_request))) ''clone-1'')
       = Some CTraining"
proof -
  note facts = POST_clone_stays_training [of sample_request "''u1''" _ "sample_world indexing_fails"
      fresh_state, OF sample_facts(1,2,3,4,5,6,7)]
  have t: "try_result (sample_world indexing_fails) = Inr ()"
    by (simp add: try_result_def indexing_fails_facts)
  have f: "final_status (sample_world indexing_fails) = JSucceeded"
    by (simp add: final_status_def t)
  have s: "stages_run (sample_world indexing_fails) = [''dataset_pipeline'', ''rag_index'', ''train_qlora'']"
    by (simp add: stages_run_def indexing_fails_facts sample_facts)
  have "has_log (snd (POST (sample_world indexing_fails) fresh_state sample_request)) ''job-1''
          (rag_failure_line (sample_world indexing_fails))"
    using facts(5) [OF sample_facts(13)] by (simp add: indexing_fails_facts sample_facts)
  then have l: "has_log (snd (POST (sample_world indexing_fails) fresh_state sample_request)) ''job-1''
        ''RAG index build failed (will continue without RAG): rag_index exited with code 1''"
    by (simp add: rag_failure_line_def indexing_fails_facts)
  from facts(3) job_at_status [OF facts(2)] facts(6) facts(7) l
  show ?thesis by (simp add: sample_facts f s)
qed

end
